(* ===== verification/EWF_Prelude.thy ===== *)
theory EWF_Prelude
  imports Main "HOL-Library.Word"
begin

text \<open>
  Shared vocabulary of the development: the machine integer types, the outcome of a Rust
  computation (value, error, panic), the 64-bit arithmetic the code spells out
  (\<open>saturating_add\<close>, \<open>checked_add\<close> and their kin, on \<open>nat\<close> with the bound written
  out), slices, little-endian byte runs, and the generic list lemmas the components use.

  Conventions. On-disk fields are words of their width. Positions, lengths, counts and
  indices (\<open>u64\<close> and \<open>usize\<close>, 64 bits wide on the platforms the crates support) are
  naturals, and every operation that can leave the range is written with its rule: it
  saturates, it is checked, or it panics, as plain \<open>+\<close>, \<open>-\<close> and \<open>*\<close> do in the
  overflow-checked build that the test suite and the fuzz targets run.
\<close>

section \<open>Machine integers\<close>

type_synonym u8 = "8 word"
type_synonym u16 = "16 word"
type_synonym u32 = "32 word"
type_synonym u64 = "64 word"
type_synonym bytes = "u8 list"

text \<open>Facts about bytes and slices, and about arithmetic at 64 bits, used across components.\<close>

named_theorems slice_simps
named_theorems u64_defs

definition u64_max :: nat where
  "u64_max = 2 ^ 64 - 1"

text \<open>No allocation is larger than \<open>isize::MAX\<close> bytes.\<close>

definition ISIZE_MAX :: nat where
  "ISIZE_MAX = 2 ^ 63 - 1"

definition sat_add :: "nat \<Rightarrow> nat \<Rightarrow> nat" where
  "sat_add a b = min (a + b) u64_max"

definition sat_mul :: "nat \<Rightarrow> nat \<Rightarrow> nat" where
  "sat_mul a b = min (a * b) u64_max"

text \<open>\<open>saturating_sub\<close> is exactly subtraction on naturals.\<close>

abbreviation (input) sat_sub :: "nat \<Rightarrow> nat \<Rightarrow> nat" where
  "sat_sub a b \<equiv> a - b"

definition checked_add :: "nat \<Rightarrow> nat \<Rightarrow> nat option" where
  "checked_add a b = (if a + b \<le> u64_max then Some (a + b) else None)"

definition checked_mul :: "nat \<Rightarrow> nat \<Rightarrow> nat option" where
  "checked_mul a b = (if a * b \<le> u64_max then Some (a * b) else None)"

definition checked_sub :: "nat \<Rightarrow> nat \<Rightarrow> nat option" where
  "checked_sub a b = (if b \<le> a then Some (a - b) else None)"

text \<open>The cast \<open>as i64\<close> of a 64-bit value: two's complement.\<close>

definition as_i64 :: "nat \<Rightarrow> int" where
  "as_i64 n = (if n < 2 ^ 63 then int n else int n - 2 ^ 64)"

definition i64_add :: "int \<Rightarrow> int \<Rightarrow> int option" where
  "i64_add a b = (if - (2 ^ 63) \<le> a + b \<and> a + b < 2 ^ 63 then Some (a + b) else None)"

section \<open>Outcomes\<close>

text \<open>
  \<open>Ok\<close> and \<open>Err\<close> are the constructors of Rust's \<open>Result\<close>; \<open>Panic\<close> is a computation
  that does not return because an index, a slice or an overflow check failed.
\<close>

datatype ('e, 'a) result = Ok 'a | Err 'e | Panic

primrec and_then :: "('e, 'a) result \<Rightarrow> ('a \<Rightarrow> ('e, 'b) result) \<Rightarrow> ('e, 'b) result" where
  "and_then (Ok x) f = f x"
| "and_then (Err e) f = Err e"
| "and_then Panic f = Panic"

primrec map_ok :: "('a \<Rightarrow> 'b) \<Rightarrow> ('e, 'a) result \<Rightarrow> ('e, 'b) result" where
  "map_ok f (Ok x) = Ok (f x)"
| "map_ok f (Err e) = Err e"
| "map_ok f Panic = Panic"

primrec ok :: "('e, 'a) result \<Rightarrow> 'a option" where
  "ok (Ok x) = Some x"
| "ok (Err e) = None"
| "ok Panic = None"

primrec ok_or :: "'e \<Rightarrow> 'a option \<Rightarrow> ('e, 'a) result" where
  "ok_or e None = Err e"
| "ok_or e (Some x) = Ok x"

primrec or_panic :: "'a option \<Rightarrow> ('e, 'a) result" where
  "or_panic None = Panic"
| "or_panic (Some x) = Ok x"

text \<open>A plain \<open>+\<close> on 64-bit values: panics on overflow.\<close>

definition plain_add :: "nat \<Rightarrow> nat \<Rightarrow> ('e, nat) result" where
  "plain_add a b = (if a + b \<le> u64_max then Ok (a + b) else Panic)"

definition plain_mul :: "nat \<Rightarrow> nat \<Rightarrow> ('e, nat) result" where
  "plain_mul a b = (if a * b \<le> u64_max then Ok (a * b) else Panic)"

text \<open>\<open>collect::<Result<Vec<_>>>\<close>: the values in order, or the first failure.\<close>

fun collect :: "('e, 'a) result list \<Rightarrow> ('e, 'a list) result" where
  "collect [] = Ok []"
| "collect (r # rs) = and_then r (\<lambda>x. map_ok (\<lambda>xs. x # xs) (collect rs))"

section \<open>Slices and byte runs\<close>

definition slice :: "nat \<Rightarrow> nat \<Rightarrow> 'a list \<Rightarrow> 'a list" where
  "slice a b xs = take (b - a) (drop a xs)"

text \<open>\<open>xs.get(a..b)\<close>, and \<open>&xs[a..b]\<close>, which panics where the first is \<open>None\<close>.\<close>

definition get_range :: "'a list \<Rightarrow> nat \<Rightarrow> nat \<Rightarrow> 'a list option" where
  "get_range xs a b = (if a \<le> b \<and> b \<le> length xs then Some (slice a b xs) else None)"

definition index_range :: "'a list \<Rightarrow> nat \<Rightarrow> nat \<Rightarrow> ('e, 'a list) result" where
  "index_range xs a b = or_panic (get_range xs a b)"

definition get_at :: "'a list \<Rightarrow> nat \<Rightarrow> 'a option" where
  "get_at xs i = (if i < length xs then Some (xs ! i) else None)"

text \<open>A zeroed buffer of \<open>n\<close> bytes whose front was overwritten with the bytes read.\<close>

definition fill_buf :: "nat \<Rightarrow> bytes \<Rightarrow> bytes" where
  "fill_buf n bs = take n bs @ replicate (n - length bs) 0"

text \<open>\<open>last_mut\<close> followed by a write through the reference.\<close>

definition map_last :: "('a \<Rightarrow> 'a) \<Rightarrow> 'a list \<Rightarrow> 'a list" where
  "map_last f xs = (if xs = [] then [] else butlast xs @ [f (last xs)])"

fun from_le :: "bytes \<Rightarrow> nat" where
  "from_le [] = 0"
| "from_le (b # bs) = unat b + 256 * from_le bs"

fun to_le :: "nat \<Rightarrow> nat \<Rightarrow> bytes" where
  "to_le 0 n = []"
| "to_le (Suc k) n = of_nat (n mod 256) # to_le k (n div 256)"

definition u16_from_le :: "bytes \<Rightarrow> u16" where
  "u16_from_le bs = of_nat (from_le bs)"

definition u32_from_le :: "bytes \<Rightarrow> u32" where
  "u32_from_le bs = of_nat (from_le bs)"

definition u64_from_le :: "bytes \<Rightarrow> u64" where
  "u64_from_le bs = of_nat (from_le bs)"

declare u64_max_def [u64_defs] sat_add_def [u64_defs] sat_mul_def [u64_defs]
  checked_add_def [u64_defs] checked_mul_def [u64_defs] checked_sub_def [u64_defs]

section \<open>Lemmas\<close>

subsection \<open>Outcomes\<close>

lemma and_then_eq_Ok [simp]: "and_then r f = Ok y \<longleftrightarrow> (\<exists>x. r = Ok x \<and> f x = Ok y)"
  by (cases r) auto

lemma map_ok_eq_Ok [simp]: "map_ok f r = Ok y \<longleftrightarrow> (\<exists>x. r = Ok x \<and> y = f x)"
  by (cases r) auto

lemma map_ok_eq_Panic [simp]: "map_ok f r = Panic \<longleftrightarrow> r = Panic"
  by (cases r) auto

lemma and_then_no_panic:
  "r \<noteq> Panic \<Longrightarrow> (\<And>x. r = Ok x \<Longrightarrow> f x \<noteq> Panic) \<Longrightarrow> and_then r f \<noteq> Panic"
  by (cases r) auto

lemma ok_or_eq_Ok [simp]: "ok_or e x = Ok y \<longleftrightarrow> x = Some y"
  by (cases x) auto

lemma ok_or_not_Panic [simp]: "ok_or e x \<noteq> Panic"
  by (cases x) auto

lemma ok_eq_Some [simp]: "ok r = Some x \<longleftrightarrow> r = Ok x"
  by (cases r) auto

lemma collect_Ok [simp]: "collect rs = Ok xs \<longleftrightarrow> rs = map Ok xs"
  by (induction rs arbitrary: xs) (auto simp: Cons_eq_map_conv)

lemma collect_all_Ok: "(\<And>x. x \<in> set xs \<Longrightarrow> f x = Ok (g x)) \<Longrightarrow> collect (map f xs) = Ok (map g xs)"
  by (induction xs) auto

subsection \<open>Arithmetic at 64 bits\<close>

lemma sat_add_exact: "a + b \<le> u64_max \<Longrightarrow> sat_add a b = a + b"
  by (simp add: sat_add_def)

lemma sat_add_le: "sat_add a b \<le> a + b"
  by (simp add: sat_add_def)

lemma le_sat_add: "a \<le> u64_max \<Longrightarrow> a \<le> sat_add a b"
  by (simp add: sat_add_def)

lemma sat_mul_exact: "a * b \<le> u64_max \<Longrightarrow> sat_mul a b = a * b"
  by (simp add: sat_mul_def)

lemma sat_mul_le: "sat_mul a b \<le> a * b"
  by (simp add: sat_mul_def)

lemma sat_mul_bound: "sat_mul a b \<le> u64_max"
  by (simp add: sat_mul_def)

lemma sat_add_bound: "sat_add a b \<le> u64_max"
  by (simp add: sat_add_def)

lemma sat_add_le_length:
  "sat_add a b \<le> n \<Longrightarrow> n < u64_max \<Longrightarrow> a + b \<le> n"
  by (auto simp: sat_add_def min_def split: if_splits)

lemma checked_add_Some [simp]: "checked_add a b = Some c \<longleftrightarrow> a + b \<le> u64_max \<and> c = a + b"
  by (auto simp: checked_add_def)

lemma checked_sub_Some [simp]: "checked_sub a b = Some c \<longleftrightarrow> b \<le> a \<and> c = a - b"
  by (auto simp: checked_sub_def)

lemma checked_mul_Some [simp]: "checked_mul a b = Some c \<longleftrightarrow> a * b \<le> u64_max \<and> c = a * b"
  by (auto simp: checked_mul_def)

lemma plain_add_Ok [simp]: "plain_add a b = Ok c \<longleftrightarrow> a + b \<le> u64_max \<and> c = a + b"
  by (auto simp: plain_add_def)

lemma plain_mul_Ok [simp]: "plain_mul a b = Ok c \<longleftrightarrow> a * b \<le> u64_max \<and> c = a * b"
  by (auto simp: plain_mul_def)

lemma plain_add_exact: "a + b \<le> u64_max \<Longrightarrow> plain_add a b = Ok (a + b)"
  by simp

lemma unat_le_u64_max [simp]: "unat (w :: u64) \<le> u64_max"
  using unsigned_less [of w, where ?'a = nat] by (simp add: u64_max_def)

lemma unat_u32_lt [simp]: "unat (w :: u32) < 4294967296"
  using unsigned_less [of w, where ?'a = nat] by simp

lemma unat_u8_lt [simp]: "unat (w :: u8) < 256"
  using unsigned_less [of w, where ?'a = nat] by simp

subsection \<open>Slices\<close>

lemma length_slice [slice_simps]: "length (slice a b xs) = min (b - a) (length xs - a)"
  by (simp add: slice_def)

lemma length_slice_in [simp]: "b \<le> length xs \<Longrightarrow> length (slice a b xs) = b - a"
  by (simp add: slice_def)

lemma nth_slice [slice_simps]: "i < b - a \<Longrightarrow> b \<le> length xs \<Longrightarrow> slice a b xs ! i = xs ! (a + i)"
  by (simp add: slice_def)

lemma slice_append_slice: "a \<le> b \<Longrightarrow> b \<le> c \<Longrightarrow> slice a b xs @ slice b c xs = slice a c xs"
proof -
  assume ab: "a \<le> b" and bc: "b \<le> c"
  have "take (b - a) (drop a xs) @ take (c - b) (drop (b - a) (drop a xs)) = take (c - a) (drop a xs)"
    using ab bc by (metis Nat.add_diff_assoc2 add.commute diff_add_inverse2 le_add_diff_inverse2 take_add)
  then show ?thesis using ab by (simp add: slice_def)
qed

lemma slice_slice: "a \<le> b \<Longrightarrow> c \<le> d \<Longrightarrow> d \<le> b - a \<Longrightarrow> slice c d (slice a b xs) = slice (a + c) (a + d) xs"
  by (simp add: slice_def drop_take min_def add.commute)

lemma slice_0 [simp]: "slice 0 n xs = take n xs"
  by (simp add: slice_def)

lemma slice_same [simp]: "slice a a xs = []"
  by (simp add: slice_def)

lemma get_range_Some [simp]:
  "get_range xs a b = Some ys \<longleftrightarrow> a \<le> b \<and> b \<le> length xs \<and> ys = slice a b xs"
  by (auto simp: get_range_def)

lemma get_range_None: "get_range xs a b = None \<longleftrightarrow> \<not> (a \<le> b \<and> b \<le> length xs)"
  by (auto simp: get_range_def)

lemma index_range_Ok [simp]:
  "index_range xs a b = Ok ys \<longleftrightarrow> a \<le> b \<and> b \<le> length xs \<and> ys = slice a b xs"
  by (auto simp: index_range_def get_range_def)

lemma index_range_in: "a \<le> b \<Longrightarrow> b \<le> length xs \<Longrightarrow> index_range xs a b = Ok (slice a b xs)"
  by simp

lemma index_range_not_Err [simp]: "index_range xs a b \<noteq> Err e"
  by (simp add: index_range_def get_range_def)

lemma index_range_Panic: "index_range xs a b = Panic \<longleftrightarrow> \<not> (a \<le> b \<and> b \<le> length xs)"
  by (simp add: index_range_def get_range_def)

lemma get_at_Some [simp]: "get_at xs i = Some x \<longleftrightarrow> i < length xs \<and> x = xs ! i"
  by (auto simp: get_at_def)

lemma get_at_None [simp]: "get_at xs i = None \<longleftrightarrow> length xs \<le> i"
  by (auto simp: get_at_def)

lemma length_fill_buf [simp]: "length (fill_buf n bs) = n"
  by (simp add: fill_buf_def)

lemma fill_buf_exact: "length bs = n \<Longrightarrow> fill_buf n bs = bs"
  by (simp add: fill_buf_def)

lemma length_map_last [simp]: "length (map_last f xs) = length xs"
  by (cases xs rule: rev_cases) (auto simp: map_last_def)

lemma map_last_Nil [simp]: "map_last f [] = []"
  by (simp add: map_last_def)

lemma map_last_snoc [simp]: "map_last f (xs @ [x]) = xs @ [f x]"
  by (simp add: map_last_def)

subsection \<open>Little-endian byte runs\<close>

lemma from_le_bound: "from_le bs < 256 ^ length bs"
proof (induction bs)
  case (Cons b bs)
  have "unat b + 256 * from_le bs < 256 + 256 * from_le bs" by simp
  also have "\<dots> = 256 * Suc (from_le bs)" by simp
  also have "\<dots> \<le> 256 * 256 ^ length bs" using Cons by (intro mult_le_mono) auto
  finally show ?case by simp
qed simp

lemma length_to_le [simp]: "length (to_le k n) = k"
  by (induction k arbitrary: n) auto

lemma from_le_to_le: "n < 256 ^ k \<Longrightarrow> from_le (to_le k n) = n"
proof (induction k arbitrary: n)
  case (Suc k)
  have "n div 256 < 256 ^ k" using Suc.prems by (simp add: less_mult_imp_div_less mult.commute)
  then have "from_le (to_le k (n div 256)) = n div 256" by (rule Suc.IH)
  moreover have "unat (of_nat (n mod 256) :: u8) = n mod 256"
    by (simp add: unat_of_nat)
  ultimately show ?case by simp
qed simp

lemma unat_u32_from_le: "length bs \<le> 4 \<Longrightarrow> unat (u32_from_le bs) = from_le bs"
proof -
  assume "length bs \<le> 4"
  then have "(256 :: nat) ^ length bs \<le> 256 ^ 4" by (intro power_increasing) auto
  then have "from_le bs < 2 ^ 32" using from_le_bound [of bs] by simp
  then show ?thesis by (simp add: u32_from_le_def unat_of_nat)
qed

lemma unat_u64_from_le: "length bs \<le> 8 \<Longrightarrow> unat (u64_from_le bs) = from_le bs"
proof -
  assume "length bs \<le> 8"
  then have "(256 :: nat) ^ length bs \<le> 256 ^ 8" by (intro power_increasing) auto
  then have "from_le bs < 2 ^ 64" using from_le_bound [of bs] by simp
  then show ?thesis by (simp add: u64_from_le_def unat_of_nat)
qed

lemma unat_u16_from_le: "length bs \<le> 2 \<Longrightarrow> unat (u16_from_le bs) = from_le bs"
proof -
  assume "length bs \<le> 2"
  then have "(256 :: nat) ^ length bs \<le> 256 ^ 2" by (intro power_increasing) auto
  then have "from_le bs < 2 ^ 16" using from_le_bound [of bs] by simp
  then show ?thesis by (simp add: u16_from_le_def unat_of_nat)
qed

subsection \<open>Lists cut into pieces of one size\<close>

lemma concat_equal_length:
  "(\<And>x. x \<in> set xs \<Longrightarrow> length x = k) \<Longrightarrow> length (concat xs) = length xs * k"
  by (induction xs) auto

lemma drop_concat_equal:
  "(\<And>x. x \<in> set xs \<Longrightarrow> length x = k) \<Longrightarrow> i \<le> length xs \<Longrightarrow>
    drop (i * k) (concat xs) = concat (drop i xs)"
proof (induction xs arbitrary: i)
  case (Cons x xs)
  show ?case
  proof (cases i)
    case (Suc j)
    have "length x = k" using Cons.prems(1) by simp
    then have "drop (i * k) (concat (x # xs)) = drop (j * k) (concat xs)"
      using Suc by simp
    also have "\<dots> = concat (drop j xs)"
      using Cons.prems Suc by (intro Cons.IH) auto
    finally show ?thesis using Suc by simp
  qed simp
qed simp

lemma slice_concat_equal:
  assumes "\<And>x. x \<in> set xs \<Longrightarrow> length x = k" and "i < length xs" and "a \<le> b" and "b \<le> k"
  shows "slice (i * k + a) (i * k + b) (concat xs) = slice a b (xs ! i)"
proof -
  have len: "length (xs ! i) = k" using assms(1,2) by simp
  have "drop (i * k + a) (concat xs) = drop a (concat (drop i xs))"
    using drop_concat_equal [where xs = xs and k = k and i = i, OF assms(1)] assms(2)
    by (simp add: drop_drop [symmetric] add.commute del: drop_drop)
  also have "concat (drop i xs) = xs ! i @ concat (drop (Suc i) xs)"
    using assms(2) by (simp add: Cons_nth_drop_Suc [symmetric])
  finally show ?thesis using assms(3,4) len by (simp add: slice_def)
qed

end
