(* ===== verification/Rust_Text.thy ===== *)
theory Rust_Text
  imports EWF_Prelude
begin

text \<open>
  The parts of Rust's \<open>str\<close> and \<open>char\<close> the crates use, on strings as lists of Unicode
  scalar values: lossy UTF-8 and UTF-16 decoding, \<open>split\<close>, \<open>lines\<close>, trimming,
  \<open>split_whitespace\<close> and integer parsing. All of it is executable.
\<close>

type_synonym rstr = "nat list"

text \<open>A string literal of the source.\<close>

definition lit :: "string \<Rightarrow> rstr" where
  "lit s = map of_char s"

abbreviation replacement_character :: nat where
  "replacement_character \<equiv> 0xFFFD"

section \<open>Decoding\<close>

definition is_cont :: "nat \<Rightarrow> bool" where
  "is_cont b \<longleftrightarrow> 0x80 \<le> b \<and> b \<le> 0xBF"

text \<open>Second byte of a three- or four-byte sequence.\<close>

definition second3 :: "nat \<Rightarrow> nat \<Rightarrow> bool" where
  "second3 b c \<longleftrightarrow> is_cont c \<and> (b = 0xE0 \<longrightarrow> 0xA0 \<le> c) \<and> (b = 0xED \<longrightarrow> c \<le> 0x9F)"

definition second4 :: "nat \<Rightarrow> nat \<Rightarrow> bool" where
  "second4 b c \<longleftrightarrow> is_cont c \<and> (b = 0xF0 \<longrightarrow> 0x90 \<le> c) \<and> (b = 0xF4 \<longrightarrow> c \<le> 0x8F)"

text \<open>
  \<open>String::from_utf8_lossy\<close>: each maximal prefix of an ill-formed sequence becomes one
  replacement character, and decoding resumes at the first byte that did not fit.
\<close>

fun utf8_lossy_nat :: "nat list \<Rightarrow> rstr" where
  "utf8_lossy_nat [] = []"
| "utf8_lossy_nat (b # bs) =
    (if b < 0x80 then b # utf8_lossy_nat bs
     else if 0xC2 \<le> b \<and> b \<le> 0xDF then
       (case bs of
          c # cs \<Rightarrow> if is_cont c then ((b - 0xC0) * 64 + (c - 0x80)) # utf8_lossy_nat cs
                   else replacement_character # utf8_lossy_nat (c # cs)
        | [] \<Rightarrow> [replacement_character])
     else if 0xE0 \<le> b \<and> b \<le> 0xEF then
       (case bs of
          c # cs \<Rightarrow>
            if second3 b c then
              (case cs of
                 d # ds \<Rightarrow>
                   if is_cont d
                   then ((b - 0xE0) * 4096 + (c - 0x80) * 64 + (d - 0x80)) # utf8_lossy_nat ds
                   else replacement_character # utf8_lossy_nat (d # ds)
               | [] \<Rightarrow> [replacement_character])
            else replacement_character # utf8_lossy_nat (c # cs)
        | [] \<Rightarrow> [replacement_character])
     else if 0xF0 \<le> b \<and> b \<le> 0xF4 then
       (case bs of
          c # cs \<Rightarrow>
            if second4 b c then
              (case cs of
                 d # ds \<Rightarrow>
                   if is_cont d then
                     (case ds of
                        e # es \<Rightarrow>
                          if is_cont e
                          then ((b - 0xF0) * 262144 + (c - 0x80) * 4096 + (d - 0x80) * 64 + (e - 0x80))
                                 # utf8_lossy_nat es
                          else replacement_character # utf8_lossy_nat (e # es)
                      | [] \<Rightarrow> [replacement_character])
                   else replacement_character # utf8_lossy_nat (d # ds)
               | [] \<Rightarrow> [replacement_character])
            else replacement_character # utf8_lossy_nat (c # cs)
        | [] \<Rightarrow> [replacement_character])
     else replacement_character # utf8_lossy_nat bs)"

definition from_utf8_lossy :: "bytes \<Rightarrow> rstr" where
  "from_utf8_lossy bs = utf8_lossy_nat (map unat bs)"

text \<open>
  \<open>char::decode_utf16\<close>: one item per code point, \<open>None\<close> for an unpaired surrogate. A high
  half followed by anything else is an error of its own, and the unit after it is decoded
  again.
\<close>

fun decode_utf16 :: "nat list \<Rightarrow> nat option list" where
  "decode_utf16 [] = []"
| "decode_utf16 (u # us) =
    (if u < 0xD800 \<or> 0xDFFF < u then Some u # decode_utf16 us
     else if 0xDC00 \<le> u then None # decode_utf16 us
     else (case us of
             v # vs \<Rightarrow>
               if 0xDC00 \<le> v \<and> v \<le> 0xDFFF
               then Some (0x10000 + (u - 0xD800) * 1024 + (v - 0xDC00)) # decode_utf16 vs
               else None # decode_utf16 (v # vs)
           | [] \<Rightarrow> [None]))"

text \<open>\<open>chunks_exact(2)\<close> read as little-endian units: an odd trailing byte is dropped.\<close>

fun utf16_units :: "bytes \<Rightarrow> nat list" where
  "utf16_units (a # b # bs) = (unat a + 256 * unat b) # utf16_units bs"
| "utf16_units _ = []"

section \<open>Encoding\<close>

text \<open>The UTF-8 bytes of a scalar value, and the byte length \<open>str::len\<close>.\<close>

definition utf8_char :: "nat \<Rightarrow> nat list" where
  "utf8_char c =
    (if c < 0x80 then [c]
     else if c < 0x800 then [0xC0 + c div 64, 0x80 + c mod 64]
     else if c < 0x10000 then [0xE0 + c div 4096, 0x80 + c div 64 mod 64, 0x80 + c mod 64]
     else [0xF0 + c div 262144, 0x80 + c div 4096 mod 64, 0x80 + c div 64 mod 64, 0x80 + c mod 64])"

definition utf8_encode :: "rstr \<Rightarrow> nat list" where
  "utf8_encode s = concat (map utf8_char s)"

definition utf8_len :: "rstr \<Rightarrow> nat" where
  "utf8_len s = length (utf8_encode s)"

text \<open>
  \<open>str::from_utf8\<close>: well-formed bytes are those that lossy decoding and encoding give back, a
  replacement for an ill-formed sequence never being that sequence.
\<close>

definition from_utf8_nat :: "nat list \<Rightarrow> rstr option" where
  "from_utf8_nat bs = (let s = utf8_lossy_nat bs in if utf8_encode s = bs then Some s else None)"

definition from_utf8 :: "bytes \<Rightarrow> rstr option" where
  "from_utf8 bs = from_utf8_nat (map unat bs)"

section \<open>Splitting and trimming\<close>

fun split_on :: "nat \<Rightarrow> rstr \<Rightarrow> rstr list" where
  "split_on c [] = [[]]"
| "split_on c (x # xs) =
    (if x = c then [] # split_on c xs
     else (case split_on c xs of
             p # ps \<Rightarrow> (x # p) # ps
           | [] \<Rightarrow> [[x]]))"

fun join_with :: "nat \<Rightarrow> rstr list \<Rightarrow> rstr" where
  "join_with c [] = []"
| "join_with c [p] = p"
| "join_with c (p # ps) = p @ c # join_with c ps"

definition strip_cr :: "rstr \<Rightarrow> rstr" where
  "strip_cr s = (if s \<noteq> [] \<and> last s = 13 then butlast s else s)"

text \<open>
  \<open>str::lines\<close>: a final piece without a newline keeps a trailing carriage return, an empty
  final piece is not a line.
\<close>

definition lines :: "rstr \<Rightarrow> rstr list" where
  "lines s = (let ps = split_on 10 s in
     map strip_cr (butlast ps) @ (if last ps = [] then [] else [last ps]))"

definition trim_end_matches :: "nat \<Rightarrow> rstr \<Rightarrow> rstr" where
  "trim_end_matches c s = rev (dropWhile (\<lambda>x. x = c) (rev s))"

text \<open>\<open>char::is_whitespace\<close>: the Unicode property White\_Space.\<close>

definition is_whitespace :: "nat \<Rightarrow> bool" where
  "is_whitespace c \<longleftrightarrow> (9 \<le> c \<and> c \<le> 13) \<or> c = 0x20 \<or> c = 0x85 \<or> c = 0xA0 \<or> c = 0x1680
     \<or> (0x2000 \<le> c \<and> c \<le> 0x200A) \<or> c = 0x2028 \<or> c = 0x2029 \<or> c = 0x202F \<or> c = 0x205F \<or> c = 0x3000"

definition trim :: "rstr \<Rightarrow> rstr" where
  "trim s = rev (dropWhile is_whitespace (rev (dropWhile is_whitespace s)))"

fun split_ws_aux :: "rstr \<Rightarrow> rstr \<Rightarrow> rstr list" where
  "split_ws_aux acc [] = (if acc = [] then [] else [rev acc])"
| "split_ws_aux acc (x # xs) =
    (if is_whitespace x
     then (if acc = [] then split_ws_aux [] xs else rev acc # split_ws_aux [] xs)
     else split_ws_aux (x # acc) xs)"

definition split_whitespace :: "rstr \<Rightarrow> rstr list" where
  "split_whitespace s = split_ws_aux [] s"

fun split_once :: "nat \<Rightarrow> rstr \<Rightarrow> (rstr \<times> rstr) option" where
  "split_once c [] = None"
| "split_once c (x # xs) =
    (if x = c then Some ([], xs)
     else map_option (\<lambda>(a, b). (x # a, b)) (split_once c xs))"

text \<open>\<open>replace("\r\n", "\n")\<close>.\<close>

fun replace_crlf :: "rstr \<Rightarrow> rstr" where
  "replace_crlf (x # y # xs) =
    (if x = 13 \<and> y = 10 then 10 # replace_crlf xs else x # replace_crlf (y # xs))"
| "replace_crlf xs = xs"

definition to_ascii_lowercase :: "nat \<Rightarrow> nat" where
  "to_ascii_lowercase c = (if 65 \<le> c \<and> c \<le> 90 then c + 32 else c)"

definition to_ascii_uppercase :: "nat \<Rightarrow> nat" where
  "to_ascii_uppercase c = (if 97 \<le> c \<and> c \<le> 122 then c - 32 else c)"

definition eq_ignore_ascii_case :: "rstr \<Rightarrow> rstr \<Rightarrow> bool" where
  "eq_ignore_ascii_case a b \<longleftrightarrow> map to_ascii_lowercase a = map to_ascii_lowercase b"

definition strip_prefix :: "rstr \<Rightarrow> rstr \<Rightarrow> rstr option" where
  "strip_prefix p s = (if take (length p) s = p then Some (drop (length p) s) else None)"

definition is_ascii_alphabetic :: "nat \<Rightarrow> bool" where
  "is_ascii_alphabetic c \<longleftrightarrow> (65 \<le> c \<and> c \<le> 90) \<or> (97 \<le> c \<and> c \<le> 122)"

section \<open>Parsing and printing integers\<close>

text \<open>\<open>char::to_digit(radix)\<close> for radix 10 and 16.\<close>

definition to_digit :: "nat \<Rightarrow> nat \<Rightarrow> nat option" where
  "to_digit r c =
    (let d = (if 48 \<le> c \<and> c \<le> 57 then c - 48
              else if 97 \<le> c \<and> c \<le> 122 then c - 87
              else if 65 \<le> c \<and> c \<le> 90 then c - 55 else r)
     in if d < r then Some d else None)"

fun digits_value :: "nat \<Rightarrow> nat \<Rightarrow> rstr \<Rightarrow> nat option" where
  "digits_value r acc [] = Some acc"
| "digits_value r acc (c # cs) =
    (case to_digit r c of None \<Rightarrow> None | Some d \<Rightarrow> digits_value r (acc * r + d) cs)"

text \<open>
  \<open>from_str_radix\<close> of an unsigned type whose largest value is \<open>mx\<close>: an optional plus
  sign, at least one digit, and no overflow.
\<close>

definition from_str_radix :: "nat \<Rightarrow> nat \<Rightarrow> rstr \<Rightarrow> nat option" where
  "from_str_radix mx r s =
    (let ds = (case s of [] \<Rightarrow> [] | c # cs \<Rightarrow> if c = 43 then cs else s)
     in if ds = [] then None
        else (case digits_value r 0 ds of
                Some n \<Rightarrow> if n \<le> mx then Some n else None
              | None \<Rightarrow> None))"

definition parse_u64 :: "rstr \<Rightarrow> nat option" where
  "parse_u64 s = from_str_radix u64_max 10 s"

definition parse_u64_hex :: "rstr \<Rightarrow> nat option" where
  "parse_u64_hex s = from_str_radix u64_max 16 s"

definition digit_char :: "nat \<Rightarrow> nat" where
  "digit_char d = (if d < 10 then 48 + d else 87 + d)"

text \<open>Positional notation, lower-case digits, no leading zeros: \<open>{}\<close> and \<open>{:x}\<close>.\<close>

fun show_radix :: "nat \<Rightarrow> nat \<Rightarrow> rstr" where
  "show_radix r n =
    (if r < 2 then [] else if n < r then [digit_char n]
     else show_radix r (n div r) @ [digit_char (n mod r)])"

text \<open>Zero padding to a width: \<open>{:08x}\<close>.\<close>

definition pad_zero :: "nat \<Rightarrow> rstr \<Rightarrow> rstr" where
  "pad_zero w s = replicate (w - length s) 48 @ s"

declare show_radix.simps [simp del]
declare utf8_lossy_nat.simps(2) [simp del]

text \<open>\<open>format!("{b:02x}")\<close> over a byte string.\<close>

definition hex_byte :: "u8 \<Rightarrow> rstr" where
  "hex_byte b = [digit_char (unat b div 16), digit_char (unat b mod 16)]"

definition hex_string :: "bytes \<Rightarrow> rstr" where
  "hex_string bs = concat (map hex_byte bs)"

section \<open>Lemmas\<close>

lemma length_lit [simp]: "length (lit s) = length s"
  by (simp add: lit_def)

lemma lit_Nil [simp]: "lit [] = []"
  by (simp add: lit_def)

lemma lit_Cons [simp]: "lit (c # s) = of_char c # lit s"
  by (simp add: lit_def)

lemma lit_inj [simp]: "lit a = lit b \<longleftrightarrow> a = b"
  by (simp add: lit_def inj_map_eq_map inj_on_def)

text \<open>Lossy decoding is the identity on ASCII, and only ASCII bytes decode to ASCII.\<close>

lemma utf8_lossy_ascii_Cons: "b < 128 \<Longrightarrow> utf8_lossy_nat (b # bs) = b # utf8_lossy_nat bs"
  by (simp add: utf8_lossy_nat.simps(2))

lemma utf8_lossy_ascii: "(\<And>b. b \<in> set bs \<Longrightarrow> b < 128) \<Longrightarrow> utf8_lossy_nat bs = bs"
  by (induction bs) (auto simp: utf8_lossy_ascii_Cons)

lemma utf8_two_big: "0xC2 \<le> (b :: nat) \<Longrightarrow> 128 \<le> (b - 0xC0) * 64 + k"
proof -
  assume "0xC2 \<le> b"
  then have "2 * 64 \<le> (b - 0xC0) * 64" by (intro mult_le_mono) auto
  then show ?thesis by simp
qed

lemma utf8_three_big: "second3 b c \<Longrightarrow> 0xE0 \<le> b \<Longrightarrow> 128 \<le> (b - 0xE0) * 4096 + (c - 0x80) * 64 + k"
proof (cases "b = 0xE0")
  case True
  moreover assume "second3 b c"
  ultimately have "32 * 64 \<le> (c - 0x80) * 64" by (intro mult_le_mono) (auto simp: second3_def)
  then show ?thesis by simp
next
  case False
  moreover assume "0xE0 \<le> b"
  ultimately have "1 * 4096 \<le> (b - 0xE0) * 4096" by (intro mult_le_mono) auto
  then show ?thesis by simp
qed

lemma utf8_four_big:
  "second4 b c \<Longrightarrow> 0xF0 \<le> b \<Longrightarrow> 128 \<le> (b - 0xF0) * 262144 + (c - 0x80) * 4096 + j + k"
proof (cases "b = 0xF0")
  case True
  moreover assume "second4 b c"
  ultimately have "16 * 4096 \<le> (c - 0x80) * 4096" by (intro mult_le_mono) (auto simp: second4_def)
  then show ?thesis by simp
next
  case False
  moreover assume "0xF0 \<le> b"
  ultimately have "1 * 262144 \<le> (b - 0xF0) * 262144" by (intro mult_le_mono) auto
  then show ?thesis by simp
qed

lemma utf8_lossy_big: "128 \<le> b \<Longrightarrow> \<exists>x xs. utf8_lossy_nat (b # bs) = x # xs \<and> 128 \<le> x"
proof -
  assume b: "128 \<le> b"
  consider "b < 0xC2" | "0xC2 \<le> b" "b \<le> 0xDF" | "0xE0 \<le> b" "b \<le> 0xEF"
    | "0xF0 \<le> b" "b \<le> 0xF4" | "0xF4 < b" by linarith
  then show ?thesis
  proof cases
    case 2
    then show ?thesis using utf8_two_big [of b] by (simp add: utf8_lossy_nat.simps(2) split: list.split)
  next
    case 3
    then show ?thesis using utf8_three_big [of b] by (simp add: utf8_lossy_nat.simps(2) split: list.split)
  next
    case 4
    then show ?thesis using utf8_four_big [of b] by (simp add: utf8_lossy_nat.simps(2) add.assoc split: list.split)
  qed (use b in \<open>simp_all add: utf8_lossy_nat.simps(2)\<close>)
qed

lemma utf8_lossy_hd:
  assumes "utf8_lossy_nat (b # bs) = x # xs" and "x < 128"
  shows "b = x \<and> utf8_lossy_nat bs = xs"
proof (cases "b < 128")
  case True
  then show ?thesis using assms by (simp add: utf8_lossy_ascii_Cons)
next
  case False
  then show ?thesis using assms utf8_lossy_big [of b bs] by auto
qed

lemma utf8_lossy_nonempty: "utf8_lossy_nat (b # bs) \<noteq> []"
  using utf8_lossy_big [of b bs] by (cases "b < 128") (auto simp: utf8_lossy_ascii_Cons)

lemma utf8_lossy_eq_ascii:
  "(\<And>c. c \<in> set xs \<Longrightarrow> c < 128) \<Longrightarrow> utf8_lossy_nat bs = xs \<longleftrightarrow> bs = xs"
proof (induction xs arbitrary: bs)
  case Nil
  show ?case by (cases bs) (simp_all add: utf8_lossy_nonempty)
next
  case (Cons x xs)
  show ?case
  proof
    assume eq: "utf8_lossy_nat bs = x # xs"
    then obtain b bs' where bs: "bs = b # bs'" by (cases bs) auto
    have "x < 128" using Cons.prems by simp
    with eq bs have "b = x \<and> utf8_lossy_nat bs' = xs" by (intro utf8_lossy_hd) simp_all
    moreover have "utf8_lossy_nat bs' = xs \<longleftrightarrow> bs' = xs" using Cons.prems by (intro Cons.IH) simp
    ultimately show "bs = x # xs" using bs by blast
  next
    assume "bs = x # xs"
    then show "utf8_lossy_nat bs = x # xs"
      using Cons.prems by (simp only: utf8_lossy_ascii)
  qed
qed

lemma split_on_nonempty [simp]: "split_on c s \<noteq> []"
  by (cases s) (auto split: list.splits)

lemma join_split_on: "join_with c (split_on c s) = s"
proof (induction s)
  case (Cons x xs)
  obtain p ps where eq: "split_on c xs = p # ps"
    by (cases "split_on c xs") auto
  show ?case
  proof (cases "x = c")
    case True
    then show ?thesis using Cons eq by (cases ps) auto
  next
    case False
    then show ?thesis using Cons eq by (cases ps) auto
  qed
qed simp

lemma split_on_no_sep: "p \<in> set (split_on c s) \<Longrightarrow> c \<notin> set p"
  by (induction s arbitrary: p) (auto split: list.splits if_splits)

lemma to_digit_digit_char: "d < r \<Longrightarrow> r \<le> 16 \<Longrightarrow> to_digit r (digit_char d) = Some d"
  by (auto simp: to_digit_def digit_char_def Let_def)

lemma digits_value_append:
  "digits_value r acc (xs @ ys) =
    (case digits_value r acc xs of None \<Rightarrow> None | Some a \<Rightarrow> digits_value r a ys)"
  by (induction xs arbitrary: acc) (auto split: option.splits)

lemma digits_value_show: "2 \<le> r \<Longrightarrow> r \<le> 16 \<Longrightarrow> digits_value r 0 (show_radix r n) = Some n"
proof (induction r n rule: show_radix.induct)
  case (1 r n)
  show ?case
  proof (cases "n < r")
    case True
    then show ?thesis using 1 by (simp add: show_radix.simps [of r n] to_digit_digit_char)
  next
    case False
    then have "digits_value r 0 (show_radix r (n div r)) = Some (n div r)" using 1 by simp
    moreover have "n mod r < r" using 1 by simp
    ultimately show ?thesis using False 1
      by (simp add: show_radix.simps [of r n] digits_value_append to_digit_digit_char)
  qed
qed

lemma show_radix_hd: "2 \<le> r \<Longrightarrow> \<exists>d < r. \<exists>cs. show_radix r n = digit_char d # cs"
proof (induction r n rule: show_radix.induct)
  case (1 r n)
  then show ?case by (cases "n < r") (auto simp: show_radix.simps [of r n])
qed

text \<open>Printing and reading an integer are inverse to each other.\<close>

lemma from_str_radix_show:
  assumes "2 \<le> r" and "r \<le> 16" and "n \<le> mx"
  shows "from_str_radix mx r (show_radix r n) = Some n"
proof -
  obtain d cs where hd: "show_radix r n = digit_char d # cs" "d < r"
    using show_radix_hd [OF assms(1)] by blast
  have "digit_char d \<noteq> 43" by (simp add: digit_char_def)
  then show ?thesis
    using hd digits_value_show [OF assms(1,2), of n] assms(3)
    by (simp add: from_str_radix_def)
qed

lemma length_hex_string [simp]: "length (hex_string bs) = 2 * length bs"
  by (induction bs) (auto simp: hex_string_def hex_byte_def)

text \<open>Pieces without the separator are split again where they were joined.\<close>

lemma split_on_piece: "c \<notin> set p \<Longrightarrow> split_on c p = [p]"
  by (induction p) auto

lemma split_on_append: "c \<notin> set p \<Longrightarrow> split_on c (p @ c # s) = p # split_on c s"
  by (induction p) auto

lemma split_on_join: "ps \<noteq> [] \<Longrightarrow> list_all (\<lambda>p. c \<notin> set p) ps \<Longrightarrow> split_on c (join_with c ps) = ps"
  by (induction c ps rule: join_with.induct) (auto simp: split_on_piece split_on_append)

text \<open>Text of ASCII characters is its own encoding.\<close>

lemma utf8_encode_ascii: "list_all (\<lambda>c. c < 128) s \<Longrightarrow> utf8_encode s = s"
  by (induction s) (auto simp: utf8_encode_def utf8_char_def)

lemma from_utf8_nat_ascii: "list_all (\<lambda>c. c < 128) s \<Longrightarrow> from_utf8_nat s = Some s"
  by (simp add: from_utf8_nat_def utf8_lossy_ascii utf8_encode_ascii list_all_iff)

lemma hex_byte_ascii: "list_all (\<lambda>c. c < 128) (hex_byte b)"
proof -
  have "unat b div 16 < 16" using unat_u8_lt [of b] by linarith
  moreover have "unat b mod 16 < 16" by simp
  moreover have "d < 16 \<Longrightarrow> digit_char d < 128" for d by (simp add: digit_char_def)
  ultimately show ?thesis by (simp add: hex_byte_def)
qed

lemma hex_string_ascii: "list_all (\<lambda>c. c < 128) (hex_string bs)"
  by (induction bs) (use hex_byte_ascii in \<open>auto simp: hex_string_def\<close>)

text \<open>The two digits of a byte are read back as the byte.\<close>

lemma from_str_radix_hex_byte: "from_str_radix 255 16 (hex_byte b) = Some (unat b)"
proof -
  have d: "unat b div 16 < 16" using unat_u8_lt [of b] by linarith
  then have "digit_char (unat b div 16) \<noteq> 43" by (simp add: digit_char_def)
  then show ?thesis
    using d unat_u8_lt [of b] by (simp add: from_str_radix_def hex_byte_def to_digit_digit_char mult.commute)
qed

end
