(* ===== verification/Externals.thy ===== *)
theory Externals
  imports EWF_Prelude Rust_Text
begin

text \<open>
  What the crates take from code outside the repository, as parameters of the model: the
  bounded integer readers of \<open>safe-read\<close>, the checksum of \<open>adler2\<close>, the inflater of
  \<open>flate2\<close>, the digests of \<open>md-5\<close>, \<open>sha-1\<close> and \<open>sha2\<close>, and the cache of \<open>lru\<close>.
  What a theorem relies on is one of the named laws below; a definition that uses one of
  these functions takes the record as its argument. Also here: the error type of
  \<open>core/src/error.rs\<close>.
\<close>

section \<open>Error values\<close>

text \<open>The kinds of \<open>std::io::Error\<close> the sources construct or meet.\<close>

datatype io_error = UnexpectedEof | InvalidInput | InvalidData | OtherIo

text \<open>
  The messages of \<open>EwfError::Parse\<close>, one constructor for each format string of the sources,
  with its arguments.
\<close>

datatype parse_msg =
    ChunkIdOutOfRange nat nat
  | LazyMissingSegment nat
  | LazyEntriesOverflow nat nat
  | LazyEntriesBeyondSegment nat nat nat nat nat
  | LazyShortRead nat nat nat
  | LazyShortHeader nat nat
  | TableEntryCountTooLarge nat nat
  | Ewf2ViaSegmentSource
  | ChunkMissingSegment nat nat
  | Ewf2Cycle
  | Ewf2PreviousOffset nat nat
  | Ewf2ZlibFailed
  | Ewf2OffsetUnderflow rstr nat nat
  | UnknownCompressionMethod nat

datatype EwfError =
    Io io_error
  | InvalidSignature bytes
  | NotLogicalEvidence nat
  | MalformedLogicalField rstr rstr
  | BufferTooShort nat nat
  | InvalidChunkSize u32
  | MissingVolume
  | Decompression
  | SegmentGap nat nat
  | NoSegments rstr
  | Parse parse_msg
  | EncryptedNotSupported

type_synonym 'a ewf_result = "(EwfError, 'a) result"

section \<open>Parameters\<close>

text \<open>
  \<open>x_zlib_read raw hist n\<close> is the answer of a decoder over \<open>raw\<close> to a \<open>read\<close> with an
  \<open>n\<close>-byte buffer, after earlier reads with buffers of the sizes \<open>hist\<close>; \<open>None\<close> is an
  error. \<open>x_zlib_read_to_end raw limit\<close> is \<open>ZlibDecoder::new(raw).take(limit).read_to_end\<close>,
  without the \<open>take\<close> when the limit is \<open>None\<close>. A digest is a function of all bytes fed to
  the hasher, in order.
\<close>

record externals =
  x_le_u32 :: "bytes \<Rightarrow> nat \<Rightarrow> u32"
  x_le_u64 :: "bytes \<Rightarrow> nat \<Rightarrow> u64"
  x_adler32_slice :: "bytes \<Rightarrow> u32"
  x_zlib_read :: "bytes \<Rightarrow> nat list \<Rightarrow> nat \<Rightarrow> bytes option"
  x_zlib_read_to_end :: "bytes \<Rightarrow> nat option \<Rightarrow> bytes option"
  x_md5 :: "bytes \<Rightarrow> bytes"
  x_sha1 :: "bytes \<Rightarrow> bytes"
  x_sha256 :: "bytes \<Rightarrow> bytes"

text \<open>The readers read a little-endian integer that lies inside the buffer.\<close>

definition safe_read_laws :: "externals \<Rightarrow> bool" where
  "safe_read_laws X \<longleftrightarrow>
    (\<forall>d off. off + 4 \<le> length d \<longrightarrow> x_le_u32 X d off = u32_from_le (slice off (off + 4) d)) \<and>
    (\<forall>d off. off + 8 \<le> length d \<longrightarrow> x_le_u64 X d off = u64_from_le (slice off (off + 8) d))"

text \<open>The contract of \<open>std::io::Read\<close>: no more bytes than the buffer holds.\<close>

definition zlib_read_laws :: "externals \<Rightarrow> bool" where
  "zlib_read_laws X \<longleftrightarrow> (\<forall>raw hist n bs. x_zlib_read X raw hist n = Some bs \<longrightarrow> length bs \<le> n)"

text \<open>\<open>take(limit)\<close> bounds what \<open>read_to_end\<close> collects.\<close>

definition zlib_take_laws :: "externals \<Rightarrow> bool" where
  "zlib_take_laws X \<longleftrightarrow>
    (\<forall>raw k bs. x_zlib_read_to_end X raw (Some k) = Some bs \<longrightarrow> length bs \<le> k)"

section \<open>The LRU cache\<close>

text \<open>
  \<open>LruCache::get\<close> (which also marks the entry as most recently used, hence the new state),
  \<open>LruCache::put\<close> and \<open>LruCache::new\<close>, over an abstract state.
\<close>

record ('c, 'v) lru =
  lru_get :: "'c \<Rightarrow> nat \<Rightarrow> 'v option \<times> 'c"
  lru_put :: "'c \<Rightarrow> nat \<Rightarrow> 'v \<Rightarrow> 'c"
  lru_new :: "nat \<Rightarrow> 'c"

text \<open>
  The documented behaviour, over the key-value view of the state: a new cache is empty, a
  lookup returns what the view holds and adds nothing, an insertion adds only the pair it was
  given (and may evict others).
\<close>

definition lru_laws :: "('c, 'v) lru \<Rightarrow> ('c \<Rightarrow> nat \<rightharpoonup> 'v) \<Rightarrow> bool" where
  "lru_laws L view \<longleftrightarrow>
    (\<forall>n. view (lru_new L n) = Map.empty) \<and>
    (\<forall>c k. fst (lru_get L c k) = view c k) \<and>
    (\<forall>c k. view (snd (lru_get L c k)) \<subseteq>\<^sub>m view c) \<and>
    (\<forall>c k v. view (lru_put L c k v) \<subseteq>\<^sub>m (view c)(k \<mapsto> v))"

text \<open>
  The pattern both caches of the reader follow: probe, and on a miss compute and insert. The
  locale states it once; a client supplies the computation \<open>f\<close> whose values the cache holds.
\<close>

locale lru_cache =
  fixes L :: "('c, 'v) lru" and view :: "'c \<Rightarrow> nat \<rightharpoonup> 'v"
  assumes laws: "lru_laws L view"
begin

definition coherent :: "(nat \<Rightarrow> 'v \<Rightarrow> bool) \<Rightarrow> 'c \<Rightarrow> bool" where
  "coherent P c \<longleftrightarrow> (\<forall>k v. view c k = Some v \<longrightarrow> P k v)"

lemma coherent_new: "coherent P (lru_new L n)"
  using laws by (simp add: coherent_def lru_laws_def)

lemma get_hit: "coherent P c \<Longrightarrow> lru_get L c k = (Some v, c') \<Longrightarrow> P k v"
  using laws unfolding coherent_def lru_laws_def by (metis fst_conv)

lemma coherent_get: "coherent P c \<Longrightarrow> lru_get L c k = (x, c') \<Longrightarrow> coherent P c'"
  using laws unfolding coherent_def lru_laws_def by (metis map_le_def domIff option.distinct(1) snd_conv)

lemma coherent_put: "coherent P c \<Longrightarrow> P k v \<Longrightarrow> coherent P (lru_put L c k v)"
proof -
  assume c: "coherent P c" and v: "P k v"
  have le: "view (lru_put L c k v) \<subseteq>\<^sub>m (view c)(k \<mapsto> v)" using laws by (simp add: lru_laws_def)
  show ?thesis
    unfolding coherent_def
  proof (intro allI impI)
    fix j w assume "view (lru_put L c k v) j = Some w"
    with le have "((view c)(k \<mapsto> v)) j = Some w" by (metis map_le_def domIff option.distinct(1))
    then show "P j w" using c v by (auto simp: coherent_def split: if_splits)
  qed
qed

end

section \<open>Laws in elimination form\<close>

lemma safe_read_u32:
  "safe_read_laws X \<Longrightarrow> off + 4 \<le> length d \<Longrightarrow> x_le_u32 X d off = u32_from_le (slice off (off + 4) d)"
  by (simp add: safe_read_laws_def)

lemma safe_read_u64:
  "safe_read_laws X \<Longrightarrow> off + 8 \<le> length d \<Longrightarrow> x_le_u64 X d off = u64_from_le (slice off (off + 8) d)"
  by (simp add: safe_read_laws_def)

lemma zlib_read_le: "zlib_read_laws X \<Longrightarrow> x_zlib_read X raw hist n = Some bs \<Longrightarrow> length bs \<le> n"
  by (auto simp: zlib_read_laws_def)

lemma zlib_take_le: "zlib_take_laws X \<Longrightarrow> x_zlib_read_to_end X raw (Some k) = Some bs \<Longrightarrow> length bs \<le> k"
  by (auto simp: zlib_take_laws_def)

section \<open>An instance that meets the laws\<close>

text \<open>
  The functions the witnesses run on: little-endian readers that answer 0 outside the buffer,
  the Adler-32 of RFC 1950, a codec whose compressed form is the data itself, and digests that
  keep the first bytes of the padded input.
\<close>

definition ref_le :: "nat \<Rightarrow> bytes \<Rightarrow> nat \<Rightarrow> nat" where
  "ref_le n d off = (case get_range d off (off + n) of Some s \<Rightarrow> from_le s | None \<Rightarrow> 0)"

fun ref_adler :: "nat \<Rightarrow> nat \<Rightarrow> bytes \<Rightarrow> nat" where
  "ref_adler a b [] = b * 65536 + a"
| "ref_adler a b (x # xs) =
    (let a' = (a + unat x) mod 65521 in ref_adler a' ((b + a') mod 65521) xs)"

definition ref_externals :: externals where
  "ref_externals = \<lparr>
     x_le_u32 = (\<lambda>d off. of_nat (ref_le 4 d off)),
     x_le_u64 = (\<lambda>d off. of_nat (ref_le 8 d off)),
     x_adler32_slice = (\<lambda>d. of_nat (ref_adler 1 0 d)),
     x_zlib_read = (\<lambda>raw hist n. Some (take n (drop (sum_list hist) raw))),
     x_zlib_read_to_end = (\<lambda>raw lim. Some (case lim of None \<Rightarrow> raw | Some k \<Rightarrow> take k raw)),
     x_md5 = fill_buf 16, x_sha1 = fill_buf 20, x_sha256 = fill_buf 32\<rparr>"

lemma ref_safe_read_laws: "safe_read_laws ref_externals"
  by (auto simp: safe_read_laws_def ref_externals_def ref_le_def get_range_def
      u32_from_le_def u64_from_le_def)

lemma ref_zlib_read_laws: "zlib_read_laws ref_externals"
  by (auto simp: zlib_read_laws_def ref_externals_def)

lemma ref_zlib_take_laws: "zlib_take_laws ref_externals"
  by (auto simp: zlib_take_laws_def ref_externals_def)

lemmas ref_laws = ref_safe_read_laws ref_zlib_read_laws ref_zlib_take_laws

section \<open>A cache that meets the contract\<close>

text \<open>
  An association list in order of use, cut to its capacity. It is the instance on which
  witnesses run the reader; nothing else depends on it.
\<close>

record 'v lru_list =
  ll_cap :: nat
  ll_items :: "(nat \<times> 'v) list"

definition ll_get :: "'v lru_list \<Rightarrow> nat \<Rightarrow> 'v option \<times> 'v lru_list" where
  "ll_get c k = (case map_of (ll_items c) k of
     None \<Rightarrow> (None, c)
   | Some v \<Rightarrow> (Some v, c\<lparr>ll_items := (k, v) # filter (\<lambda>p. fst p \<noteq> k) (ll_items c)\<rparr>))"

definition ll_put :: "'v lru_list \<Rightarrow> nat \<Rightarrow> 'v \<Rightarrow> 'v lru_list" where
  "ll_put c k v =
    c\<lparr>ll_items := take (ll_cap c) ((k, v) # filter (\<lambda>p. fst p \<noteq> k) (ll_items c))\<rparr>"

definition lru_list_ops :: "('v lru_list, 'v) lru" where
  "lru_list_ops = \<lparr>lru_get = ll_get, lru_put = ll_put,
     lru_new = (\<lambda>n. \<lparr>ll_cap = n, ll_items = []\<rparr>)\<rparr>"

definition ll_view :: "'v lru_list \<Rightarrow> nat \<rightharpoonup> 'v" where
  "ll_view c = map_of (ll_items c)"

lemma map_of_filter_neq: "map_of (filter (\<lambda>p. fst p \<noteq> k) xs) j = (if j = k then None else map_of xs j)"
  by (induction xs) auto

lemma map_of_take_le: "map_of (take n xs) \<subseteq>\<^sub>m map_of xs"
proof (unfold map_le_def, intro ballI)
  fix a assume "a \<in> dom (map_of (take n xs))"
  then obtain v where v: "map_of (take n xs) a = Some v" by auto
  have "map_of xs = map_of (take n xs @ drop n xs)" by simp
  then have "map_of xs = map_of (drop n xs) ++ map_of (take n xs)" by (simp only: map_of_append)
  with v show "map_of (take n xs) a = map_of xs a" by simp
qed

lemma ll_get_view: "fst (ll_get c k) = ll_view c k" "ll_view (snd (ll_get c k)) = ll_view c"
  by (auto simp: ll_get_def ll_view_def map_of_filter_neq fun_eq_iff split: option.splits)

lemma ll_put_view: "ll_view (ll_put c k v) \<subseteq>\<^sub>m (ll_view c)(k \<mapsto> v)"
proof -
  have "map_of ((k, v) # filter (\<lambda>p. fst p \<noteq> k) (ll_items c)) = (map_of (ll_items c))(k \<mapsto> v)"
    by (auto simp: map_of_filter_neq fun_eq_iff)
  then show ?thesis
    unfolding ll_view_def ll_put_def using map_of_take_le by (metis (no_types, lifting)
      lru_list.ext_inject lru_list.surjective lru_list.update_convs(2))
qed

lemma lru_list_laws: "lru_laws lru_list_ops ll_view"
  by (auto simp: lru_laws_def lru_list_ops_def ll_get_view ll_put_view)
    (simp add: ll_view_def)

interpretation list_cache: lru_cache lru_list_ops ll_view
  by unfold_locales (rule lru_list_laws)

end
