(* ===== verification/Sections.thy ===== *)
theory Sections
  imports Externals
begin

text \<open>
  EWF v1 on-disk structures, \<open>core/src/sections.rs\<close>: the file header, the section
  descriptor, the volume geometry, the table header and its entries, their stored checksums,
  and the packed chunk record of the reader's chunk table.
\<close>

unbundle bit_operations_syntax

section \<open>Constants\<close>

definition EVF_SIGNATURE :: bytes where
  "EVF_SIGNATURE = [0x45, 0x56, 0x46, 0x09, 0x0d, 0x0a, 0xff, 0x00]"

definition LVF_SIGNATURE :: bytes where
  "LVF_SIGNATURE = [0x4c, 0x56, 0x46, 0x09, 0x0d, 0x0a, 0xff, 0x00]"

abbreviation (input) FILE_HEADER_SIZE :: nat where "FILE_HEADER_SIZE \<equiv> 13"
abbreviation (input) SECTION_DESCRIPTOR_SIZE :: nat where "SECTION_DESCRIPTOR_SIZE \<equiv> 76"
abbreviation (input) SECTION_DESCRIPTOR_CRC_OFFSET :: nat where "SECTION_DESCRIPTOR_CRC_OFFSET \<equiv> 72"
abbreviation (input) VOLUME_BODY_FULL_SIZE :: nat where "VOLUME_BODY_FULL_SIZE \<equiv> 1052"
abbreviation (input) VOLUME_BODY_CRC_OFFSET :: nat where "VOLUME_BODY_CRC_OFFSET \<equiv> 1048"
abbreviation (input) TABLE_HEADER_SIZE :: nat where "TABLE_HEADER_SIZE \<equiv> 24"
abbreviation (input) TABLE_HEADER_CRC_OFFSET :: nat where "TABLE_HEADER_CRC_OFFSET \<equiv> 16"
abbreviation (input) DEFAULT_LRU_SIZE :: nat where "DEFAULT_LRU_SIZE \<equiv> 100"

definition adler32 :: "externals \<Rightarrow> bytes \<Rightarrow> u32" where
  "adler32 X data = x_adler32_slice X data"

section \<open>File header\<close>

datatype EwfKind = Physical | Logical

record EwfFileHeader =
  fh_segment_number :: u16
  fh_kind :: EwfKind

definition file_header_parse :: "bytes \<Rightarrow> EwfFileHeader ewf_result" where
  "file_header_parse buf =
    (if length buf < FILE_HEADER_SIZE then Err (BufferTooShort FILE_HEADER_SIZE (length buf))
     else
       let sig = slice 0 8 buf;
           seg = u16_from_le [buf ! 9, buf ! 10]
       in if sig = EVF_SIGNATURE then Ok \<lparr>fh_segment_number = seg, fh_kind = Physical\<rparr>
          else if sig = LVF_SIGNATURE then Ok \<lparr>fh_segment_number = seg, fh_kind = Logical\<rparr>
          else Err (InvalidSignature sig))"

section \<open>Section descriptor\<close>

record SectionDescriptor =
  sd_type :: rstr
  sd_next :: u64
  sd_size :: u64
  sd_offset :: nat
  sd_stored_crc :: u32

text \<open>The bytes before the first NUL of the 16-byte type field.\<close>

definition type_bytes :: "bytes \<Rightarrow> bytes" where
  "type_bytes buf = takeWhile (\<lambda>b. b \<noteq> 0) (take 16 buf)"

definition descriptor_parse :: "externals \<Rightarrow> bytes \<Rightarrow> nat \<Rightarrow> SectionDescriptor ewf_result" where
  "descriptor_parse X buf offset =
    (if length buf < SECTION_DESCRIPTOR_SIZE
     then Err (BufferTooShort SECTION_DESCRIPTOR_SIZE (length buf))
     else Ok \<lparr>sd_type = from_utf8_lossy (type_bytes buf),
              sd_next = x_le_u64 X buf 16,
              sd_size = x_le_u64 X buf 24,
              sd_offset = offset,
              sd_stored_crc = x_le_u32 X buf SECTION_DESCRIPTOR_CRC_OFFSET\<rparr>)"

definition descriptor_verify_crc :: "externals \<Rightarrow> SectionDescriptor \<Rightarrow> bytes \<Rightarrow> bool" where
  "descriptor_verify_crc X d raw =
    (case get_range raw 0 SECTION_DESCRIPTOR_CRC_OFFSET of
       Some covered \<Rightarrow> adler32 X covered = sd_stored_crc d
     | None \<Rightarrow> False)"

section \<open>Volume geometry\<close>

record EwfVolume =
  vol_chunk_count :: u32
  vol_sectors_per_chunk :: u32
  vol_bytes_per_sector :: u32
  vol_sector_count :: u64
  vol_media_type :: u8
  vol_set_identifier :: bytes
  vol_stored_crc :: "u32 option"

definition volume_parse :: "externals \<Rightarrow> bytes \<Rightarrow> EwfVolume ewf_result" where
  "volume_parse X buf =
    (if length buf < 24 then Err (BufferTooShort 24 (length buf))
     else Ok \<lparr>vol_chunk_count = x_le_u32 X buf 4,
              vol_sectors_per_chunk = x_le_u32 X buf 8,
              vol_bytes_per_sector = x_le_u32 X buf 12,
              vol_sector_count = x_le_u64 X buf 16,
              vol_media_type = buf ! 0,
              vol_set_identifier =
                (case get_range buf 64 80 of Some s \<Rightarrow> s | None \<Rightarrow> replicate 16 0),
              vol_stored_crc =
                (if VOLUME_BODY_FULL_SIZE \<le> length buf
                 then Some (x_le_u32 X buf VOLUME_BODY_CRC_OFFSET) else None)\<rparr>)"

text \<open>The product of two 32-bit values cannot overflow 64 bits; the code multiplies plainly.\<close>

definition volume_chunk_size :: "EwfVolume \<Rightarrow> nat" where
  "volume_chunk_size v = unat (vol_sectors_per_chunk v) * unat (vol_bytes_per_sector v)"

definition volume_total_size :: "EwfVolume \<Rightarrow> nat" where
  "volume_total_size v = sat_mul (unat (vol_bytes_per_sector v)) (unat (vol_sector_count v))"

definition volume_verify_crc :: "externals \<Rightarrow> EwfVolume \<Rightarrow> bytes \<Rightarrow> bool option" where
  "volume_verify_crc X v raw =
    (case vol_stored_crc v of
       None \<Rightarrow> None
     | Some stored \<Rightarrow>
         Some (case get_range raw 0 VOLUME_BODY_CRC_OFFSET of
                 Some covered \<Rightarrow> adler32 X covered = stored
               | None \<Rightarrow> False))"

section \<open>Table header and entries\<close>

record TableEntry =
  te_compressed :: bool
  te_chunk_offset :: u32

definition table_entry_parse :: "externals \<Rightarrow> bytes \<Rightarrow> TableEntry ewf_result" where
  "table_entry_parse X buf =
    (if length buf < 4 then Err (BufferTooShort 4 (length buf))
     else let raw = x_le_u32 X buf 0
          in Ok \<lparr>te_compressed = (drop_bit 31 raw \<noteq> 0),
                 te_chunk_offset = raw AND 0x7FFFFFFF\<rparr>)"

record TableHeader =
  th_entry_count :: u32
  th_base_offset :: u64
  th_stored_crc :: u32

definition table_header_parse :: "externals \<Rightarrow> bytes \<Rightarrow> TableHeader ewf_result" where
  "table_header_parse X buf =
    (if length buf < TABLE_HEADER_CRC_OFFSET
     then Err (BufferTooShort TABLE_HEADER_CRC_OFFSET (length buf))
     else Ok \<lparr>th_entry_count = x_le_u32 X buf 0,
              th_base_offset = x_le_u64 X buf 8,
              th_stored_crc = x_le_u32 X buf TABLE_HEADER_CRC_OFFSET\<rparr>)"

definition table_header_verify_crc :: "externals \<Rightarrow> TableHeader \<Rightarrow> bytes \<Rightarrow> bool option" where
  "table_header_verify_crc X h raw =
    (if th_stored_crc h = 0 then None
     else Some (case get_range raw 0 TABLE_HEADER_CRC_OFFSET of
                  Some covered \<Rightarrow> adler32 X covered = th_stored_crc h
                | None \<Rightarrow> False))"

section \<open>Packed chunk metadata\<close>

record Chunk =
  ck_offset_packed :: u64
  ck_segment_idx :: u32
  ck_size :: u32

definition COMPRESSED_BIT :: u64 where
  "COMPRESSED_BIT = push_bit 63 1"

text \<open>\<open>as u32\<close> keeps the low 32 bits, as \<open>of_nat\<close> into a 32-bit word does.\<close>

definition chunk_new :: "nat \<Rightarrow> bool \<Rightarrow> nat \<Rightarrow> nat \<Rightarrow> Chunk" where
  "chunk_new segment_idx compressed offset sz =
    (let flag = (if compressed then COMPRESSED_BIT else 0)
     in \<lparr>ck_offset_packed = (of_nat offset AND NOT COMPRESSED_BIT) OR flag,
         ck_segment_idx = of_nat segment_idx,
         ck_size = of_nat sz\<rparr>)"

definition chunk_segment_idx :: "Chunk \<Rightarrow> nat" where
  "chunk_segment_idx c = unat (ck_segment_idx c)"

definition chunk_compressed :: "Chunk \<Rightarrow> bool" where
  "chunk_compressed c \<longleftrightarrow> ck_offset_packed c AND COMPRESSED_BIT \<noteq> 0"

definition chunk_offset :: "Chunk \<Rightarrow> nat" where
  "chunk_offset c = unat (ck_offset_packed c AND NOT COMPRESSED_BIT)"

definition chunk_size_of :: "Chunk \<Rightarrow> nat" where
  "chunk_size_of c = unat (ck_size c)"

definition chunk_set_size :: "nat \<Rightarrow> Chunk \<Rightarrow> Chunk" where
  "chunk_set_size sz c = c\<lparr>ck_size := of_nat sz\<rparr>"

section \<open>Writers of the layouts\<close>

text \<open>
  The byte layouts that the doc comments of the source tabulate, as encoders: what a parser
  is expected to invert. They are specification, not code of the repository.
\<close>

definition pad_type :: "bytes \<Rightarrow> bytes" where
  "pad_type t = t @ replicate (16 - length t) 0"

definition encode_descriptor :: "bytes \<Rightarrow> u64 \<Rightarrow> u64 \<Rightarrow> u32 \<Rightarrow> bytes" where
  "encode_descriptor t nxt sz crc =
    pad_type t @ to_le 8 (unat nxt) @ to_le 8 (unat sz) @ replicate 40 0 @ to_le 4 (unat crc)"

definition encode_table_header :: "u32 \<Rightarrow> u64 \<Rightarrow> u32 \<Rightarrow> bytes" where
  "encode_table_header n base crc =
    to_le 4 (unat n) @ replicate 4 0 @ to_le 8 (unat base) @ to_le 4 (unat crc) @ replicate 4 0"

definition encode_table_entry :: "bool \<Rightarrow> nat \<Rightarrow> bytes" where
  "encode_table_entry compressed off = to_le 4 (off + (if compressed then 2 ^ 31 else 0))"

section \<open>Packing\<close>

lemma bit_COMPRESSED_BIT: "bit COMPRESSED_BIT n \<longleftrightarrow> n = 63"
  unfolding COMPRESSED_BIT_def by (simp only: bit_push_bit_iff bit_1_iff) auto

lemma packed_offset_and:
  "((w AND NOT COMPRESSED_BIT) OR (if c then COMPRESSED_BIT else 0)) AND NOT COMPRESSED_BIT
     = take_bit 63 (w :: u64)"
  by (rule bit_word_eqI) (auto simp: bit_simps bit_COMPRESSED_BIT)

lemma packed_flag_and:
  "((w AND NOT COMPRESSED_BIT) OR (if c then COMPRESSED_BIT else 0)) AND COMPRESSED_BIT
     = (if c then COMPRESSED_BIT else 0)"
  by (rule bit_word_eqI) (auto simp: bit_simps bit_COMPRESSED_BIT)

lemma COMPRESSED_BIT_neq_0: "COMPRESSED_BIT \<noteq> 0"
  by (simp add: COMPRESSED_BIT_def)

lemma unat_take_bit_63: "unat (take_bit 63 (of_nat n :: u64)) = n mod 2 ^ 63"
proof -
  have "unat (take_bit 63 (of_nat n :: u64)) = take_bit (min 63 LENGTH(64)) n"
    by (simp only: unsigned_take_bit_eq unsigned_of_nat of_nat_id take_bit_take_bit)
  then show ?thesis by (simp add: take_bit_eq_mod)
qed

lemma chunk_new_offset [simp]: "chunk_offset (chunk_new s c off sz) = off mod 2 ^ 63"
  by (simp only: chunk_offset_def chunk_new_def Let_def Chunk.simps packed_offset_and unat_take_bit_63)

lemma chunk_new_compressed [simp]: "chunk_compressed (chunk_new s c off sz) = c"
  by (simp add: chunk_compressed_def chunk_new_def packed_flag_and [unfolded if_distrib] Let_def
      COMPRESSED_BIT_neq_0 bit.conj_disj_distrib2 and.assoc)

lemma chunk_new_size [simp]: "chunk_size_of (chunk_new s c off sz) = sz mod 2 ^ 32"
  by (simp add: chunk_size_of_def chunk_new_def Let_def unat_of_nat)

lemma chunk_new_segment [simp]: "chunk_segment_idx (chunk_new s c off sz) = s mod 2 ^ 32"
  by (simp add: chunk_segment_idx_def chunk_new_def Let_def unat_of_nat)

lemma chunk_set_size_simps [simp]:
  "chunk_offset (chunk_set_size n c) = chunk_offset c"
  "chunk_compressed (chunk_set_size n c) = chunk_compressed c"
  "chunk_segment_idx (chunk_set_size n c) = chunk_segment_idx c"
  "chunk_size_of (chunk_set_size n c) = n mod 2 ^ 32"
  by (simp_all add: chunk_set_size_def chunk_offset_def chunk_compressed_def
      chunk_segment_idx_def chunk_size_of_def unat_of_nat)

lemma chunk_set_size_new: "chunk_set_size n (chunk_new s c off sz) = chunk_new s c off n"
  by (simp add: chunk_set_size_def chunk_new_def Let_def)

section \<open>Parsers\<close>

lemma volume_chunk_size_bound: "volume_chunk_size v \<le> u64_max"
proof -
  have "volume_chunk_size v \<le> 4294967295 * 4294967295"
    unfolding volume_chunk_size_def
    using unat_u32_lt [of "vol_sectors_per_chunk v"] unat_u32_lt [of "vol_bytes_per_sector v"]
    by (intro mult_le_mono) linarith+
  then show ?thesis by (simp add: u64_max_def)
qed

lemma descriptor_parse_eq:
  "SECTION_DESCRIPTOR_SIZE \<le> length buf \<Longrightarrow>
    descriptor_parse X buf off = Ok \<lparr>sd_type = from_utf8_lossy (type_bytes buf),
      sd_next = x_le_u64 X buf 16, sd_size = x_le_u64 X buf 24, sd_offset = off,
      sd_stored_crc = x_le_u32 X buf SECTION_DESCRIPTOR_CRC_OFFSET\<rparr>"
  by (simp add: descriptor_parse_def)

lemma descriptor_parse_offset: "descriptor_parse X buf off = Ok d \<Longrightarrow> sd_offset d = off"
  by (auto simp: descriptor_parse_def split: if_splits)

lemma descriptor_parse_no_panic [simp]: "descriptor_parse X buf off \<noteq> Panic"
  by (simp add: descriptor_parse_def)

lemma volume_parse_no_panic [simp]: "volume_parse X buf \<noteq> Panic"
  by (simp add: volume_parse_def)

lemma table_entry_parse_no_panic [simp]: "table_entry_parse X buf \<noteq> Panic"
  by (simp add: table_entry_parse_def Let_def)

lemma table_header_parse_no_panic [simp]: "table_header_parse X buf \<noteq> Panic"
  by (simp add: table_header_parse_def)

lemma file_header_parse_no_panic [simp]: "file_header_parse buf \<noteq> Panic"
  by (simp add: file_header_parse_def Let_def)

lemma table_entry_parse_Ok: "4 \<le> length buf \<Longrightarrow> \<exists>e. table_entry_parse X buf = Ok e"
  by (simp add: table_entry_parse_def Let_def)

lemma and_7fffffff: "(w :: u32) AND 0x7FFFFFFF = take_bit 31 w"
proof -
  have "(0x7FFFFFFF :: u32) = mask 31" by (simp add: mask_eq_exp_minus_1)
  then show ?thesis by (simp only: take_bit_eq_mask)
qed

lemma te_chunk_offset_bound:
  "table_entry_parse X buf = Ok e \<Longrightarrow> unat (te_chunk_offset e) < 2 ^ 31"
proof -
  assume "table_entry_parse X buf = Ok e"
  then have "te_chunk_offset e = take_bit 31 (x_le_u32 X buf 0)"
    by (auto simp: table_entry_parse_def Let_def and_7fffffff split: if_splits)
  then show ?thesis by (simp only: unsigned_take_bit_eq take_bit_nat_less_exp)
qed

lemma type_bytes_pad: "length t \<le> 16 \<Longrightarrow> 0 \<notin> set t \<Longrightarrow> type_bytes (pad_type t @ rest) = t"
proof -
  assume len: "length t \<le> 16" and nz: "0 \<notin> set t"
  have "take 16 (pad_type t @ rest) = t @ replicate (16 - length t) 0"
    using len by (simp add: pad_type_def)
  moreover have "takeWhile (\<lambda>b. b \<noteq> 0) (t @ replicate (16 - length t) 0) = t"
    using nz by (subst takeWhile_append2) (auto simp: takeWhile_eq_Nil_iff)
  ultimately show ?thesis by (simp only: type_bytes_def)
qed

lemma length_pad_type: "length t \<le> 16 \<Longrightarrow> length (pad_type t) = 16"
  by (simp add: pad_type_def)

text \<open>Reading back a field written in a byte run.\<close>

lemma u64_field:
  assumes "safe_read_laws X" and "length pre = off"
  shows "x_le_u64 X (pre @ to_le 8 (unat (w :: u64)) @ post) off = w"
proof -
  have "slice off (off + 8) (pre @ to_le 8 (unat w) @ post) = to_le 8 (unat w)"
    using assms(2) by (simp add: slice_def)
  moreover have "from_le (to_le 8 (unat w)) = unat w"
    using unsigned_less [of w, where ?'a = nat] by (intro from_le_to_le) simp
  ultimately show ?thesis using assms
    by (simp add: safe_read_u64 u64_from_le_def)
qed

lemma u32_field:
  assumes "safe_read_laws X" and "length pre = off"
  shows "x_le_u32 X (pre @ to_le 4 (unat (w :: u32)) @ post) off = w"
proof -
  have "slice off (off + 4) (pre @ to_le 4 (unat w) @ post) = to_le 4 (unat w)"
    using assms(2) by (simp add: slice_def)
  moreover have "from_le (to_le 4 (unat w)) = unat w"
    using unsigned_less [of w, where ?'a = nat] by (intro from_le_to_le) simp
  ultimately show ?thesis using assms
    by (simp add: safe_read_u32 u32_from_le_def)
qed

section \<open>Round trips\<close>

lemma length_encode_descriptor: "length t \<le> 16 \<Longrightarrow> length (encode_descriptor t nxt sz crc) = 76"
  by (simp add: encode_descriptor_def length_pad_type)

lemma descriptor_fields:
  assumes "safe_read_laws X" and "length t \<le> 16" and "0 \<notin> set t"
  shows "descriptor_parse X (encode_descriptor t nxt sz crc @ rest) off =
    Ok \<lparr>sd_type = from_utf8_lossy t, sd_next = nxt, sd_size = sz, sd_offset = off, sd_stored_crc = crc\<rparr>"
proof -
  let ?b = "encode_descriptor t nxt sz crc @ rest"
  have p: "length (pad_type t) = 16" using assms(2) by (rule length_pad_type)
  have "type_bytes ?b = t"
    using type_bytes_pad [OF assms(2,3)] by (simp add: encode_descriptor_def)
  moreover have "x_le_u64 X ?b 16 = nxt"
    using u64_field [OF assms(1) p, of nxt] by (simp add: encode_descriptor_def)
  moreover have "x_le_u64 X ?b 24 = sz"
    using u64_field [OF assms(1), of "pad_type t @ to_le 8 (unat nxt)" 24 sz] p
    by (simp add: encode_descriptor_def)
  moreover have "x_le_u32 X ?b 72 = crc"
    using u32_field [OF assms(1), of "pad_type t @ to_le 8 (unat nxt) @ to_le 8 (unat sz) @ replicate 40 0" 72 crc] p
    by (simp add: encode_descriptor_def)
  ultimately show ?thesis
    using length_encode_descriptor [OF assms(2), of nxt sz crc]
    by (simp add: descriptor_parse_def)
qed

text \<open>A section descriptor written in the documented layout is parsed back to its type, links,
  size and checksum, and the checksum test compares the stored value with the Adler-32 of the
  first 72 bytes.
\<close>

theorem descriptor_roundtrip:
  assumes "safe_read_laws X" and "length t \<le> 16" and "0 \<notin> set t"
  shows "\<exists>d. descriptor_parse X (encode_descriptor t nxt sz crc @ rest) off = Ok d
    \<and> d = \<lparr>sd_type = from_utf8_lossy t, sd_next = nxt, sd_size = sz, sd_offset = off, sd_stored_crc = crc\<rparr>
    \<and> (descriptor_verify_crc X d (encode_descriptor t nxt sz crc) \<longleftrightarrow>
         x_adler32_slice X (take 72 (encode_descriptor t nxt sz crc)) = crc)"
  using descriptor_fields [OF assms, of nxt sz crc rest off] length_encode_descriptor [OF assms(2), of nxt sz crc]
  by (simp add: descriptor_verify_crc_def get_range_def adler32_def)

theorem descriptor_roundtrip_witness:
  "\<exists>d. descriptor_parse ref_externals (encode_descriptor [0x64, 0x6f, 0x6e, 0x65] 300 76 5 @ [1, 2]) 224 = Ok d
    \<and> d = \<lparr>sd_type = from_utf8_lossy [0x64, 0x6f, 0x6e, 0x65], sd_next = 300, sd_size = 76, sd_offset = 224,
           sd_stored_crc = 5\<rparr>
    \<and> (descriptor_verify_crc ref_externals d (encode_descriptor [0x64, 0x6f, 0x6e, 0x65] 300 76 5) \<longleftrightarrow>
         x_adler32_slice ref_externals (take 72 (encode_descriptor [0x64, 0x6f, 0x6e, 0x65] 300 76 5)) = 5)"
  by (rule descriptor_roundtrip [OF ref_safe_read_laws]) simp_all

lemma header_fields:
  assumes "safe_read_laws X"
  shows "table_header_parse X (encode_table_header n base crc @ rest) =
      Ok \<lparr>th_entry_count = n, th_base_offset = base, th_stored_crc = crc\<rparr>"
  using u32_field [OF assms, of "[]" 0 n] u64_field [OF assms, of "to_le 4 (unat n) @ replicate 4 0" 8 base]
    u32_field [OF assms, of "to_le 4 (unat n) @ replicate 4 0 @ to_le 8 (unat base)" 16 crc]
  by (simp add: table_header_parse_def encode_table_header_def)

lemma entry_fields:
  assumes "safe_read_laws X" and "off < 2 ^ 31"
  shows "table_entry_parse X (encode_table_entry c off) =
      Ok \<lparr>te_compressed = c, te_chunk_offset = of_nat off\<rparr>"
proof -
  define v where "v = off + (if c then 2 ^ 31 else 0)"
  let ?w = "of_nat v :: u32"
  have "v < 2 ^ 32" using assms(2) by (simp add: v_def)
  then have v: "unat ?w = v" by (simp add: unat_of_nat)
  have "unat (drop_bit 31 ?w) = v div 2 ^ 31" "unat (take_bit 31 ?w) = v mod 2 ^ 31"
    by (simp_all only: unat_drop_bit_eq unsigned_take_bit_eq v)
      (simp_all only: drop_bit_eq_div take_bit_eq_mod)
  moreover have "v div 2 ^ 31 = (if c then 1 else 0)" "v mod 2 ^ 31 = off"
    using assms(2) div_add_self2 [of "2 ^ 31" off] by (simp_all add: v_def)
  ultimately have parts: "unat (drop_bit 31 ?w) = (if c then 1 else 0)" "unat (take_bit 31 ?w) = off"
    by simp_all
  have "drop_bit 31 ?w \<noteq> 0 \<longleftrightarrow> c" using parts(1) unat_eq_zero [of "drop_bit 31 ?w"] by (cases c) auto
  moreover have "take_bit 31 ?w = of_nat off" using parts(2) by (metis of_nat_unat ucast_id)
  moreover have "x_le_u32 X (encode_table_entry c off) 0 = ?w"
    using u32_field [OF assms(1), of "[]" 0 ?w "[]"] v by (simp add: encode_table_entry_def v_def)
  ultimately show ?thesis
    by (simp add: table_entry_parse_def Let_def and_7fffffff) (simp add: encode_table_entry_def)
qed

text \<open>A table header written in the documented layout is parsed back, and so is a table entry
  whose offset fits 31 bits: the top bit is the compression flag, the rest the offset.
\<close>

theorem table_layout_roundtrip:
  assumes "safe_read_laws X" and "off < 2 ^ 31"
  shows "table_header_parse X (encode_table_header n base crc @ rest) =
      Ok \<lparr>th_entry_count = n, th_base_offset = base, th_stored_crc = crc\<rparr>
    \<and> table_entry_parse X (encode_table_entry c off) =
      Ok \<lparr>te_compressed = c, te_chunk_offset = of_nat off\<rparr>"
  using header_fields [OF assms(1)] entry_fields [OF assms] by blast

theorem table_layout_roundtrip_witness:
  "table_header_parse ref_externals (encode_table_header 2 4096 7 @ [9]) =
      Ok \<lparr>th_entry_count = 2, th_base_offset = 4096, th_stored_crc = 7\<rparr>
    \<and> table_entry_parse ref_externals (encode_table_entry True 76) =
      Ok \<lparr>te_compressed = True, te_chunk_offset = 76\<rparr>"
  using table_layout_roundtrip [OF ref_safe_read_laws, of 76 2 4096 7 "[9]" True] by simp

text \<open>The packed chunk record keeps its four fields apart: for a segment index and a size below
  32 bits and an offset below 63 bits each accessor returns what was stored, and storing another
  size changes nothing else.
\<close>

theorem chunk_pack_unpack:
  assumes "seg < 2 ^ 32" and "off < 2 ^ 63" and "sz < 2 ^ 32" and "sz' < 2 ^ 32"
    and "c = chunk_new seg z off sz"
  shows "chunk_segment_idx c = seg \<and> chunk_compressed c = z \<and> chunk_offset c = off \<and> chunk_size_of c = sz
    \<and> chunk_size_of (chunk_set_size sz' c) = sz' \<and> chunk_segment_idx (chunk_set_size sz' c) = seg
    \<and> chunk_compressed (chunk_set_size sz' c) = z \<and> chunk_offset (chunk_set_size sz' c) = off"
  using assms by simp

theorem chunk_pack_unpack_witness:
  "chunk_offset (chunk_new 3 True (2 ^ 62 + 5) 77) = 2 ^ 62 + 5 \<and> chunk_compressed (chunk_new 3 True (2 ^ 62 + 5) 77)"
  using chunk_pack_unpack [of 3 "2 ^ 62 + 5" 77 9 _ True, OF _ _ _ _ refl] by simp

end
