(* ===== verification/Segment_Source.thy ===== *)
theory Segment_Source
  imports Sections
begin

text \<open>
  The backing store of one segment, \<open>core/src/segment_source.rs\<close>, with the positioned read
  \<open>pread\<close> of \<open>core/src/reader.rs\<close> it rests on: loose files, windows of a larger file,
  in-memory buffers and caller-supplied backings behind one \<open>read_at\<close>, and the seeking
  cursor that the open pass layers over it. A read answers the bytes it put at the front of
  the caller's buffer; their number is the count the code returns.
\<close>

section \<open>Positioned reads\<close>

text \<open>One answer of the operating system's positioned read: a byte count, an interruption or
  an error.\<close>

datatype os_reply = Got nat | Interrupted | OsError

text \<open>
  The loop of \<open>pread\<close>, driven by the answers \<open>rs\<close>; \<open>acc\<close> holds the bytes read so far.
  \<open>None\<close>: the loop is still waiting for an answer.
\<close>

fun pread_loop :: "os_reply list \<Rightarrow> bytes \<Rightarrow> nat \<Rightarrow> nat \<Rightarrow> bytes \<Rightarrow> bytes ewf_result option" where
  "pread_loop [] fl want offset acc =
    (if length acc < want then None else Some (Ok acc))"
| "pread_loop (r # rs) fl want offset acc =
    (if length acc < want then
       (case r of
          Got n \<Rightarrow>
            if n = 0 then Some (Ok acc)
            else pread_loop rs fl want offset
                   (acc @ slice (offset + length acc) (offset + length acc + n) fl)
        | Interrupted \<Rightarrow> pread_loop rs fl want offset acc
        | OsError \<Rightarrow> Some (Err (Io OtherIo)))
     else Some (Ok acc))"

text \<open>
  The contract of \<open>pread(2)\<close> on a regular file: some of the bytes that are there, none of
  them only at or past the end.
\<close>

fun os_conforms :: "os_reply list \<Rightarrow> bytes \<Rightarrow> nat \<Rightarrow> nat \<Rightarrow> nat \<Rightarrow> bool" where
  "os_conforms [] fl want offset got = True"
| "os_conforms (Got n # rs) fl want offset got =
    (n \<le> want - got \<and> n \<le> length fl - (offset + got) \<and>
     (n = 0 \<longrightarrow> want \<le> got \<or> length fl \<le> offset + got) \<and>
     os_conforms rs fl want offset (got + n))"
| "os_conforms (Interrupted # rs) fl want offset got = os_conforms rs fl want offset got"
| "os_conforms (OsError # rs) fl want offset got = False"

text \<open>What a completed \<open>pread\<close> returns; the property about the loop below is the justification.\<close>

definition pread :: "bytes \<Rightarrow> nat \<Rightarrow> nat \<Rightarrow> bytes" where
  "pread fl n offset = take n (drop offset fl)"

section \<open>Segment sources\<close>

datatype SegmentSource =
    File bytes
  | Sub bytes nat nat
  | Mem bytes
  | Backing nat "nat \<Rightarrow> nat \<Rightarrow> bytes ewf_result"

fun segment_len :: "SegmentSource \<Rightarrow> nat" where
  "segment_len (File f) = length f"
| "segment_len (Sub f base len) = len"
| "segment_len (Mem b) = length b"
| "segment_len (Backing len rd) = len"

definition segment_is_empty :: "SegmentSource \<Rightarrow> bool" where
  "segment_is_empty s \<longleftrightarrow> segment_len s = 0"

text \<open>\<open>read_at s n offset\<close>: a read with an \<open>n\<close>-byte buffer. \<open>base + offset\<close> is a plain addition.\<close>

fun read_at :: "SegmentSource \<Rightarrow> nat \<Rightarrow> nat \<Rightarrow> bytes ewf_result" where
  "read_at (File f) n offset = Ok (pread f n offset)"
| "read_at (Sub f base len) n offset =
    (let avail = sat_sub len offset
     in if avail = 0 then Ok []
        else let want = min n avail
             in if base + offset \<le> u64_max then Ok (pread f want (base + offset)) else Panic)"
| "read_at (Mem b) n offset =
    (let off = min offset (length b);
         src = drop off b
     in Ok (take (min (length src) n) src))"
| "read_at (Backing len rd) n offset = rd n offset"

section \<open>The seeking cursor\<close>

datatype SeekFrom = SeekStart nat | SeekEnd int | SeekCurrent int

record SegmentCursor =
  cur_src :: SegmentSource
  cur_pos :: nat

definition cursor_new :: "SegmentSource \<Rightarrow> SegmentCursor" where
  "cursor_new s = \<lparr>cur_src = s, cur_pos = 0\<rparr>"

definition cursor_segment_len :: "SegmentCursor \<Rightarrow> nat" where
  "cursor_segment_len c = segment_len (cur_src c)"

definition cursor_read :: "SegmentCursor \<Rightarrow> nat \<Rightarrow> (bytes \<times> SegmentCursor) ewf_result" where
  "cursor_read c n =
    map_ok (\<lambda>bs. (bs, c\<lparr>cur_pos := cur_pos c + length bs\<rparr>)) (read_at (cur_src c) n (cur_pos c))"

text \<open>The position arithmetic of \<open>Seek\<close>, shared with the reader: \<open>i64\<close> throughout.\<close>

definition seek_target :: "SeekFrom \<Rightarrow> nat \<Rightarrow> nat \<Rightarrow> nat ewf_result" where
  "seek_target from len pos =
    (case (case from of
             SeekStart p \<Rightarrow> Some (as_i64 p)
           | SeekEnd p \<Rightarrow> i64_add (as_i64 len) p
           | SeekCurrent p \<Rightarrow> i64_add (as_i64 pos) p) of
       None \<Rightarrow> Panic
     | Some new_pos \<Rightarrow> if new_pos < 0 then Err (Io InvalidInput) else Ok (nat new_pos))"

definition cursor_seek :: "SegmentCursor \<Rightarrow> SeekFrom \<Rightarrow> (nat \<times> SegmentCursor) ewf_result" where
  "cursor_seek c from =
    map_ok (\<lambda>p. (p, c\<lparr>cur_pos := p\<rparr>)) (seek_target from (segment_len (cur_src c)) (cur_pos c))"

text \<open>
  \<open>Read::read_exact\<close> of the standard library over the cursor: reads until the buffer is full
  or a read returns nothing. A read that returned more than it was asked for would be sliced
  out of range.
\<close>

function read_exact :: "SegmentSource \<Rightarrow> nat \<Rightarrow> nat \<Rightarrow> bytes ewf_result" where
  "read_exact s n pos =
    (if n = 0 then Ok []
     else (case read_at s n pos of
             Err e \<Rightarrow> Err e
           | Panic \<Rightarrow> Panic
           | Ok bs \<Rightarrow>
               if bs = [] then Err (Io UnexpectedEof)
               else if n < length bs then Panic
               else map_ok (\<lambda>rest. bs @ rest) (read_exact s (n - length bs) (pos + length bs))))"
  by pat_completeness auto
termination
  by (relation "measure (\<lambda>(s, n, pos). n)") auto

declare read_exact.simps [simp del]

text \<open>The pattern \<open>seek(SeekFrom::Start(pos))?; read_exact(&mut [0u8; n])?\<close> of the open pass.\<close>

definition seek_read_exact :: "SegmentSource \<Rightarrow> nat \<Rightarrow> nat \<Rightarrow> bytes ewf_result" where
  "seek_read_exact s pos n =
    and_then (seek_target (SeekStart pos) (segment_len s) 0) (\<lambda>p. read_exact s n p)"

section \<open>The contract of a source\<close>

text \<open>
  A source presents a byte string: every read answers the bytes at the offset, fewer than
  asked only at the end. What a client of \<open>read_at\<close> needs follows from these two laws.
\<close>

locale positioned_source =
  fixes src :: SegmentSource and content :: bytes
  assumes read_content: "read_at src n off = Ok (take n (drop off content))"
    and len_content: "segment_len src = length content"
begin

lemma read_exact_past: "length content \<le> pos \<Longrightarrow> 0 < n \<Longrightarrow> read_exact src n pos = Err (Io UnexpectedEof)"
  by (simp add: read_exact.simps [of src n pos] read_content)

lemma read_exact_content:
  "read_exact src n pos =
    (if n = 0 \<or> pos + n \<le> length content then Ok (slice pos (pos + n) content)
     else Err (Io UnexpectedEof))"
proof -
  show ?thesis
  proof (cases "n = 0 \<or> pos + n \<le> length content")
    case True
    then show ?thesis
      by (auto simp: read_exact.simps [of src n pos] read_exact.simps [of src 0] read_content slice_def)
  next
    case False
    show ?thesis
    proof (cases "length content \<le> pos")
      case True
      with False show ?thesis by (simp add: read_exact_past)
    next
      case inside: False
      let ?m = "length content - pos"
      have "take n (drop pos content) = drop pos content"
        using False by (intro take_all) auto
      moreover have "read_exact src (n - ?m) (pos + ?m) = Err (Io UnexpectedEof)"
        using False inside by (intro read_exact_past) auto
      ultimately show ?thesis
        using False inside by (simp add: read_exact.simps [of src n pos] read_content)
    qed
  qed
qed

lemma seek_read_exact_content:
  assumes "pos < 2 ^ 63"
  shows "seek_read_exact src pos n =
    (if n = 0 \<or> pos + n \<le> length content then Ok (slice pos (pos + n) content)
     else Err (Io UnexpectedEof))"
  using assms by (simp add: seek_read_exact_def seek_target_def as_i64_def read_exact_content)

lemma cursor_read_content:
  "cursor_read \<lparr>cur_src = src, cur_pos = pos\<rparr> n =
    Ok (take n (drop pos content),
        \<lparr>cur_src = src, cur_pos = min (pos + n) (max pos (length content))\<rparr>)"
  by (auto simp: cursor_read_def read_content)

end

interpretation file_source: positioned_source "File f" f for f
  by unfold_locales (simp_all add: pread_def)

lemma mem_read: "read_at (Mem b) n off = Ok (take n (drop off b))"
  by (cases "off \<le> length b") (simp_all add: Let_def min_def)

interpretation mem_source: positioned_source "Mem b" b for b
  by unfold_locales (simp_all only: mem_read segment_len.simps)

section \<open>Windows\<close>

lemma sub_read:
  assumes "base + len \<le> length f" and "length f \<le> u64_max"
  shows "read_at (Sub f base len) n off = Ok (take n (drop off (slice base (base + len) f)))"
proof (cases "off < len")
  case True
  have "take (min n (len - off)) (drop (base + off) f) = take n (drop off (take len (drop base f)))"
    by (simp add: drop_take take_take add.commute)
  then show ?thesis using assms True by (simp add: pread_def slice_def Let_def)
next
  case False
  then show ?thesis by (simp add: slice_def)
qed

lemma sub_source:
  "base + len \<le> length f \<Longrightarrow> length f \<le> u64_max \<Longrightarrow>
    positioned_source (Sub f base len) (slice base (base + len) f)"
  by unfold_locales (simp_all only: sub_read segment_len.simps length_slice_in diff_add_inverse)

section \<open>The \<open>pread\<close> loop\<close>

lemma pread_loop_acc:
  assumes "os_conforms rs fl want offset (length acc)" and "length acc \<le> want"
    and "acc = take (length acc) (drop offset fl)"
    and "pread_loop rs fl want offset acc = Some r"
  shows "r = Ok (take want (drop offset fl))"
  using assms
proof (induction rs fl want offset acc rule: pread_loop.induct)
  case (1 fl want offset acc)
  then show ?case by (auto split: if_splits)
next
  case (2 x rs fl want offset acc)
  show ?case
  proof (cases "length acc < want")
    case False
    then show ?thesis using 2 by auto
  next
    case short: True
    show ?thesis
    proof (cases x)
      case (Got n)
      show ?thesis
      proof (cases "n = 0")
        case True
        with 2 Got short have "length fl \<le> offset + length acc" and r: "r = Ok acc" by auto
        then have "take (length acc) (drop offset fl) = take want (drop offset fl)"
          using short by simp
        with r 2(5) show ?thesis by simp
      next
        case False
        let ?acc = "acc @ slice (offset + length acc) (offset + length acc + n) fl"
        from 2 Got have n: "n \<le> want - length acc" "n \<le> length fl - (offset + length acc)"
          and conf: "os_conforms rs fl want offset (length acc + n)" by auto
        have len: "length ?acc = length acc + n" using n by (simp add: slice_def)
        have "?acc = take (length acc + n) (drop offset fl)"
          using 2(5) by (simp add: slice_def take_add) (metis add.commute drop_drop)
        moreover have "pread_loop rs fl want offset ?acc = Some r"
          using 2(6) short Got False by simp
        ultimately show ?thesis
          using 2(1) [OF short Got False] conf len n short by simp
      qed
    next
      case Interrupted
      then show ?thesis using 2 short by simp
    next
      case OsError
      then show ?thesis using 2 by simp
    qed
  qed
qed

definition answers :: "os_reply list \<Rightarrow> nat" where
  "answers rs = length (filter (\<lambda>r. r \<noteq> Interrupted) rs)"

lemma pread_loop_returns:
  assumes "os_conforms rs fl want offset (length acc)" and "want - length acc < answers rs"
  shows "\<exists>r. pread_loop rs fl want offset acc = Some r"
  using assms
proof (induction rs fl want offset acc rule: pread_loop.induct)
  case (1 fl want offset acc)
  then show ?case by (simp add: answers_def)
next
  case (2 x rs fl want offset acc)
  show ?case
  proof (cases "length acc < want")
    case short: True
    show ?thesis
    proof (cases x)
      case (Got n)
      show ?thesis
      proof (cases "n = 0")
        case False
        let ?acc = "acc @ slice (offset + length acc) (offset + length acc + n) fl"
        from 2 Got have n: "n \<le> length fl - (offset + length acc)"
          and conf: "os_conforms rs fl want offset (length acc + n)" by auto
        have len: "length ?acc = length acc + n" using n by (simp add: slice_def)
        have "want - length ?acc < answers rs"
          using 2(4) Got False len short by (simp add: answers_def)
        then have "\<exists>r. pread_loop rs fl want offset ?acc = Some r"
          using 2(1) [OF short Got False] conf len by simp
        then show ?thesis using short Got False by simp
      qed (use short Got in simp)
    qed (use 2 short in \<open>auto simp: answers_def\<close>)
  qed simp
qed

section \<open>Properties\<close>

text \<open>C14: on a conforming operating system the \<open>pread\<close> loop returns once it has had more answers
  other than interruptions than it wants bytes, and then it has the bytes at the offset: all
  that are wanted, or those up to the end of the file.
\<close>

theorem pread_loop_reads:
  assumes "os_conforms replies fl want offset 0" and "want < answers replies"
  shows "pread_loop replies fl want offset [] = Some (Ok (pread fl want offset))"
proof -
  obtain r where r: "pread_loop replies fl want offset [] = Some r"
    using pread_loop_returns [of replies fl want offset "[]"] assms by auto
  then have "r = Ok (take want (drop offset fl))"
    using pread_loop_acc [of replies fl want offset "[]" r] assms(1) by simp
  with r show ?thesis by (simp add: pread_def)
qed

theorem pread_loop_reads_witness:
  "pread_loop [Interrupted, Got 2, Interrupted, Got 1, Got 0, Got 0, Got 0] [1, 2, 3, 4, 5] 4 2 []
    = Some (Ok [3, 4, 5])"
  using pread_loop_reads [of "[Interrupted, Got 2, Interrupted, Got 1, Got 0, Got 0, Got 0]"
      "[1, 2, 3, 4, 5]" 4 2]
  by (simp add: answers_def pread_def)

end
