(* ===== verification/Chunk_Table.thy ===== *)
theory Chunk_Table
  imports Segment_Source
begin

text \<open>
  The chunk table of the EWF v1 reader, \<open>core/src/chunk_table.rs\<close>: the parser of one table
  section with its two size rules, the eager table (a flat vector), and the lazy table (a
  section index with a cache of parsed sections). The lazy lookup threads its state: looking a
  chunk up moves cache entries and may insert a parsed section.
\<close>

abbreviation (input) DEFAULT_SECTION_CACHE :: nat where "DEFAULT_SECTION_CACHE \<equiv> 8"

section \<open>One table section\<close>

text \<open>
  The loop of \<open>parse_table_section\<close> over the entry indices. Each entry resizes the chunk
  before it when that one is compressed and the offsets ascend; an entry whose absolute offset
  does not exist is skipped.
\<close>

definition backfill_prev :: "nat option \<Rightarrow> nat \<Rightarrow> Chunk list \<Rightarrow> Chunk list" where
  "backfill_prev prev abs_offset chunks =
    (case prev of
       None \<Rightarrow> chunks
     | Some po \<Rightarrow>
         map_last (\<lambda>pc. if chunk_compressed pc
                        then (let sz = sat_sub abs_offset po
                              in if 0 < sz then chunk_set_size sz pc else pc)
                        else pc) chunks)"

fun table_loop ::
  "externals \<Rightarrow> bytes \<Rightarrow> nat \<Rightarrow> nat \<Rightarrow> nat \<Rightarrow> nat list \<Rightarrow> nat option \<Rightarrow> Chunk list
    \<Rightarrow> Chunk list ewf_result" where
  "table_loop X entries base seg cs [] prev chunks = Ok chunks"
| "table_loop X entries base seg cs (i # is) prev chunks =
    and_then (index_range entries (i * 4) ((i + 1) * 4)) (\<lambda>eb.
    and_then (table_entry_parse X eb) (\<lambda>entry.
      (case checked_add (unat (te_chunk_offset entry)) base of
         None \<Rightarrow> table_loop X entries base seg cs is prev chunks
       | Some abs_offset \<Rightarrow>
           table_loop X entries base seg cs is (Some abs_offset)
             (backfill_prev prev abs_offset chunks
                @ [chunk_new seg (te_compressed entry) abs_offset cs]))))"

text \<open>The last chunk takes its size from the end of the sectors section.\<close>

definition backfill_last :: "nat option \<Rightarrow> nat \<Rightarrow> Chunk list \<Rightarrow> Chunk list" where
  "backfill_last sectors_data_end cs chunks =
    (case sectors_data_end of
       None \<Rightarrow> chunks
     | Some e \<Rightarrow>
         map_last (\<lambda>lc. if chunk_compressed lc \<and> chunk_size_of lc = cs
                        then (let actual = sat_sub e (chunk_offset lc)
                              in if 0 < actual \<and> actual < cs then chunk_set_size actual lc else lc)
                        else lc) chunks)"

definition parse_table_section ::
  "externals \<Rightarrow> bytes \<Rightarrow> nat \<Rightarrow> nat \<Rightarrow> nat \<Rightarrow> nat \<Rightarrow> nat option \<Rightarrow> Chunk list ewf_result" where
  "parse_table_section X entries entry_count base_offset seg_idx chunk_size sectors_data_end =
    (let n = min entry_count (length entries div 4)
     in and_then (table_loop X entries base_offset seg_idx chunk_size [0..<n] None [])
          (\<lambda>chunks. Ok (backfill_last sectors_data_end chunk_size chunks)))"

section \<open>The lazy table\<close>

record SectionMeta =
  sm_first_chunk_id :: nat
  sm_entry_count :: nat
  sm_entries_file_offset :: nat
  sm_base_offset :: nat
  sm_segment_idx :: nat
  sm_sectors_data_end :: "nat option"

record 'c LazyChunkTable =
  lt_index :: "SectionMeta list"
  lt_len :: nat
  lt_chunk_size :: nat
  lt_cache :: 'c

definition lazy_new :: "('c, Chunk list) lru \<Rightarrow> SectionMeta list \<Rightarrow> nat \<Rightarrow> nat \<Rightarrow> 'c LazyChunkTable" where
  "lazy_new L index chunk_size section_cache_cap =
    \<lparr>lt_index = index,
     lt_len = (if index = [] then 0
               else sm_first_chunk_id (last index) + sm_entry_count (last index)),
     lt_chunk_size = chunk_size,
     lt_cache = lru_new L (max section_cache_cap 1)\<rparr>"

text \<open>\<open>slice::partition_point\<close> on a slice that is partitioned by the predicate.\<close>

definition partition_point :: "('a \<Rightarrow> bool) \<Rightarrow> 'a list \<Rightarrow> nat" where
  "partition_point p xs = length (takeWhile p xs)"

definition section_for :: "SectionMeta list \<Rightarrow> nat \<Rightarrow> nat option" where
  "section_for index chunk_id =
    (let after = partition_point (\<lambda>m. sm_first_chunk_id m \<le> chunk_id) index
     in if after = 0 then None
        else let pos = after - 1; m = index ! pos
             in if chunk_id < sm_first_chunk_id m + sm_entry_count m then Some pos else None)"

text \<open>The cache-miss path: read the section's entry bytes and parse them.\<close>

definition lazy_load ::
  "externals \<Rightarrow> nat \<Rightarrow> SectionMeta \<Rightarrow> SegmentSource list \<Rightarrow> Chunk list ewf_result" where
  "lazy_load X chunk_size m segments =
    (case get_at segments (sm_segment_idx m) of
       None \<Rightarrow> Err (Parse (LazyMissingSegment (sm_segment_idx m)))
     | Some src \<Rightarrow>
         (case checked_mul (sm_entry_count m) 4 of
            None \<Rightarrow> Err (Parse (LazyEntriesOverflow (sm_entries_file_offset m) (sm_entry_count m)))
          | Some want \<Rightarrow>
              let avail = sat_sub (segment_len src) (sm_entries_file_offset m)
              in if avail < want
                 then Err (Parse (LazyEntriesBeyondSegment (sm_entries_file_offset m)
                        (sm_entry_count m) want avail (sm_segment_idx m)))
                 else and_then (read_at src want (sm_entries_file_offset m)) (\<lambda>bs.
                   if length bs < want
                   then Err (Parse (LazyShortRead (sm_entries_file_offset m) (length bs) want))
                   else parse_table_section X (fill_buf want bs) (sm_entry_count m)
                          (sm_base_offset m) (sm_segment_idx m) chunk_size
                          (sm_sectors_data_end m))))"

definition lazy_get ::
  "('c, Chunk list) lru \<Rightarrow> externals \<Rightarrow> 'c LazyChunkTable \<Rightarrow> nat \<Rightarrow> SegmentSource list
    \<Rightarrow> Chunk ewf_result \<times> 'c LazyChunkTable" where
  "lazy_get L X t chunk_id segments =
    (case section_for (lt_index t) chunk_id of
       None \<Rightarrow> (Err (Parse (ChunkIdOutOfRange chunk_id (lt_len t))), t)
     | Some pos \<Rightarrow>
         let m = lt_index t ! pos;
             local = chunk_id - sm_first_chunk_id m
         in (case lru_get L (lt_cache t) pos of
               (Some sect, c1) \<Rightarrow> (or_panic (get_at sect local), t\<lparr>lt_cache := c1\<rparr>)
             | (None, c1) \<Rightarrow>
                 (case lazy_load X (lt_chunk_size t) m segments of
                    Err e \<Rightarrow> (Err e, t\<lparr>lt_cache := c1\<rparr>)
                  | Panic \<Rightarrow> (Panic, t\<lparr>lt_cache := c1\<rparr>)
                  | Ok sect \<Rightarrow>
                      (case get_at sect local of
                         None \<Rightarrow> (Panic, t\<lparr>lt_cache := c1\<rparr>)
                       | Some chunk \<Rightarrow> (Ok chunk, t\<lparr>lt_cache := lru_put L c1 pos sect\<rparr>)))))"

text \<open>
  \<open>TableSectionRef::read_header\<close>: the index entry of one table section, from its 24-byte
  header alone.
\<close>

record TableSectionRef =
  tr_desc_offset :: nat
  tr_sectors_data_end :: "nat option"

definition read_header ::
  "TableSectionRef \<Rightarrow> SegmentSource \<Rightarrow> nat \<Rightarrow> nat \<Rightarrow> nat \<Rightarrow> SectionMeta ewf_result" where
  "read_header r src seg_idx first_chunk_id max_table_entries =
    and_then (plain_add (tr_desc_offset r) SECTION_DESCRIPTOR_SIZE) (\<lambda>hdr_offset.
    and_then (read_at src 24 hdr_offset) (\<lambda>bs.
      if length bs < 24 then Err (Parse (LazyShortHeader hdr_offset (length bs)))
      else
        let tbl_hdr = fill_buf 24 bs;
            entry_count = unat (u32_from_le (slice 0 4 tbl_hdr))
        in if max_table_entries < entry_count
           then Err (Parse (TableEntryCountTooLarge entry_count max_table_entries))
           else and_then (plain_add hdr_offset 24) (\<lambda>entries_off.
             Ok \<lparr>sm_first_chunk_id = first_chunk_id,
                 sm_entry_count = entry_count,
                 sm_entries_file_offset = entries_off,
                 sm_base_offset = unat (u64_from_le (slice 8 16 tbl_hdr)),
                 sm_segment_idx = seg_idx,
                 sm_sectors_data_end = tr_sectors_data_end r\<rparr>)))"

section \<open>Either table\<close>

datatype 'c ChunkTable = Eager "Chunk list" | Lazy "'c LazyChunkTable"

fun table_len :: "'c ChunkTable \<Rightarrow> nat" where
  "table_len (Eager v) = length v"
| "table_len (Lazy l) = lt_len l"

fun table_get ::
  "('c, Chunk list) lru \<Rightarrow> externals \<Rightarrow> 'c ChunkTable \<Rightarrow> nat \<Rightarrow> SegmentSource list
    \<Rightarrow> Chunk ewf_result \<times> 'c ChunkTable" where
  "table_get L X (Eager v) chunk_id segments =
    (ok_or (Parse (ChunkIdOutOfRange chunk_id (length v))) (get_at v chunk_id), Eager v)"
| "table_get L X (Lazy l) chunk_id segments =
    map_prod id Lazy (lazy_get L X l chunk_id segments)"

text \<open>
  \<open>size_of::<Chunk>\<close> is 16 (the packing the struct documents); the size of an index entry is
  left as a parameter, the layout of that struct being the compiler's.
\<close>

fun resident_table_bytes :: "nat \<Rightarrow> ('c \<Rightarrow> Chunk list list) \<Rightarrow> 'c ChunkTable \<Rightarrow> nat" where
  "resident_table_bytes meta_size cached (Eager v) = length v * 16"
| "resident_table_bytes meta_size cached (Lazy l) =
    length (lt_index l) * meta_size + sum_list (map length (cached (lt_cache l))) * 16"

section \<open>What a table section says\<close>

text \<open>
  The reference reading of a table section: the entries that have an absolute offset, in
  order, each with the size the two rules give it.
\<close>

definition entry_at_index :: "externals \<Rightarrow> bytes \<Rightarrow> nat \<Rightarrow> u32" where
  "entry_at_index X entries i = x_le_u32 X (slice (i * 4) (i * 4 + 4) entries) 0"

definition located :: "externals \<Rightarrow> bytes \<Rightarrow> nat \<Rightarrow> nat list \<Rightarrow> (bool \<times> nat) list" where
  "located X entries base is =
    map (\<lambda>i. (drop_bit 31 (entry_at_index X entries i) \<noteq> 0,
              unat (take_bit 31 (entry_at_index X entries i)) + base))
        (filter (\<lambda>i. unat (take_bit 31 (entry_at_index X entries i)) + base \<le> u64_max) is)"

fun sized_chunks :: "nat \<Rightarrow> nat \<Rightarrow> (bool \<times> nat) list \<Rightarrow> Chunk list" where
  "sized_chunks seg cs [] = []"
| "sized_chunks seg cs [(c, off)] = [chunk_new seg c off cs]"
| "sized_chunks seg cs ((c, off) # (c', off') # ps) =
    chunk_new seg c off (if c \<and> off < off' then off' - off else cs)
      # sized_chunks seg cs ((c', off') # ps)"

lemma length_sized_chunks [simp]: "length (sized_chunks seg cs ps) = length ps"
  by (induction seg cs ps rule: sized_chunks.induct) auto

lemma sized_chunks_Nil [simp]: "sized_chunks seg cs ps = [] \<longleftrightarrow> ps = []"
  by (metis length_0_conv length_sized_chunks)

lemma map_last_Cons: "xs \<noteq> [] \<Longrightarrow> map_last f (x # xs) = x # map_last f xs"
  by (simp add: map_last_def)

lemma sized_chunks_snoc:
  "sized_chunks seg cs (ps @ [(c, off)]) =
    backfill_prev (if ps = [] then None else Some (snd (last ps))) off (sized_chunks seg cs ps)
      @ [chunk_new seg c off cs]"
proof (induction seg cs ps rule: sized_chunks.induct)
  case (1 seg cs)
  show ?case by (simp add: backfill_prev_def)
next
  case (2 seg cs c1 off1)
  show ?case
    by (auto simp: backfill_prev_def map_last_def Let_def chunk_set_size_new)
next
  case (3 seg cs c1 off1 c2 off2 ps)
  then show ?case by (simp add: backfill_prev_def map_last_Cons)
qed

lemma entry_parse_slice:
  assumes "i * 4 + 4 \<le> length entries"
  shows "and_then (index_range entries (i * 4) ((i + 1) * 4)) (\<lambda>eb. and_then (table_entry_parse X eb) f)
    = f \<lparr>te_compressed = (drop_bit 31 (entry_at_index X entries i) \<noteq> 0),
         te_chunk_offset = take_bit 31 (entry_at_index X entries i)\<rparr>"
proof -
  have eq: "index_range entries (i * 4) ((i + 1) * 4) = Ok (slice (i * 4) (i * 4 + 4) entries)"
    using assms by (simp add: algebra_simps)
  have "length (slice (i * 4) (i * 4 + 4) entries) = 4" using assms by simp
  then show ?thesis
    unfolding eq by (simp add: table_entry_parse_def entry_at_index_def and_7fffffff Let_def)
qed

lemma located_Cons:
  "located X entries base (i # is) =
    (if unat (take_bit 31 (entry_at_index X entries i)) + base \<le> u64_max
     then (drop_bit 31 (entry_at_index X entries i) \<noteq> 0,
           unat (take_bit 31 (entry_at_index X entries i)) + base) # located X entries base is
     else located X entries base is)"
  by (simp add: located_def)

lemma table_loop_sized:
  assumes "\<And>i. i \<in> set is \<Longrightarrow> i * 4 + 4 \<le> length entries"
  shows "table_loop X entries base seg cs is (if ps = [] then None else Some (snd (last ps)))
      (sized_chunks seg cs ps) = Ok (sized_chunks seg cs (ps @ located X entries base is))"
  using assms
proof (induction "is" arbitrary: ps)
  case Nil
  then show ?case by (simp add: located_def)
next
  case (Cons i "is")
  let ?e = "entry_at_index X entries i"
  let ?off = "unat (take_bit 31 ?e) + base"
  let ?ps = "ps @ [(drop_bit 31 ?e \<noteq> 0, ?off)]"
  have step: "table_loop X entries base seg cs (i # is) prev chunks =
    (if ?off \<le> u64_max
     then table_loop X entries base seg cs is (Some ?off)
            (backfill_prev prev ?off chunks @ [chunk_new seg (drop_bit 31 ?e \<noteq> 0) ?off cs])
     else table_loop X entries base seg cs is prev chunks)" for prev chunks
    unfolding table_loop.simps using Cons.prems
    by (subst entry_parse_slice) (simp_all add: checked_add_def)
  show ?case
  proof (cases "?off \<le> u64_max")
    case True
    then have "table_loop X entries base seg cs (i # is) (if ps = [] then None else Some (snd (last ps)))
        (sized_chunks seg cs ps) =
      table_loop X entries base seg cs is (Some ?off) (sized_chunks seg cs ?ps)"
      unfolding step by (simp add: sized_chunks_snoc)
    also have "\<dots> = Ok (sized_chunks seg cs (?ps @ located X entries base is))"
      using Cons.IH [of ?ps] Cons.prems by simp
    finally show ?thesis using True by (simp add: located_Cons)
  next
    case False
    then show ?thesis using Cons unfolding step by (simp add: located_Cons)
  qed
qed

lemma four_byte_cell: "i \<in> set [0..<min n (l div 4)] \<Longrightarrow> i * 4 + 4 \<le> l"
  by auto

text \<open>A table section parses without error or panic, to the reference reading.\<close>

lemma parse_table_section_sized:
  "parse_table_section X entries n base seg cs e =
    Ok (backfill_last e cs
         (sized_chunks seg cs (located X entries base [0..<min n (length entries div 4)])))"
proof -
  have "table_loop X entries base seg cs [0..<min n (length entries div 4)] None [] =
      Ok (sized_chunks seg cs (located X entries base [0..<min n (length entries div 4)]))"
    using table_loop_sized [of "[0..<min n (length entries div 4)]" entries X base seg cs "[]",
        OF four_byte_cell [where n = n]] by simp
  then show ?thesis by (simp add: parse_table_section_def Let_def)
qed

lemma length_backfill_last [simp]: "length (backfill_last e cs chunks) = length chunks"
  by (simp add: backfill_last_def split: option.splits)

lemma length_located_le: "length (located X entries base is) \<le> length is"
  by (simp add: located_def)

lemma length_located:
  "(\<And>i. i \<in> set is \<Longrightarrow> unat (take_bit 31 (entry_at_index X entries i)) + base \<le> u64_max) \<Longrightarrow>
    length (located X entries base is) = length is"
  by (simp add: located_def)

text \<open>A base below \<open>2\<^sup>6\<^sup>4 - 2\<^sup>3\<^sup>1\<close> leaves every entry an absolute offset.\<close>

lemma unat_take_bit_31: "unat (take_bit 31 (w :: u32)) < 2 ^ 31"
  by (simp only: unsigned_take_bit_eq take_bit_nat_less_exp)

lemma length_located_small_base:
  "base \<le> u64_max - 2 ^ 31 \<Longrightarrow> length (located X entries base is) = length is"
proof (rule length_located)
  fix i
  assume "base \<le> u64_max - 2 ^ 31"
  then show "unat (take_bit 31 (entry_at_index X entries i)) + base \<le> u64_max"
    using unat_take_bit_31 [of "entry_at_index X entries i"] by (simp add: u64_max_def)
qed

section \<open>The index of the lazy table\<close>

text \<open>Each section starts where the sections before it end.\<close>

fun index_from :: "nat \<Rightarrow> SectionMeta list \<Rightarrow> bool" where
  "index_from k [] \<longleftrightarrow> True"
| "index_from k (m # ms) \<longleftrightarrow> sm_first_chunk_id m = k \<and> index_from (k + sm_entry_count m) ms"

lemma index_from_append:
  "index_from k (xs @ ys) \<longleftrightarrow>
    index_from k xs \<and> index_from (k + sum_list (map sm_entry_count xs)) ys"
  by (induction xs arbitrary: k) (auto simp: add.assoc)

lemma index_from_ge: "index_from k ms \<Longrightarrow> m \<in> set ms \<Longrightarrow> k \<le> sm_first_chunk_id m"
  by (induction ms arbitrary: k) (auto, fastforce)

lemma lazy_len_index:
  "index_from 0 ms \<Longrightarrow> lt_len (lazy_new L ms cs cap) = sum_list (map sm_entry_count ms)"
  by (cases ms rule: rev_cases) (auto simp: lazy_new_def index_from_append)

text \<open>
  The binary search finds the section that holds a chunk id: the one at which the ids before
  it are used up, and the rest of the id is the place inside the section.
\<close>

lemma takeWhile_index:
  assumes "index_from k ms" and "k \<le> cid" and "cid < k + sum_list (map sm_entry_count ms)"
  shows "\<exists>pre m post. ms = pre @ m # post \<and> takeWhile (\<lambda>m. sm_first_chunk_id m \<le> cid) ms = pre @ [m]
    \<and> sm_first_chunk_id m = k + sum_list (map sm_entry_count pre) \<and> sm_first_chunk_id m \<le> cid
    \<and> cid < sm_first_chunk_id m + sm_entry_count m"
  using assms
proof (induction ms arbitrary: k)
  case (Cons m ms)
  have first: "sm_first_chunk_id m = k" and rest: "index_from (k + sm_entry_count m) ms"
    using Cons.prems by auto
  show ?case
  proof (cases "cid < k + sm_entry_count m")
    case True
    have none: "takeWhile (\<lambda>m. sm_first_chunk_id m \<le> cid) ms = []"
    proof (cases ms)
      case (Cons m' ms')
      then have "k + sm_entry_count m \<le> sm_first_chunk_id m'"
        using index_from_ge [OF rest] by simp
      with True Cons show ?thesis by simp
    qed simp
    have "m # ms = [] @ m # ms" by simp
    moreover have "takeWhile (\<lambda>m. sm_first_chunk_id m \<le> cid) (m # ms) = [] @ [m]"
      using Cons.prems first none by simp
    ultimately show ?thesis using first True Cons.prems by fastforce
  next
    case False
    then obtain pre m' post where ih: "ms = pre @ m' # post"
      "takeWhile (\<lambda>m. sm_first_chunk_id m \<le> cid) ms = pre @ [m']"
      "sm_first_chunk_id m' = k + sm_entry_count m + sum_list (map sm_entry_count pre)"
      "sm_first_chunk_id m' \<le> cid" "cid < sm_first_chunk_id m' + sm_entry_count m'"
      using Cons.IH [OF rest] Cons.prems by (auto simp: add.assoc)
    then have "m # ms = (m # pre) @ m' # post \<and>
        takeWhile (\<lambda>m. sm_first_chunk_id m \<le> cid) (m # ms) = (m # pre) @ [m'] \<and>
        sm_first_chunk_id m' = k + sum_list (map sm_entry_count (m # pre))"
      using Cons.prems first by simp
    with ih show ?thesis by blast
  qed
qed simp

lemma section_for_index:
  assumes "index_from 0 ms" and "cid < sum_list (map sm_entry_count ms)"
  obtains pre m post where "ms = pre @ m # post" and "section_for ms cid = Some (length pre)"
    and "sm_first_chunk_id m = sum_list (map sm_entry_count pre)"
    and "sm_first_chunk_id m \<le> cid" and "cid < sm_first_chunk_id m + sm_entry_count m"
proof -
  obtain pre m post where w: "ms = pre @ m # post"
    "takeWhile (\<lambda>m. sm_first_chunk_id m \<le> cid) ms = pre @ [m]"
    "sm_first_chunk_id m = 0 + sum_list (map sm_entry_count pre)"
    "sm_first_chunk_id m \<le> cid" "cid < sm_first_chunk_id m + sm_entry_count m"
    using takeWhile_index [OF assms(1), of cid] assms(2) by auto
  then have "section_for ms cid = Some (length pre)"
    by (simp add: section_for_def partition_point_def Let_def)
  with w that show ?thesis by simp
qed

lemma section_for_beyond:
  assumes "index_from 0 ms" and "sum_list (map sm_entry_count ms) \<le> cid"
  shows "section_for ms cid = None"
proof (cases "partition_point (\<lambda>m. sm_first_chunk_id m \<le> cid) ms")
  case (Suc pos)
  let ?m = "ms ! pos"
  have "pos < length ms"
    using Suc length_takeWhile_le [of "\<lambda>m. sm_first_chunk_id m \<le> cid" ms]
    by (simp add: partition_point_def)
  then have ms: "ms = take pos ms @ ?m # drop (Suc pos) ms" by (simp add: id_take_nth_drop)
  then have "index_from (sum_list (map sm_entry_count (take pos ms))) (?m # drop (Suc pos) ms)"
    using assms(1) index_from_append [of 0 "take pos ms" "?m # drop (Suc pos) ms"] by simp
  then have "sm_first_chunk_id ?m = sum_list (map sm_entry_count (take pos ms))" by simp
  moreover have "sum_list (map sm_entry_count ms) =
      sum_list (map sm_entry_count (take pos ms @ ?m # drop (Suc pos) ms))" using ms by simp
  ultimately have "sm_first_chunk_id ?m + sm_entry_count ?m \<le> cid"
    using assms(2) by simp
  then show ?thesis using Suc by (simp add: section_for_def Let_def)
qed (simp add: section_for_def)

section \<open>Lookups without a cache\<close>

text \<open>The lookup that parses its section every time.\<close>

definition lazy_lookup ::
  "externals \<Rightarrow> SectionMeta list \<Rightarrow> nat \<Rightarrow> nat \<Rightarrow> nat \<Rightarrow> SegmentSource list \<Rightarrow> Chunk ewf_result" where
  "lazy_lookup X index len chunk_size chunk_id segments =
    (case section_for index chunk_id of
       None \<Rightarrow> Err (Parse (ChunkIdOutOfRange chunk_id len))
     | Some pos \<Rightarrow>
         and_then (lazy_load X chunk_size (index ! pos) segments) (\<lambda>sect.
           or_panic (get_at sect (chunk_id - sm_first_chunk_id (index ! pos)))))"

fun table_lookup ::
  "externals \<Rightarrow> 's ChunkTable \<Rightarrow> nat \<Rightarrow> SegmentSource list \<Rightarrow> Chunk ewf_result" where
  "table_lookup X (Eager v) chunk_id segments =
    ok_or (Parse (ChunkIdOutOfRange chunk_id (length v))) (get_at v chunk_id)"
| "table_lookup X (Lazy l) chunk_id segments =
    lazy_lookup X (lt_index l) (lt_len l) (lt_chunk_size l) chunk_id segments"

text \<open>Everything but the cache is the same in two states of one table.\<close>

fun same_table :: "'s ChunkTable \<Rightarrow> 's ChunkTable \<Rightarrow> bool" where
  "same_table (Eager v) (Eager w) \<longleftrightarrow> v = w"
| "same_table (Lazy a) (Lazy b) \<longleftrightarrow> a\<lparr>lt_cache := lt_cache b\<rparr> = b"
| "same_table _ _ \<longleftrightarrow> False"

lemma same_table_refl [simp]: "same_table t t"
  by (cases t) simp_all

lemma same_table_lookup: "same_table t u \<Longrightarrow> table_lookup X u cid segs = table_lookup X t cid segs"
  by (cases "(t, u)" rule: same_table.cases) (auto, metis LazyChunkTable.select_convs(1,2,3)
      LazyChunkTable.surjective LazyChunkTable.update_convs(4))

lemma same_table_len: "same_table t u \<Longrightarrow> table_len u = table_len t"
  by (cases "(t, u)" rule: same_table.cases) (auto, metis LazyChunkTable.select_convs(2)
      LazyChunkTable.surjective LazyChunkTable.update_convs(4))

lemma same_table_trans: "same_table t u \<Longrightarrow> same_table u v \<Longrightarrow> same_table t v"
  by (cases t; cases u; cases v) (auto, metis LazyChunkTable.surjective LazyChunkTable.update_convs(4))

text \<open>
  The section cache of a table holds, at an index position, what loading that section gives.
  Under the contract of the cache a lookup through it answers what the lookup without it
  answers, and keeps the cache so.
\<close>

context lru_cache
begin

definition sections_cached ::
  "(SectionMeta list \<Rightarrow> nat \<Rightarrow> nat \<Rightarrow> 'v \<Rightarrow> bool) \<Rightarrow> 'c LazyChunkTable \<Rightarrow> bool" where
  "sections_cached loaded t \<longleftrightarrow> coherent (loaded (lt_index t) (lt_chunk_size t)) (lt_cache t)"

end

definition loads_to ::
  "externals \<Rightarrow> SegmentSource list \<Rightarrow> SectionMeta list \<Rightarrow> nat \<Rightarrow> nat \<Rightarrow> Chunk list \<Rightarrow> bool" where
  "loads_to X segs index cs pos sect \<longleftrightarrow> lazy_load X cs (index ! pos) segs = Ok sect"

fun table_coherent ::
  "('s \<Rightarrow> nat \<rightharpoonup> Chunk list) \<Rightarrow> externals \<Rightarrow> SegmentSource list \<Rightarrow> 's ChunkTable \<Rightarrow> bool" where
  "table_coherent view X segs (Eager v) \<longleftrightarrow> True"
| "table_coherent view X segs (Lazy l) \<longleftrightarrow> lru_cache.sections_cached view (loads_to X segs) l"

lemma lazy_get_transparent:
  assumes cache: "lru_cache L view" and coh: "lru_cache.sections_cached view (loads_to X segs) t"
    and g: "lazy_get L X t cid segs = (r, t')"
  shows "r = lazy_lookup X (lt_index t) (lt_len t) (lt_chunk_size t) cid segs"
    and "t\<lparr>lt_cache := lt_cache t'\<rparr> = t'"
    and "lru_cache.sections_cached view (loads_to X segs) t'"
proof -
  let ?P = "loads_to X segs (lt_index t) (lt_chunk_size t)"
  have coh: "lru_cache.coherent view ?P (lt_cache t)"
    using coh by (simp add: lru_cache.sections_cached_def [OF cache])
  note put = lru_cache.coherent_put [OF cache, of ?P] and get = lru_cache.coherent_get [OF cache coh]
    and hit = lru_cache.get_hit [OF cache coh]
  have "r = lazy_lookup X (lt_index t) (lt_len t) (lt_chunk_size t) cid segs \<and>
      t\<lparr>lt_cache := lt_cache t'\<rparr> = t' \<and> lru_cache.coherent view ?P (lt_cache t')"
  proof (cases "section_for (lt_index t) cid")
    case None
    then show ?thesis using g coh by (auto simp: lazy_get_def lazy_lookup_def)
  next
    case (Some pos)
    obtain h c1 where h: "lru_get L (lt_cache t) pos = (h, c1)" by fastforce
    have c1: "lru_cache.coherent view ?P c1" using get [OF h] .
    show ?thesis
    proof (cases h)
      case (Some s)
      have "lazy_load X (lt_chunk_size t) (lt_index t ! pos) segs = Ok s"
        using hit [of pos s c1] h Some by (simp add: loads_to_def)
      then show ?thesis using g h Some c1 \<open>section_for (lt_index t) cid = Some pos\<close>
        by (auto simp: lazy_get_def lazy_lookup_def Let_def)
    next
      case None
      have "lazy_load X (lt_chunk_size t) (lt_index t ! pos) segs = Ok s \<Longrightarrow>
          lru_cache.coherent view ?P (lru_put L c1 pos s)" for s
        using put [OF c1] by (simp add: loads_to_def)
      then show ?thesis using g h None c1 \<open>section_for (lt_index t) cid = Some pos\<close>
        by (auto simp: lazy_get_def lazy_lookup_def Let_def get_at_def split: result.splits if_splits)
    qed
  qed
  then have eqs: "r = lazy_lookup X (lt_index t) (lt_len t) (lt_chunk_size t) cid segs"
      "t\<lparr>lt_cache := lt_cache t'\<rparr> = t'" "lru_cache.coherent view ?P (lt_cache t')" by auto
  show "r = lazy_lookup X (lt_index t) (lt_len t) (lt_chunk_size t) cid segs" by (rule eqs)
  show same: "t\<lparr>lt_cache := lt_cache t'\<rparr> = t'" by (rule eqs)
  have "lt_index t' = lt_index t" "lt_chunk_size t' = lt_chunk_size t"
    using arg_cong [OF same, of lt_index] arg_cong [OF same, of lt_chunk_size] by simp_all
  then show "lru_cache.sections_cached view (loads_to X segs) t'"
    using eqs(3) by (simp add: lru_cache.sections_cached_def [OF cache])
qed

lemma table_get_transparent:
  assumes "lru_cache L view" and "table_coherent view X segs t" and "table_get L X t cid segs = (r, t')"
  shows "r = table_lookup X t cid segs \<and> same_table t t' \<and> table_coherent view X segs t'"
proof (cases t)
  case (Eager v)
  then show ?thesis using assms(3) by auto
next
  case (Lazy l)
  obtain l' where l': "lazy_get L X l cid segs = (r, l')" "t' = Lazy l'"
    using assms(3) Lazy by (auto simp: map_prod_def split: prod.splits)
  show ?thesis
    using lazy_get_transparent [OF assms(1) _ l'(1)] assms(2) Lazy l'(2) by simp
qed

lemma table_coherent_new:
  "lru_cache L view \<Longrightarrow> table_coherent view X segs (Lazy (lazy_new L ix cs cap))"
  by (simp add: lru_cache.sections_cached_def lru_cache.coherent_new lazy_new_def)

section \<open>Lazy lookup and the flat vector\<close>

lemma nth_concat_cut:
  assumes "ss = pre @ s # post" and "i < length s"
  shows "concat ss ! (length (concat pre) + i) = s ! i"
  using assms by (simp add: nth_append)

text \<open>
  If every section of the index loads to a list of as many chunks as it declares, the lookup
  answers what the flat vector of all sections holds at that place.
\<close>

lemma lazy_lookup_concat:
  assumes ix: "index_from 0 index"
    and loads: "list_all2 (\<lambda>m s. lazy_load X cs m segs = Ok s) index ss"
    and lens: "map length ss = map sm_entry_count index"
  shows "lazy_lookup X index (length (concat ss)) cs cid segs =
    table_lookup X (Eager (concat ss)) cid segs"
proof -
  have all: "length (concat ss) = sum_list (map sm_entry_count index)"
    using lens by (simp add: length_concat)
  show ?thesis
  proof (cases "cid < length (concat ss)")
    case False
    then have "section_for index cid = None" using section_for_beyond [OF ix, of cid] all by simp
    then show ?thesis using False by (simp add: lazy_lookup_def get_at_def)
  next
    case True
    obtain pre m post where at: "index = pre @ m # post"
      "section_for index cid = Some (length pre)"
      "sm_first_chunk_id m = sum_list (map sm_entry_count pre)"
      "sm_first_chunk_id m \<le> cid" "cid < sm_first_chunk_id m + sm_entry_count m"
      using section_for_index [OF ix] True all by metis
    let ?p = "length pre" and ?i = "cid - sm_first_chunk_id m"
    have lss: "length ss = length index" using lens by (metis length_map)
    have p: "?p < length ss" using at lss by simp
    have load: "lazy_load X cs m segs = Ok (ss ! ?p)"
      using list_all2_nthD [OF loads, of ?p] at by simp
    have ss: "ss = take ?p ss @ ss ! ?p # drop (Suc ?p) ss" using p by (simp add: id_take_nth_drop)
    have lp: "length (ss ! ?p) = sm_entry_count m"
      using arg_cong [OF lens, of "\<lambda>l. l ! ?p"] p lss at(1) by (metis nth_append_length nth_map)
    have lpre: "length (concat (take ?p ss)) = sm_first_chunk_id m"
      using arg_cong [OF lens, of "take ?p"] at by (simp add: length_concat take_map)
    have i: "?i < length (ss ! ?p)" using at lp by simp
    have "concat ss ! cid = ss ! ?p ! ?i" using nth_concat_cut [OF ss i] lpre at by simp
    moreover have "index ! ?p = m" using at by simp
    ultimately show ?thesis using at(2) load i True by (simp add: lazy_lookup_def get_at_def)
  qed
qed

section \<open>Properties\<close>


text \<open>The entries of a table section as an acquisition tool writes them.\<close>

definition encode_table_entries :: "(bool \<times> nat) list \<Rightarrow> bytes" where
  "encode_table_entries ps = concat (map (\<lambda>(c, off). encode_table_entry c off) ps)"

lemma length_encode_table_entry [simp]: "length (encode_table_entry c off) = 4"
  by (simp add: encode_table_entry_def)

lemma length_encode_table_entries [simp]: "length (encode_table_entries ps) = length ps * 4"
  by (induction ps) (auto simp: encode_table_entries_def)

lemma slice_encode_table_entries:
  "i < length ps \<Longrightarrow> slice (i * 4) (i * 4 + 4) (encode_table_entries ps) =
    encode_table_entry (fst (ps ! i)) (snd (ps ! i))"
proof (induction ps arbitrary: i)
  case (Cons p ps)
  have cons: "encode_table_entries (p # ps) = encode_table_entry (fst p) (snd p) @ encode_table_entries ps"
    by (simp add: encode_table_entries_def split: prod.split)
  show ?case
  proof (cases i)
    case 0
    then show ?thesis unfolding cons by (simp add: slice_def)
  next
    case (Suc j)
    then show ?thesis using Cons unfolding cons by (simp add: slice_def)
  qed
qed simp

lemma entry_bits:
  assumes "safe_read_laws X" and "off < 2 ^ 31"
  shows "(drop_bit 31 (x_le_u32 X (encode_table_entry c off) 0) \<noteq> 0) = c"
    and "unat (take_bit 31 (x_le_u32 X (encode_table_entry c off) 0)) = off"
  using entry_fields [OF assms, of c] assms(2)
  by (auto simp: table_entry_parse_def and_7fffffff Let_def unat_of_nat)

lemma located_encoded:
  assumes "safe_read_laws X" and "list_all (\<lambda>(c, off). off < 2 ^ 31 \<and> off + base \<le> u64_max) ps"
  shows "located X (encode_table_entries ps) base [0..<length ps] = map (\<lambda>(c, off). (c, off + base)) ps"
proof -
  have p: "snd (ps ! i) < 2 ^ 31" "snd (ps ! i) + base \<le> u64_max" if "i < length ps" for i
    using assms(2) that by (auto simp: list_all_length case_prod_beta)
  have bits: "(drop_bit 31 (entry_at_index X (encode_table_entries ps) i) \<noteq> 0) = fst (ps ! i)"
    "unat (take_bit 31 (entry_at_index X (encode_table_entries ps) i)) = snd (ps ! i)" if "i < length ps" for i
    using entry_bits [OF assms(1) p(1) [OF that]] slice_encode_table_entries [OF that]
    by (simp_all add: entry_at_index_def)
  have "filter (\<lambda>i. unat (take_bit 31 (entry_at_index X (encode_table_entries ps) i)) + base \<le> u64_max)
      [0..<length ps] = [0..<length ps]"
    using bits(2) p(2) by (simp add: filter_id_conv)
  then show ?thesis
    using bits by (intro nth_equalityI) (simp_all add: located_def split: prod.split)
qed

lemma parse_encoded_entries:
  assumes "safe_read_laws X" and "list_all (\<lambda>(c, off). off < 2 ^ 31 \<and> off + base \<le> u64_max) ps"
  shows "parse_table_section X (encode_table_entries ps) (length ps) base seg cs sectors_end =
    Ok (backfill_last sectors_end cs (sized_chunks seg cs (map (\<lambda>(c, off). (c, off + base)) ps)))"
  using located_encoded [OF assms] by (simp add: parse_table_section_sized)

lemma sized_chunks_fields:
  "map chunk_compressed (sized_chunks seg cs ps) = map fst ps"
  "map chunk_offset (sized_chunks seg cs ps) = map (\<lambda>p. snd p mod 2 ^ 63) ps"
  "map chunk_segment_idx (sized_chunks seg cs ps) = map (\<lambda>p. seg mod 2 ^ 32) ps"
  by (induction seg cs ps rule: sized_chunks.induct) auto

lemma map_map_last: "(\<And>x. f (g x) = f x) \<Longrightarrow> map f (map_last g xs) = map f xs"
  by (cases xs rule: rev_cases) (auto simp: map_last_def)

lemma backfill_last_fields:
  "map chunk_compressed (backfill_last e cs chunks) = map chunk_compressed chunks"
  "map chunk_offset (backfill_last e cs chunks) = map chunk_offset chunks"
  "map chunk_segment_idx (backfill_last e cs chunks) = map chunk_segment_idx chunks"
  by (cases e; simp add: backfill_last_def Let_def map_map_last)+

text \<open>The entries an acquisition tool writes are parsed back to chunks at the written offsets with
  the written compression flags, one chunk for every entry, in the given segment.
\<close>

theorem table_section_roundtrip:
  assumes "safe_read_laws X" and "list_all (\<lambda>(c, off). off < 2 ^ 31 \<and> off + base < 2 ^ 63) ps"
    and "seg < 2 ^ 32"
  shows "\<exists>chunks. parse_table_section X (encode_table_entries ps) (length ps) base seg cs sectors_end = Ok chunks
    \<and> map chunk_compressed chunks = map fst ps \<and> map chunk_offset chunks = map (\<lambda>p. snd p + base) ps
    \<and> map chunk_segment_idx chunks = map (\<lambda>_. seg) ps"
proof -
  let ?ps = "map (\<lambda>(c, off). (c, off + base)) ps"
  have small: "list_all (\<lambda>(c, off). off < 2 ^ 31 \<and> off + base \<le> u64_max) ps"
    using assms(2) by (auto simp: list_all_iff u64_max_def)
  have "map (\<lambda>p. snd p mod 2 ^ 63) ?ps = map (\<lambda>p. snd p + base) ps"
    using assms(2) by (auto simp: list_all_iff)
  then show ?thesis
    using assms(3) by (simp add: parse_encoded_entries [OF assms(1) small] backfill_last_fields
        sized_chunks_fields comp_def case_prod_beta)
qed

theorem table_section_roundtrip_witness:
  "\<exists>chunks. parse_table_section ref_externals (encode_table_entries [(True, 76), (False, 300)]) 2 4096 3 512 None
      = Ok chunks
    \<and> map chunk_compressed chunks = [True, False] \<and> map chunk_offset chunks = [4172, 4396]
    \<and> map chunk_segment_idx chunks = [3, 3]"
  using table_section_roundtrip [OF ref_safe_read_laws, of 4096 "[(True, 76), (False, 300)]" 3 512 None]
  by (simp flip: numeral_2_eq_2)

text \<open>Successive lookups in one lazy table.\<close>

fun lazy_gets ::
  "('c, Chunk list) lru \<Rightarrow> externals \<Rightarrow> 'c LazyChunkTable \<Rightarrow> nat list \<Rightarrow> SegmentSource list
    \<Rightarrow> Chunk ewf_result list" where
  "lazy_gets L X t [] segments = []"
| "lazy_gets L X t (i # ids) segments =
    (let (r, t') = lazy_get L X t i segments in r # lazy_gets L X t' ids segments)"

lemma lazy_gets_transparent:
  assumes "lru_cache L view" and "lru_cache.sections_cached view (loads_to X segs) t"
  shows "lazy_gets L X t ids segs =
    map (\<lambda>i. lazy_lookup X (lt_index t) (lt_len t) (lt_chunk_size t) i segs) ids"
  using assms(2)
proof (induction ids arbitrary: t)
  case (Cons i ids)
  obtain r t' where g: "lazy_get L X t i segs = (r, t')" by fastforce
  note tr = lazy_get_transparent [OF assms(1) Cons.prems g]
  have "lt_index t' = lt_index t" "lt_len t' = lt_len t" "lt_chunk_size t' = lt_chunk_size t"
    using arg_cong [OF tr(2), of lt_index] arg_cong [OF tr(2), of lt_len]
      arg_cong [OF tr(2), of lt_chunk_size] by simp_all
  then show ?case using Cons.IH [OF tr(3)] tr(1) g by simp
qed simp


text \<open>A segment with two entry areas: two chunks at 64 and 96, and one at 128.\<close>

definition two_areas :: bytes where
  "two_areas = encode_table_entries [(True, 64), (False, 96)] @ encode_table_entries [(True, 28)]"

definition two_sections :: "SectionMeta list" where
  "two_sections =
    [\<lparr>sm_first_chunk_id = 0, sm_entry_count = 2, sm_entries_file_offset = 0, sm_base_offset = 0,
      sm_segment_idx = 0, sm_sectors_data_end = None\<rparr>,
     \<lparr>sm_first_chunk_id = 2, sm_entry_count = 1, sm_entries_file_offset = 8, sm_base_offset = 100,
      sm_segment_idx = 0, sm_sectors_data_end = Some 140\<rparr>]"

lemma two_areas_parse:
  "parse_table_section ref_externals (encode_table_entries [(True, 64), (False, 96)]) 2 0 0 512 None =
    Ok [chunk_new 0 True 64 32, chunk_new 0 False 96 512]"
  "parse_table_section ref_externals (encode_table_entries [(True, 28)]) 1 100 0 512 (Some 140) =
    Ok [chunk_new 0 True 128 12]"
  using parse_encoded_entries [OF ref_safe_read_laws, of 0 "[(True, 64), (False, 96)]" 0 512 None]
    parse_encoded_entries [OF ref_safe_read_laws, of 100 "[(True, 28)]" 0 512 "Some 140"]
  by (simp_all add: u64_max_def backfill_last_def map_last_def chunk_set_size_new flip: numeral_2_eq_2)

lemma two_areas_load:
  "lazy_load ref_externals 512 (two_sections ! 0) [Mem two_areas] =
    Ok [chunk_new 0 True 64 32, chunk_new 0 False 96 512]"
  "lazy_load ref_externals 512 (two_sections ! 1) [Mem two_areas] = Ok [chunk_new 0 True 128 12]"
  using two_areas_parse
  by (simp_all add: lazy_load_def two_sections_def two_areas_def get_at_def checked_mul_def u64_max_def
      Let_def fill_buf_def mem_read del: read_at.simps)


text \<open>A table entry without an absolute offset is skipped by the parser, so the section holds
  fewer chunks than the index declares for it: the lazy lookup of such a chunk panics, where the
  vector of the same section is empty and answers an error.
\<close>

theorem lazy_lookup_panics_on_skipped_entry:
  "parse_table_section ref_externals [1, 0, 0, 0] 1 u64_max 0 512 None = Ok []
    \<and> fst (lazy_get lru_list_ops ref_externals
        (lazy_new lru_list_ops
          [\<lparr>sm_first_chunk_id = 0, sm_entry_count = 1, sm_entries_file_offset = 0,
            sm_base_offset = u64_max, sm_segment_idx = 0, sm_sectors_data_end = None\<rparr>] 512 8)
        0 [Mem [1, 0, 0, 0]]) = Panic"
proof -
  have e: "entry_at_index ref_externals [1, 0, 0, 0] 0 = 1" by code_simp
  have "located ref_externals [1, 0, 0, 0] u64_max [0] = []"
    by (simp add: located_def e [simplified])
  then have p: "parse_table_section ref_externals [1, 0, 0, 0] 1 u64_max 0 512 None = Ok []"
    by (simp add: parse_table_section_sized upt_rec backfill_last_def)
  then show ?thesis
    by (simp add: lazy_get_def lazy_new_def section_for_def partition_point_def lazy_load_def get_at_def
        checked_mul_def u64_max_def fill_buf_def lru_list_ops_def ll_get_def)
qed

end
