(* ===== verification/Header_Parse.thy ===== *)
theory Header_Parse
  imports Sections
begin

text \<open>
  The reader's public result types (\<open>core/src/types.rs\<close>) and the parsers of the \<open>header\<close>
  and \<open>error2\<close> sections (\<open>core/src/parse.rs\<close>).
\<close>

section \<open>Types\<close>

record StoredHashes =
  sh_md5 :: "bytes option"
  sh_sha1 :: "bytes option"

record VerifyResult =
  vr_computed_md5 :: bytes
  vr_computed_sha1 :: "bytes option"
  vr_md5_match :: "bool option"
  vr_sha1_match :: "bool option"
  vr_addressable_bytes :: nat
  vr_declared_bytes :: nat

definition is_complete :: "VerifyResult \<Rightarrow> bool" where
  "is_complete r \<longleftrightarrow> vr_declared_bytes r \<le> vr_addressable_bytes r"

definition missing_bytes :: "VerifyResult \<Rightarrow> nat" where
  "missing_bytes r = sat_sub (vr_declared_bytes r) (vr_addressable_bytes r)"

record EwfMetadata =
  md_case_number :: "rstr option"
  md_evidence_number :: "rstr option"
  md_description :: "rstr option"
  md_examiner :: "rstr option"
  md_notes :: "rstr option"
  md_acquiry_software :: "rstr option"
  md_os_version :: "rstr option"
  md_acquiry_date :: "rstr option"
  md_system_date :: "rstr option"

definition metadata_default :: EwfMetadata where
  "metadata_default = \<lparr>md_case_number = None, md_evidence_number = None, md_description = None,
     md_examiner = None, md_notes = None, md_acquiry_software = None, md_os_version = None,
     md_acquiry_date = None, md_system_date = None\<rparr>"

record AcquisitionError =
  ae_first_sector :: u32
  ae_sector_count :: u32

section \<open>The header text\<close>

definition set_header_field :: "rstr \<Rightarrow> rstr \<Rightarrow> EwfMetadata \<Rightarrow> EwfMetadata" where
  "set_header_field name val m =
    (if name = lit ''c'' then m\<lparr>md_case_number := Some val\<rparr>
     else if name = lit ''n'' then m\<lparr>md_evidence_number := Some val\<rparr>
     else if name = lit ''a'' then m\<lparr>md_description := Some val\<rparr>
     else if name = lit ''e'' then m\<lparr>md_examiner := Some val\<rparr>
     else if name = lit ''t'' then m\<lparr>md_notes := Some val\<rparr>
     else if name = lit ''av'' then m\<lparr>md_acquiry_software := Some val\<rparr>
     else if name = lit ''ov'' then m\<lparr>md_os_version := Some val\<rparr>
     else if name = lit ''m'' then m\<lparr>md_acquiry_date := Some val\<rparr>
     else if name = lit ''u'' then m\<lparr>md_system_date := Some val\<rparr>
     else m)"

fun header_columns :: "rstr list \<Rightarrow> rstr list \<Rightarrow> EwfMetadata \<Rightarrow> EwfMetadata" where
  "header_columns [] values m = m"
| "header_columns (name # names) values m =
    (let val = (case values of [] \<Rightarrow> [] | v # _ \<Rightarrow> v)
     in header_columns names (tl values) (if val = [] then m else set_header_field name val m))"

definition parse_header_text :: "rstr \<Rightarrow> EwfMetadata \<Rightarrow> EwfMetadata" where
  "parse_header_text text m =
    (let ls = split_on 10 (replace_crlf text)
     in if length ls < 4 then m
        else header_columns (split_on 9 (ls ! 2)) (split_on 9 (ls ! 3)) m)"

section \<open>The error2 section\<close>

fun error2_loop :: "externals \<Rightarrow> bytes \<Rightarrow> nat list \<Rightarrow> AcquisitionError list" where
  "error2_loop X data [] = []"
| "error2_loop X data (i # is) =
    (let off = 8 + i * 8
     in if length data < off + 8 then []
        else \<lparr>ae_first_sector = x_le_u32 X data off, ae_sector_count = x_le_u32 X data (off + 4)\<rparr>
               # error2_loop X data is)"

definition parse_error2_data :: "externals \<Rightarrow> bytes \<Rightarrow> AcquisitionError list" where
  "parse_error2_data X data =
    (if length data < 8 then []
     else let entry_count = unat (x_le_u32 X data 0)
          in if entry_count = 0 then [] else error2_loop X data [0..<entry_count])"

section \<open>Lemmas\<close>

lemma error2_loop_upt:
  "error2_loop X data [a..<b] =
    map (\<lambda>i. \<lparr>ae_first_sector = x_le_u32 X data (8 + i * 8),
              ae_sector_count = x_le_u32 X data (8 + i * 8 + 4)\<rparr>)
        [a..<min b ((length data - 8) div 8)]"
proof (induction "b - a" arbitrary: a)
  case 0
  then show ?case by simp
next
  case (Suc k)
  then have ab: "a < b" by simp
  have upt: "[a..<b] = a # [Suc a..<b]" using ab by (simp add: upt_conv_Cons)
  show ?case
  proof (cases "length data < 8 + a * 8 + 8")
    case True
    then have "(length data - 8) div 8 \<le> a" by auto
    then show ?thesis using True ab by (simp add: upt)
  next
    case False
    then have "a < min b ((length data - 8) div 8)" using ab by auto
    then have "[a..<min b ((length data - 8) div 8)] = a # [Suc a..<min b ((length data - 8) div 8)]"
      by (simp add: upt_conv_Cons)
    moreover have "k = b - Suc a" using Suc by simp
    ultimately show ?thesis using False Suc.hyps(1) [of "Suc a"] by (simp add: upt)
  qed
qed

section \<open>Properties\<close>

text \<open>The error2 section gives the first of its declared pairs of 32-bit fields, as many as the
  section really holds; what the count declares past the data is ignored.
\<close>

theorem error2_reading:
  "parse_error2_data X data =
    (if length data < 8 then []
     else map (\<lambda>i. \<lparr>ae_first_sector = x_le_u32 X data (8 + i * 8),
                    ae_sector_count = x_le_u32 X data (8 + i * 8 + 4)\<rparr>)
            [0..<min (unat (x_le_u32 X data 0)) ((length data - 8) div 8)])"
  by (simp add: parse_error2_data_def error2_loop_upt Let_def)

end
