(* ===== verification/Ewf2_Format.thy ===== *)
theory Ewf2_Format
  imports Header_Parse Segment_Source
begin

text \<open>
  EWF v2 on-disk structures, \<open>core/src/ewf2.rs\<close>, and the parts of \<open>core/src/reader.rs\<close> that
  decode them: the walk over the backward-linked section list, and the UTF-16 tables of the
  device-information and case-data sections.
\<close>

unbundle bit_operations_syntax

definition EVF2_SIGNATURE :: bytes where
  "EVF2_SIGNATURE = [0x45, 0x56, 0x46, 0x32, 0x0d, 0x0a, 0x81, 0x00]"

definition LEF2_SIGNATURE :: bytes where
  "LEF2_SIGNATURE = [0x4c, 0x45, 0x46, 0x32, 0x0d, 0x0a, 0x81, 0x00]"

abbreviation (input) EWF2_FILE_HEADER_SIZE :: nat where "EWF2_FILE_HEADER_SIZE \<equiv> 32"
abbreviation (input) EWF2_SECTION_DESCRIPTOR_SIZE :: nat where "EWF2_SECTION_DESCRIPTOR_SIZE \<equiv> 64"
abbreviation (input) EWF2_TABLE_ENTRY_SIZE :: nat where "EWF2_TABLE_ENTRY_SIZE \<equiv> 16"

section \<open>File header\<close>

datatype CompressionMethod = CompressionNone | CompressionZlib | CompressionBzip2

definition compression_from_u16 :: "u16 \<Rightarrow> CompressionMethod ewf_result" where
  "compression_from_u16 val =
    (if val = 0 then Ok CompressionNone
     else if val = 1 then Ok CompressionZlib
     else if val = 2 then Ok CompressionBzip2
     else Err (Parse (UnknownCompressionMethod (unat val))))"

datatype Ewf2SectionType =
    DeviceInfo | CaseData | SectorData | SectorTable | ErrorTable | SessionTable
  | IncrementData | Md5Hash | Sha1Hash | RestartData | EncryptionKeys | MemoryExtents
  | NextSection | FinalInfo | DoneSection | AnalyticalData | SingleFilesData | Unknown u32

definition section_type_from_u32 :: "u32 \<Rightarrow> Ewf2SectionType" where
  "section_type_from_u32 val =
    (if val = 0x01 then DeviceInfo
     else if val = 0x02 then CaseData
     else if val = 0x03 then SectorData
     else if val = 0x04 then SectorTable
     else if val = 0x05 then ErrorTable
     else if val = 0x06 then SessionTable
     else if val = 0x07 then IncrementData
     else if val = 0x08 then Md5Hash
     else if val = 0x09 then Sha1Hash
     else if val = 0x0A then RestartData
     else if val = 0x0B then EncryptionKeys
     else if val = 0x0C then MemoryExtents
     else if val = 0x0D then NextSection
     else if val = 0x0E then FinalInfo
     else if val = 0x0F then DoneSection
     else if val = 0x10 then AnalyticalData
     else if val = 0x20 then SingleFilesData
     else Unknown val)"

fun section_type_name :: "Ewf2SectionType \<Rightarrow> rstr" where
  "section_type_name DeviceInfo = lit ''device_info''"
| "section_type_name CaseData = lit ''case_data''"
| "section_type_name SectorData = lit ''sector_data''"
| "section_type_name SectorTable = lit ''sector_table''"
| "section_type_name ErrorTable = lit ''error_table''"
| "section_type_name SessionTable = lit ''session_table''"
| "section_type_name IncrementData = lit ''increment_data''"
| "section_type_name Md5Hash = lit ''md5_hash''"
| "section_type_name Sha1Hash = lit ''sha1_hash''"
| "section_type_name RestartData = lit ''restart_data''"
| "section_type_name EncryptionKeys = lit ''encryption_keys''"
| "section_type_name MemoryExtents = lit ''memory_extents''"
| "section_type_name NextSection = lit ''next''"
| "section_type_name FinalInfo = lit ''final_info''"
| "section_type_name DoneSection = lit ''done''"
| "section_type_name AnalyticalData = lit ''analytical_data''"
| "section_type_name SingleFilesData = lit ''single_files_data''"
| "section_type_name (Unknown v) = lit ''unknown''"

record Ewf2FileHeader =
  fh2_is_physical :: bool
  fh2_major_version :: u8
  fh2_minor_version :: u8
  fh2_compression_method :: CompressionMethod
  fh2_segment_number :: u32
  fh2_set_identifier :: bytes

definition ewf2_file_header_parse :: "externals \<Rightarrow> bytes \<Rightarrow> Ewf2FileHeader ewf_result" where
  "ewf2_file_header_parse X buf =
    (if length buf < EWF2_FILE_HEADER_SIZE
     then Err (BufferTooShort EWF2_FILE_HEADER_SIZE (length buf))
     else
       let sig = slice 0 8 buf
       in if sig \<noteq> EVF2_SIGNATURE \<and> sig \<noteq> LEF2_SIGNATURE then Err (InvalidSignature sig)
          else and_then (compression_from_u16 (u16_from_le [buf ! 10, buf ! 11])) (\<lambda>cm.
            Ok \<lparr>fh2_is_physical = (sig = EVF2_SIGNATURE),
                fh2_major_version = buf ! 8,
                fh2_minor_version = buf ! 9,
                fh2_compression_method = cm,
                fh2_segment_number = x_le_u32 X buf 12,
                fh2_set_identifier = slice 16 32 buf\<rparr>))"

section \<open>Section descriptor\<close>

record Ewf2SectionDescriptor =
  d2_section_type :: Ewf2SectionType
  d2_data_flags :: u32
  d2_previous_offset :: u64
  d2_data_size :: u64
  d2_descriptor_size :: u32
  d2_padding_size :: u32
  d2_data_integrity_hash :: bytes
  d2_offset :: nat

definition ewf2_descriptor_parse ::
  "externals \<Rightarrow> bytes \<Rightarrow> nat \<Rightarrow> Ewf2SectionDescriptor ewf_result" where
  "ewf2_descriptor_parse X buf offset =
    (if length buf < EWF2_SECTION_DESCRIPTOR_SIZE
     then Err (BufferTooShort EWF2_SECTION_DESCRIPTOR_SIZE (length buf))
     else Ok \<lparr>d2_section_type = section_type_from_u32 (x_le_u32 X buf 0),
              d2_data_flags = x_le_u32 X buf 4,
              d2_previous_offset = x_le_u64 X buf 8,
              d2_data_size = x_le_u64 X buf 16,
              d2_descriptor_size = x_le_u32 X buf 24,
              d2_padding_size = x_le_u32 X buf 28,
              d2_data_integrity_hash = slice 32 48 buf,
              d2_offset = offset\<rparr>)"

definition is_md5_hashed :: "Ewf2SectionDescriptor \<Rightarrow> bool" where
  "is_md5_hashed d \<longleftrightarrow> d2_data_flags d AND 0x00000001 \<noteq> 0"

definition is_encrypted :: "Ewf2SectionDescriptor \<Rightarrow> bool" where
  "is_encrypted d \<longleftrightarrow> d2_data_flags d AND 0x00000002 \<noteq> 0"

section \<open>Chunk table\<close>

record Ewf2TableEntry =
  te2_chunk_data_offset :: u64
  te2_chunk_data_size :: u32
  te2_flags :: u32

definition ewf2_table_entry_parse :: "externals \<Rightarrow> bytes \<Rightarrow> Ewf2TableEntry ewf_result" where
  "ewf2_table_entry_parse X buf =
    (if length buf < EWF2_TABLE_ENTRY_SIZE
     then Err (BufferTooShort EWF2_TABLE_ENTRY_SIZE (length buf))
     else Ok \<lparr>te2_chunk_data_offset = x_le_u64 X buf 0,
              te2_chunk_data_size = x_le_u32 X buf 8,
              te2_flags = x_le_u32 X buf 12\<rparr>)"

definition te2_is_compressed :: "Ewf2TableEntry \<Rightarrow> bool" where
  "te2_is_compressed e \<longleftrightarrow> te2_flags e AND 0x00000001 \<noteq> 0"

definition te2_is_checksumed :: "Ewf2TableEntry \<Rightarrow> bool" where
  "te2_is_checksumed e \<longleftrightarrow> te2_flags e AND 0x00000002 \<noteq> 0"

definition te2_is_pattern_fill :: "Ewf2TableEntry \<Rightarrow> bool" where
  "te2_is_pattern_fill e \<longleftrightarrow>
    te2_flags e AND (0x00000001 OR 0x00000004) = 0x00000001 OR 0x00000004"

record Ewf2TableHeader =
  th2_first_chunk :: u64
  th2_entry_count :: u32

definition ewf2_table_header_parse :: "externals \<Rightarrow> bytes \<Rightarrow> Ewf2TableHeader ewf_result" where
  "ewf2_table_header_parse X buf =
    (if length buf < 32 then Err (BufferTooShort 32 (length buf))
     else Ok \<lparr>th2_first_chunk = x_le_u64 X buf 0, th2_entry_count = x_le_u32 X buf 8\<rparr>)"

section \<open>The backward walk\<close>

text \<open>
  The loop of \<open>collect_ewf2_descriptors\<close> over a file, from the descriptor at \<open>desc_offset\<close>;
  \<open>visited\<close> holds the offsets already seen and \<open>acc\<close> the descriptors in the order they were
  pushed. It stops because every further offset lies in the file and is new.
\<close>

function ewf2_walk ::
  "externals \<Rightarrow> bytes \<Rightarrow> nat \<Rightarrow> nat list \<Rightarrow> Ewf2SectionDescriptor list
    \<Rightarrow> Ewf2SectionDescriptor list ewf_result" where
  "ewf2_walk X f desc_offset visited acc =
    (if desc_offset \<in> set visited then Err (Parse Ewf2Cycle)
     else and_then (read_exact (File f) EWF2_SECTION_DESCRIPTOR_SIZE desc_offset) (\<lambda>buf.
          and_then (ewf2_descriptor_parse X buf desc_offset) (\<lambda>desc.
            let prev = unat (d2_previous_offset desc)
            in if prev = 0 then Ok (acc @ [desc])
               else if length f \<le> prev then Err (Parse (Ewf2PreviousOffset prev (length f)))
               else ewf2_walk X f prev (desc_offset # visited) (acc @ [desc]))))"
  by pat_completeness auto
termination
proof (relation "measure (\<lambda>(X, f, off, visited, acc).
    2 * card ({..<length f} - set visited) + (if off < length f then 0 else 1))", goal_cases)
  case 1
  show ?case by simp
next
  case (2 X f off visited acc buf desc prev)
  show ?case
  proof (cases "off < length f")
    case True
    have "{..<length f} - set (off # visited) \<subset> {..<length f} - set visited"
      using 2 True by auto
    then have "card ({..<length f} - set (off # visited)) < card ({..<length f} - set visited)"
      by (intro psubset_card_mono) auto
    then show ?thesis using 2 True by simp
  next
    case False
    have "card ({..<length f} - set (off # visited)) \<le> card ({..<length f} - set visited)"
      by (intro card_mono) auto
    then show ?thesis using 2 False by simp
  qed
qed

declare ewf2_walk.simps [simp del]

definition collect_ewf2_descriptors ::
  "externals \<Rightarrow> bytes \<Rightarrow> Ewf2SectionDescriptor list ewf_result" where
  "collect_ewf2_descriptors X f =
    (if length f < EWF2_SECTION_DESCRIPTOR_SIZE then Ok []
     else map_ok rev (ewf2_walk X f (length f - EWF2_SECTION_DESCRIPTOR_SIZE) [] []))"

section \<open>Tables in UTF-16 text\<close>

definition MAX_SECTION_DATA_SIZE :: nat where
  "MAX_SECTION_DATA_SIZE = 1000000"

definition MAX_DECOMPRESSED_SIZE :: nat where
  "MAX_DECOMPRESSED_SIZE = 10 * MAX_SECTION_DATA_SIZE"

definition maybe_zlib_decompress :: "externals \<Rightarrow> bytes \<Rightarrow> bytes ewf_result" where
  "maybe_zlib_decompress X raw =
    (if 2 \<le> length raw \<and> raw ! 0 = 0x78
     then ok_or (Parse Ewf2ZlibFailed) (x_zlib_read_to_end X raw (Some MAX_DECOMPRESSED_SIZE))
     else Ok raw)"

definition utf16_text :: "bytes \<Rightarrow> rstr" where
  "utf16_text raw = List.map_filter id (decode_utf16 (utf16_units raw))"

text \<open>The geometry fields with their defaults, updated column by column.\<close>

record device_fields =
  df_bytes_per_sector :: nat
  df_sectors_per_chunk :: nat
  df_total_sectors :: nat

definition set_device_field :: "rstr \<Rightarrow> rstr \<Rightarrow> device_fields \<Rightarrow> device_fields" where
  "set_device_field name val d =
    (case parse_u64 val of
       None \<Rightarrow> d
     | Some v \<Rightarrow>
         if name = lit ''b'' then d\<lparr>df_bytes_per_sector := v\<rparr>
         else if name = lit ''sc'' then d\<lparr>df_sectors_per_chunk := v\<rparr>
         else if name = lit ''ts'' then d\<lparr>df_total_sectors := v\<rparr>
         else d)"

definition device_columns :: "rstr list \<Rightarrow> rstr list \<Rightarrow> device_fields" where
  "device_columns names values =
    fold (\<lambda>(name, val). set_device_field name val) (zip names values)
      \<lparr>df_bytes_per_sector = 512, df_sectors_per_chunk = 64, df_total_sectors = 0\<rparr>"

text \<open>\<open>(chunk_size, total_size)\<close> before and after; both products are plain multiplications.\<close>

definition parse_ewf2_device_info :: "bytes \<Rightarrow> nat \<times> nat \<Rightarrow> (nat \<times> nat) ewf_result" where
  "parse_ewf2_device_info raw sizes =
    (if length raw < 2 then Ok sizes
     else
       let ls = lines (utf16_text raw)
       in if length ls < 4 then Ok sizes
          else
            let d = device_columns (split_on 9 (ls ! 2)) (split_on 9 (ls ! 3))
            in and_then (plain_mul (df_bytes_per_sector d) (df_sectors_per_chunk d)) (\<lambda>cs.
               let chunk_size = (if 0 < cs then cs else fst sizes)
               in if 0 < df_total_sectors d \<and> 0 < df_bytes_per_sector d
                  then map_ok (\<lambda>ts. (chunk_size, ts))
                         (plain_mul (df_bytes_per_sector d) (df_total_sectors d))
                  else Ok (chunk_size, snd sizes)))"

definition set_case_field :: "rstr \<Rightarrow> rstr \<Rightarrow> EwfMetadata \<Rightarrow> EwfMetadata" where
  "set_case_field name val m =
    (if val = [] then m
     else if name = lit ''cn'' then m\<lparr>md_case_number := Some val\<rparr>
     else if name = lit ''en'' then m\<lparr>md_evidence_number := Some val\<rparr>
     else if name = lit ''ex'' then m\<lparr>md_examiner := Some val\<rparr>
     else if name = lit ''de'' then m\<lparr>md_description := Some val\<rparr>
     else if name = lit ''nt'' then m\<lparr>md_notes := Some val\<rparr>
     else if name = lit ''av'' then m\<lparr>md_acquiry_software := Some val\<rparr>
     else if name = lit ''ov'' then m\<lparr>md_os_version := Some val\<rparr>
     else if name = lit ''ad'' then m\<lparr>md_acquiry_date := Some val\<rparr>
     else if name = lit ''sd'' then m\<lparr>md_system_date := Some val\<rparr>
     else m)"

definition parse_ewf2_case_data :: "bytes \<Rightarrow> EwfMetadata \<Rightarrow> EwfMetadata" where
  "parse_ewf2_case_data raw m =
    (if length raw < 2 then m
     else
       let ls = lines (utf16_text raw)
       in if length ls < 4 then m
          else fold (\<lambda>(name, val). set_case_field name val)
                 (zip (split_on 9 (ls ! 2)) (split_on 9 (ls ! 3))) m)"

section \<open>What the walk returns\<close>

text \<open>A list of descriptors linked as the walk pushed them: each names the next as its predecessor.\<close>

fun backward_linked :: "Ewf2SectionDescriptor list \<Rightarrow> bool" where
  "backward_linked [] \<longleftrightarrow> True"
| "backward_linked [d] \<longleftrightarrow> d2_previous_offset d = 0"
| "backward_linked (d # e # ds) \<longleftrightarrow>
    unat (d2_previous_offset d) = d2_offset e \<and> d2_offset e \<noteq> 0 \<and> backward_linked (e # ds)"

lemma ewf2_descriptor_offset: "ewf2_descriptor_parse X buf off = Ok d \<Longrightarrow> d2_offset d = off"
  by (auto simp: ewf2_descriptor_parse_def split: if_splits)

lemma ewf2_descriptor_parse_no_panic [simp]: "ewf2_descriptor_parse X buf off \<noteq> Panic"
  by (simp add: ewf2_descriptor_parse_def)

lemma ewf2_walk_Ok:
  assumes "ewf2_walk X f off visited acc = Ok ds"
  shows "\<exists>d rest. ds = acc @ d # rest \<and> d2_offset d = off \<and> backward_linked (d # rest)
    \<and> distinct (map d2_offset (d # rest)) \<and> set (map d2_offset (d # rest)) \<inter> set visited = {}
    \<and> (\<forall>e \<in> set (d # rest). d2_offset e + 64 \<le> length f
         \<and> ewf2_descriptor_parse X (slice (d2_offset e) (d2_offset e + 64) f) (d2_offset e) = Ok e)"
  using assms
proof (induction X f off visited acc rule: ewf2_walk.induct)
  case (1 X f off visited acc)
  from "1.prems" obtain buf desc where new: "off \<notin> set visited"
    and buf: "read_exact (File f) EWF2_SECTION_DESCRIPTOR_SIZE off = Ok buf"
    and desc: "ewf2_descriptor_parse X buf off = Ok desc"
    and res: "(let prev = unat (d2_previous_offset desc)
       in if prev = 0 then Ok (acc @ [desc])
          else if length f \<le> prev then Err (Parse (Ewf2PreviousOffset prev (length f)))
          else ewf2_walk X f prev (off # visited) (acc @ [desc])) = Ok ds"
    by (auto simp: ewf2_walk.simps [of X f off] split: if_splits)
  have at: "d2_offset desc = off" using desc by (rule ewf2_descriptor_offset)
  have bufs: "off + 64 \<le> length f" "buf = slice off (off + 64) f"
    using buf by (simp_all add: file_source.read_exact_content split: if_splits)
  show ?case
  proof (cases "unat (d2_previous_offset desc) = 0")
    case True
    with res have "ds = acc @ [desc]" by simp
    moreover from True have "d2_previous_offset desc = 0" by (simp add: unat_eq_zero)
    ultimately show ?thesis using at new desc bufs by auto
  next
    case False
    with res have "\<not> length f \<le> unat (d2_previous_offset desc)"
      and "ewf2_walk X f (unat (d2_previous_offset desc)) (off # visited) (acc @ [desc]) = Ok ds"
      by (auto simp: Let_def split: if_splits)
    with "1.IH" [OF new refl False] obtain d rest
      where ih: "ds = (acc @ [desc]) @ d # rest" "d2_offset d = unat (d2_previous_offset desc)"
      "backward_linked (d # rest)" "distinct (map d2_offset (d # rest))"
      "set (map d2_offset (d # rest)) \<inter> set (off # visited) = {}"
      "\<forall>e \<in> set (d # rest). d2_offset e + 64 \<le> length f
         \<and> ewf2_descriptor_parse X (slice (d2_offset e) (d2_offset e + 64) f) (d2_offset e) = Ok e"
      by blast
    then have "ds = acc @ desc # (d # rest) \<and> backward_linked (desc # d # rest)
        \<and> distinct (map d2_offset (desc # d # rest))
        \<and> set (map d2_offset (desc # d # rest)) \<inter> set visited = {}"
      using False at new by auto
    with ih at desc bufs show ?thesis by auto
  qed
qed

section \<open>Properties\<close>

lemma ewf2_walk_no_panic [simp]: "ewf2_walk X f off visited acc \<noteq> Panic"
proof (induction X f off visited acc rule: ewf2_walk.induct)
  case (1 X f off visited acc)
  show ?case
  proof (cases "read_exact (File f) 64 off")
    case (Ok buf)
    then show ?thesis
      using 1 by (cases "ewf2_descriptor_parse X buf off") (auto simp: ewf2_walk.simps [of X f off] Let_def)
  qed (auto simp: ewf2_walk.simps [of X f off] file_source.read_exact_content split: if_splits)
qed

text \<open>C15: the backward walk over an EWF2 segment ends on every file, cyclic chains included, with an
  error or with the descriptors in file order from the first to the one at the end of the file:
  each names the one before it, no offset repeats, and each was parsed at its own offset inside
  the file.
\<close>

theorem ewf2_descriptors_linked:
  "case collect_ewf2_descriptors X f of
     Panic \<Rightarrow> False
   | Err e \<Rightarrow> 64 \<le> length f
   | Ok ds \<Rightarrow>
       if length f < 64 then ds = []
       else ds \<noteq> [] \<and> d2_offset (last ds) = length f - 64
         \<and> backward_linked (rev ds) \<and> distinct (map d2_offset ds)
         \<and> list_all (\<lambda>d. d2_offset d + 64 \<le> length f \<and>
             ewf2_descriptor_parse X (slice (d2_offset d) (d2_offset d + 64) f) (d2_offset d) = Ok d) ds"
proof (cases "length f < 64")
  case False
  show ?thesis
  proof (cases "ewf2_walk X f (length f - 64) [] []")
    case (Ok ds)
    obtain d rest where ds: "ds = d # rest" "d2_offset d = length f - 64" "backward_linked (d # rest)"
      "distinct (map d2_offset (d # rest))"
      "\<forall>e \<in> set (d # rest). d2_offset e + 64 \<le> length f
         \<and> ewf2_descriptor_parse X (slice (d2_offset e) (d2_offset e + 64) f) (d2_offset e) = Ok e"
      using ewf2_walk_Ok [OF Ok] by auto
    then show ?thesis
      using Ok False by (simp add: collect_ewf2_descriptors_def list_all_iff flip: rev_map)
  qed (use False in \<open>simp_all add: collect_ewf2_descriptors_def\<close>)
qed (simp add: collect_ewf2_descriptors_def)

end
