(* ===== verification/Reader_Open.thy ===== *)
theory Reader_Open
  imports Chunk_Table Ewf2_Format
begin

text \<open>
  Opening an image, the constructors of \<open>EwfReader\<close> in \<open>core/src/reader.rs\<close>: segment
  ordering, the descriptor walk of EWF v1, the handler of every section kind, the eager and
  the lazy chunk table, and the EWF v2 open. A path is an abstract value and \<open>FS\<close> gives the
  bytes of the file behind it, or the error of \<open>File::open\<close>.
\<close>

section \<open>Limits\<close>

definition MAX_TABLE_ENTRIES :: nat where
  "MAX_TABLE_ENTRIES = 4000000"

definition MAX_CHUNK_SIZE :: nat where
  "MAX_CHUNK_SIZE = 128 * 1024 * 1024"

definition DEFAULT_V2_CHUNK_SIZE :: nat where
  "DEFAULT_V2_CHUNK_SIZE = 32768"

section \<open>Segment order\<close>

fun check_sequence :: "nat \<Rightarrow> (nat \<times> nat) list \<Rightarrow> unit ewf_result" where
  "check_sequence pos [] = Ok ()"
| "check_sequence pos ((idx, seg) # rest) =
    (let expected = (pos + 1) mod 2 ^ 32
     in if seg \<noteq> expected then Err (SegmentGap expected seg) else check_sequence (pos + 1) rest)"

fun take_slots :: "(nat \<times> nat) list \<Rightarrow> 'a option list \<Rightarrow> 'a list \<Rightarrow> 'a list ewf_result" where
  "take_slots [] slots ordered = Ok ordered"
| "take_slots ((idx, seg) # rest) slots ordered =
    (case get_at slots idx of
       None \<Rightarrow> Panic
     | Some None \<Rightarrow> take_slots rest slots ordered
     | Some (Some s) \<Rightarrow> take_slots rest (slots[idx := None]) (ordered @ [s]))"

definition validate_and_reorder_segments :: "'a list \<Rightarrow> nat list \<Rightarrow> 'a list ewf_result" where
  "validate_and_reorder_segments segments segment_numbers =
    (let indexed = sort_key snd (zip [0..<length segment_numbers] segment_numbers)
     in and_then (check_sequence 0 indexed) (\<lambda>_. take_slots indexed (map Some segments) []))"

section \<open>The reader\<close>

text \<open>
  \<open>'s\<close> is the state of the section cache inside a lazy chunk table, \<open>'p\<close> that of the cache
  of decompressed chunks.
\<close>

record ('s, 'p) EwfReader =
  rd_segments :: "SegmentSource list"
  rd_chunks :: "'s ChunkTable"
  rd_chunk_size :: nat
  rd_total_size :: nat
  rd_position :: nat
  rd_cache :: 'p
  rd_stored_md5 :: "bytes option"
  rd_stored_sha1 :: "bytes option"
  rd_metadata :: EwfMetadata
  rd_acquisition_errors :: "AcquisitionError list"

definition media_size_for :: "EwfKind \<Rightarrow> nat \<Rightarrow> nat \<Rightarrow> nat \<Rightarrow> nat" where
  "media_size_for kind declared chunks chunk_size =
    (let from_chunks = sat_mul chunks chunk_size
     in case kind of
          Logical \<Rightarrow> from_chunks
        | Physical \<Rightarrow> if declared = 0 then from_chunks else declared)"

section \<open>EWF v1: the descriptor walk\<close>

text \<open>The chain only ever moves forward, so it ends.\<close>

function walk_v1 ::
  "externals \<Rightarrow> SegmentSource \<Rightarrow> nat \<Rightarrow> nat \<Rightarrow> SectionDescriptor list
    \<Rightarrow> SectionDescriptor list ewf_result" where
  "walk_v1 X src file_len desc_offset descriptors =
    (case checked_add desc_offset SECTION_DESCRIPTOR_SIZE of
       None \<Rightarrow> Ok descriptors
     | Some chain_end \<Rightarrow>
         if file_len < chain_end then Ok descriptors
         else and_then (seek_read_exact src desc_offset SECTION_DESCRIPTOR_SIZE) (\<lambda>desc_buf.
              and_then (descriptor_parse X desc_buf desc_offset) (\<lambda>desc.
                let nxt = unat (sd_next desc)
                in if nxt = 0 \<or> nxt \<le> desc_offset then Ok (descriptors @ [desc])
                   else walk_v1 X src file_len nxt (descriptors @ [desc]))))"
  by pat_completeness auto
termination
  by (relation "measure (\<lambda>(X, src, file_len, off, ds). file_len - off)") auto

declare walk_v1.simps [simp del]

definition walk_segment :: "externals \<Rightarrow> SegmentSource \<Rightarrow> SectionDescriptor list ewf_result" where
  "walk_segment X src =
    and_then (seek_target (SeekEnd 0) (segment_len src) 0) (\<lambda>file_len.
      walk_v1 X src file_len FILE_HEADER_SIZE [])"

section \<open>EWF v1: the section handlers\<close>

text \<open>The local variables of \<open>open_v1\<close> that the sections update.\<close>

record open_state =
  os_chunk_size :: nat
  os_total_size :: nat
  os_chunks :: "Chunk list"
  os_index :: "SectionMeta list"
  os_next_chunk_id :: nat
  os_stored_md5 :: "bytes option"
  os_stored_sha1 :: "bytes option"
  os_metadata :: EwfMetadata
  os_acquisition_errors :: "AcquisitionError list"

definition open_state_init :: open_state where
  "open_state_init = \<lparr>os_chunk_size = 0, os_total_size = 0, os_chunks = [], os_index = [],
     os_next_chunk_id = 0, os_stored_md5 = None, os_stored_sha1 = None,
     os_metadata = metadata_default, os_acquisition_errors = []\<rparr>"

text \<open>Seek to the data of a section, \<open>desc.offset + 76\<close>, and read exactly \<open>n\<close> bytes of it.\<close>

definition section_data :: "SegmentSource \<Rightarrow> SectionDescriptor \<Rightarrow> nat \<Rightarrow> bytes ewf_result" where
  "section_data src desc n =
    and_then (plain_add (sd_offset desc) SECTION_DESCRIPTOR_SIZE) (\<lambda>off. seek_read_exact src off n)"

definition handle_volume ::
  "externals \<Rightarrow> SegmentSource \<Rightarrow> SectionDescriptor \<Rightarrow> open_state \<Rightarrow> open_state ewf_result" where
  "handle_volume X src desc st =
    and_then (section_data src desc 94) (\<lambda>vol_buf.
    and_then (volume_parse X vol_buf) (\<lambda>vol.
      let cs = volume_chunk_size vol
      in if MAX_CHUNK_SIZE < cs then Err (InvalidChunkSize (of_nat (min cs (2 ^ 32 - 1))))
         else and_then (if volume_total_size vol = 0 then plain_mul cs (unat (vol_chunk_count vol))
                        else Ok (volume_total_size vol)) (\<lambda>total.
           Ok (st\<lparr>os_chunk_size := cs, os_total_size := total\<rparr>))))"

definition handle_table_eager ::
  "externals \<Rightarrow> SegmentSource \<Rightarrow> nat \<Rightarrow> nat option \<Rightarrow> SectionDescriptor \<Rightarrow> open_state
    \<Rightarrow> open_state ewf_result" where
  "handle_table_eager X src seg_idx sectors_data_end desc st =
    and_then (section_data src desc 24) (\<lambda>tbl_hdr.
      let entry_count = unat (x_le_u32 X tbl_hdr 0)
      in if MAX_TABLE_ENTRIES < entry_count
         then Err (Parse (TableEntryCountTooLarge entry_count MAX_TABLE_ENTRIES))
         else
           let base_offset = unat (x_le_u64 X tbl_hdr 8)
           in and_then (plain_add (sd_offset desc) SECTION_DESCRIPTOR_SIZE) (\<lambda>o1.
              and_then (plain_add o1 24) (\<lambda>entries_offset.
              and_then (seek_read_exact src entries_offset (entry_count * 4)) (\<lambda>entries_buf.
              and_then (parse_table_section X entries_buf entry_count base_offset seg_idx
                          (os_chunk_size st) sectors_data_end) (\<lambda>sect.
                Ok (st\<lparr>os_chunks := os_chunks st @ sect\<rparr>))))))"

definition handle_table_lazy ::
  "SegmentSource \<Rightarrow> nat \<Rightarrow> nat option \<Rightarrow> SectionDescriptor \<Rightarrow> open_state
    \<Rightarrow> open_state ewf_result" where
  "handle_table_lazy src seg_idx sectors_data_end desc st =
    and_then (read_header \<lparr>tr_desc_offset = sd_offset desc, tr_sectors_data_end = sectors_data_end\<rparr>
                src seg_idx (os_next_chunk_id st) MAX_TABLE_ENTRIES) (\<lambda>m.
    and_then (plain_add (os_next_chunk_id st) (sm_entry_count m)) (\<lambda>nid.
      Ok (st\<lparr>os_next_chunk_id := nid, os_index := os_index st @ [m]\<rparr>)))"

definition handle_hash ::
  "SegmentSource \<Rightarrow> SectionDescriptor \<Rightarrow> open_state \<Rightarrow> open_state ewf_result" where
  "handle_hash src desc st =
    and_then (section_data src desc 16) (\<lambda>hash_buf.
      Ok (if os_stored_md5 st = None then st\<lparr>os_stored_md5 := Some hash_buf\<rparr> else st))"

text \<open>\<open>(d != [0; n]).then_some(d)\<close>: an all-zero digest is an absent one.\<close>

definition nonzero_digest :: "nat \<Rightarrow> bytes \<Rightarrow> bytes option" where
  "nonzero_digest n d = (if d \<noteq> replicate n 0 then Some d else None)"

definition handle_digest ::
  "SegmentSource \<Rightarrow> SectionDescriptor \<Rightarrow> open_state \<Rightarrow> open_state ewf_result" where
  "handle_digest src desc st =
    and_then (section_data src desc 36) (\<lambda>digest_buf.
      Ok (st\<lparr>os_stored_md5 := nonzero_digest 16 (slice 0 16 digest_buf),
             os_stored_sha1 := nonzero_digest 20 (slice 16 36 digest_buf)\<rparr>))"

definition handle_header ::
  "externals \<Rightarrow> SegmentSource \<Rightarrow> SectionDescriptor \<Rightarrow> open_state \<Rightarrow> open_state ewf_result" where
  "handle_header X src desc st =
    (let data_size = sat_sub (unat (sd_size desc)) SECTION_DESCRIPTOR_SIZE
     in and_then (plain_add (sd_offset desc) SECTION_DESCRIPTOR_SIZE) (\<lambda>data_offset.
        if 0 < data_size \<and> data_size < MAX_SECTION_DATA_SIZE
        then and_then (seek_read_exact src data_offset data_size) (\<lambda>compressed.
          Ok (case x_zlib_read_to_end X compressed (Some MAX_DECOMPRESSED_SIZE) of
                None \<Rightarrow> st
              | Some decompressed \<Rightarrow>
                  st\<lparr>os_metadata :=
                       parse_header_text (from_utf8_lossy decompressed) (os_metadata st)\<rparr>))
        else Ok st))"

definition handle_error2 ::
  "externals \<Rightarrow> SegmentSource \<Rightarrow> SectionDescriptor \<Rightarrow> open_state \<Rightarrow> open_state ewf_result" where
  "handle_error2 X src desc st =
    (let data_size = sat_sub (unat (sd_size desc)) SECTION_DESCRIPTOR_SIZE
     in and_then (plain_add (sd_offset desc) SECTION_DESCRIPTOR_SIZE) (\<lambda>data_offset.
        if 0 < data_size \<and> data_size < MAX_SECTION_DATA_SIZE
        then and_then (seek_read_exact src data_offset data_size) (\<lambda>buf.
          Ok (st\<lparr>os_acquisition_errors := parse_error2_data X buf\<rparr>))
        else Ok st))"

text \<open>The match on the section type, its arms in order.\<close>

definition handle_section ::
  "bool \<Rightarrow> externals \<Rightarrow> SegmentSource \<Rightarrow> nat \<Rightarrow> rstr \<Rightarrow> nat option \<Rightarrow> SectionDescriptor \<Rightarrow> open_state
    \<Rightarrow> open_state ewf_result" where
  "handle_section lazy X src seg_idx table_type sectors_data_end desc st =
    (let t = sd_type desc
     in if t = lit ''volume'' \<or> t = lit ''disk'' then handle_volume X src desc st
        else if t = table_type then
          (if lazy then handle_table_lazy src seg_idx sectors_data_end desc st
           else handle_table_eager X src seg_idx sectors_data_end desc st)
        else if t = lit ''hash'' then handle_hash src desc st
        else if t = lit ''digest'' then handle_digest src desc st
        else if t = lit ''header'' \<and> md_case_number (os_metadata st) = None
                \<and> md_os_version (os_metadata st) = None
        then handle_header X src desc st
        else if t = lit ''error2'' then handle_error2 X src desc st
        else Ok st)"

fun fold_result :: "('a \<Rightarrow> 's \<Rightarrow> ('e, 's) result) \<Rightarrow> 'a list \<Rightarrow> 's \<Rightarrow> ('e, 's) result" where
  "fold_result f [] s = Ok s"
| "fold_result f (x # xs) s = and_then (f x s) (fold_result f xs)"

definition table_type_of :: "SectionDescriptor list \<Rightarrow> rstr" where
  "table_type_of descriptors =
    (if \<exists>d \<in> set descriptors. sd_type d = lit ''table'' then lit ''table'' else lit ''table2'')"

definition sectors_end_of :: "SectionDescriptor list \<Rightarrow> nat option" where
  "sectors_end_of descriptors =
    map_option (\<lambda>d. sat_add (sd_offset d) (unat (sd_size d)))
      (find (\<lambda>d. sd_type d = lit ''sectors'') descriptors)"

definition open_segment_v1 ::
  "bool \<Rightarrow> externals \<Rightarrow> nat \<times> SegmentSource \<Rightarrow> open_state \<Rightarrow> open_state ewf_result" where
  "open_segment_v1 lazy X seg st =
    (let (seg_idx, src) = seg
     in and_then (walk_segment X src) (\<lambda>ds.
          fold_result (handle_section lazy X src seg_idx (table_type_of ds) (sectors_end_of ds)) ds st))"

section \<open>EWF v1: open\<close>

definition read_file_headers :: "SegmentSource list \<Rightarrow> EwfFileHeader list ewf_result" where
  "read_file_headers sources =
    collect (map (\<lambda>src. and_then (read_at src FILE_HEADER_SIZE 0)
                          (\<lambda>bs. file_header_parse (fill_buf FILE_HEADER_SIZE bs))) sources)"

definition open_v1 ::
  "('s, Chunk list) lru \<Rightarrow> ('p, bytes) lru \<Rightarrow> externals \<Rightarrow> SegmentSource list \<Rightarrow> nat \<Rightarrow> nat option
    \<Rightarrow> ('s, 'p) EwfReader ewf_result" where
  "open_v1 LS LP X sources cache_size lazy_section_cache =
    (if sources = [] then Err (NoSegments (lit ''empty source list''))
     else
       and_then (read_at (hd sources) 8 0) (\<lambda>bs.
       let sig = fill_buf 8 bs
       in if sig = EVF2_SIGNATURE \<or> sig = LEF2_SIGNATURE then Err (Parse Ewf2ViaSegmentSource)
          else
            and_then (read_file_headers sources) (\<lambda>headers.
            and_then (validate_and_reorder_segments sources
                        (map (unat \<circ> fh_segment_number) headers)) (\<lambda>ordered.
            and_then (fold_result (open_segment_v1 (lazy_section_cache \<noteq> None) X)
                        (zip [0..<length ordered] ordered) open_state_init) (\<lambda>st.
              if os_chunk_size st = 0 then Err MissingVolume
              else
                let chunks = (case lazy_section_cache of
                                Some section_cache \<Rightarrow>
                                  Lazy (lazy_new LS (os_index st) (os_chunk_size st) section_cache)
                              | None \<Rightarrow> Eager (os_chunks st));
                    kind = (case headers of [] \<Rightarrow> Physical | h # _ \<Rightarrow> fh_kind h)
                in Ok \<lparr>rd_segments = ordered,
                       rd_chunks = chunks,
                       rd_chunk_size = os_chunk_size st,
                       rd_total_size = media_size_for kind (os_total_size st) (table_len chunks)
                                         (os_chunk_size st),
                       rd_position = 0,
                       rd_cache = lru_new LP (max cache_size 1),
                       rd_stored_md5 = os_stored_md5 st,
                       rd_stored_sha1 = os_stored_sha1 st,
                       rd_metadata = os_metadata st,
                       rd_acquisition_errors = os_acquisition_errors st\<rparr>)))))"

definition open_from_sources ::
  "('s, Chunk list) lru \<Rightarrow> ('p, bytes) lru \<Rightarrow> externals \<Rightarrow> SegmentSource list
    \<Rightarrow> ('s, 'p) EwfReader ewf_result" where
  "open_from_sources LS LP X sources = open_v1 LS LP X sources DEFAULT_LRU_SIZE None"

definition open_lazy_from_sources ::
  "('s, Chunk list) lru \<Rightarrow> ('p, bytes) lru \<Rightarrow> externals \<Rightarrow> SegmentSource list
    \<Rightarrow> ('s, 'p) EwfReader ewf_result" where
  "open_lazy_from_sources LS LP X sources =
    open_v1 LS LP X sources DEFAULT_LRU_SIZE (Some DEFAULT_SECTION_CACHE)"

section \<open>EWF v2: the section handlers\<close>

text \<open>The local variables of \<open>open_segments_v2\<close>.\<close>

record open2_state =
  o2_chunk_size :: nat
  o2_total_size :: nat
  o2_chunks :: "Chunk list"
  o2_stored_md5 :: "bytes option"
  o2_stored_sha1 :: "bytes option"
  o2_metadata :: EwfMetadata

definition open2_state_init :: open2_state where
  "open2_state_init = \<lparr>o2_chunk_size = 0, o2_total_size = 0, o2_chunks = [],
     o2_stored_md5 = None, o2_stored_sha1 = None, o2_metadata = metadata_default\<rparr>"

text \<open>
  The data of a section lies just before its descriptor. The handlers read from a \<open>File\<close>,
  whose \<open>seek\<close> has no sign conversion.
\<close>

definition data_offset_v2 :: "rstr \<Rightarrow> Ewf2SectionDescriptor \<Rightarrow> nat ewf_result" where
  "data_offset_v2 what desc =
    ok_or (Parse (Ewf2OffsetUnderflow what (d2_offset desc) (unat (d2_data_size desc))))
      (checked_sub (d2_offset desc) (unat (d2_data_size desc)))"

definition handle_case_data ::
  "externals \<Rightarrow> bytes \<Rightarrow> Ewf2SectionDescriptor \<Rightarrow> open2_state \<Rightarrow> open2_state ewf_result" where
  "handle_case_data X f desc st =
    and_then (data_offset_v2 (lit ''case_data'') desc) (\<lambda>off.
    and_then (read_exact (File f) (unat (d2_data_size desc)) off) (\<lambda>buf.
    and_then (maybe_zlib_decompress X buf) (\<lambda>raw.
      Ok (st\<lparr>o2_metadata := parse_ewf2_case_data raw (o2_metadata st)\<rparr>))))"

definition handle_device_info ::
  "externals \<Rightarrow> bytes \<Rightarrow> Ewf2SectionDescriptor \<Rightarrow> open2_state \<Rightarrow> open2_state ewf_result" where
  "handle_device_info X f desc st =
    and_then (data_offset_v2 (lit ''device_info'') desc) (\<lambda>off.
    and_then (read_exact (File f) (unat (d2_data_size desc)) off) (\<lambda>buf.
    and_then (maybe_zlib_decompress X buf) (\<lambda>raw.
    and_then (parse_ewf2_device_info raw (o2_chunk_size st, o2_total_size st)) (\<lambda>(cs, ts).
      Ok (st\<lparr>o2_chunk_size := cs, o2_total_size := ts\<rparr>)))))"

definition handle_sector_table ::
  "externals \<Rightarrow> bytes \<Rightarrow> nat \<Rightarrow> Ewf2SectionDescriptor \<Rightarrow> open2_state \<Rightarrow> open2_state ewf_result" where
  "handle_sector_table X f seg_idx desc st =
    and_then (data_offset_v2 (lit ''sector_table'') desc) (\<lambda>off.
    and_then (read_exact (File f) 32 off) (\<lambda>hdr_buf.
    and_then (ewf2_table_header_parse X hdr_buf) (\<lambda>hdr.
      let entry_count = unat (th2_entry_count hdr)
      in if MAX_TABLE_ENTRIES < entry_count
         then Err (Parse (TableEntryCountTooLarge entry_count MAX_TABLE_ENTRIES))
         else
           and_then (plain_add off 32) (\<lambda>entries_offset.
           and_then (read_exact (File f) (entry_count * EWF2_TABLE_ENTRY_SIZE) entries_offset) (\<lambda>buf.
           and_then (collect (map (\<lambda>i.
               and_then (index_range buf (i * EWF2_TABLE_ENTRY_SIZE)
                           (i * EWF2_TABLE_ENTRY_SIZE + EWF2_TABLE_ENTRY_SIZE)) (\<lambda>eb.
               and_then (ewf2_table_entry_parse X eb) (\<lambda>e.
                 Ok (chunk_new seg_idx (te2_is_compressed e) (unat (te2_chunk_data_offset e))
                       (unat (te2_chunk_data_size e)))))) [0..<entry_count])) (\<lambda>cs.
             Ok (st\<lparr>o2_chunks := o2_chunks st @ cs\<rparr>)))))))"

definition handle_md5_hash ::
  "bytes \<Rightarrow> Ewf2SectionDescriptor \<Rightarrow> open2_state \<Rightarrow> open2_state ewf_result" where
  "handle_md5_hash f desc st =
    and_then (data_offset_v2 (lit ''md5_hash'') desc) (\<lambda>off.
    and_then (read_exact (File f) 16 off) (\<lambda>h. Ok (st\<lparr>o2_stored_md5 := Some h\<rparr>)))"

definition handle_sha1_hash ::
  "bytes \<Rightarrow> Ewf2SectionDescriptor \<Rightarrow> open2_state \<Rightarrow> open2_state ewf_result" where
  "handle_sha1_hash f desc st =
    and_then (data_offset_v2 (lit ''sha1_hash'') desc) (\<lambda>off.
    and_then (read_exact (File f) 20 off) (\<lambda>h. Ok (st\<lparr>o2_stored_sha1 := Some h\<rparr>)))"

text \<open>The match on the section type with its guards; a guard that fails falls to the last arm.\<close>

definition handle_section_v2 ::
  "externals \<Rightarrow> bytes \<Rightarrow> nat \<Rightarrow> Ewf2SectionDescriptor \<Rightarrow> open2_state \<Rightarrow> open2_state ewf_result" where
  "handle_section_v2 X f seg_idx desc st =
    (let ds = unat (d2_data_size desc)
     in if is_encrypted desc then Err EncryptedNotSupported
        else case d2_section_type desc of
          CaseData \<Rightarrow>
            if 0 < ds \<and> ds < MAX_SECTION_DATA_SIZE \<and> md_case_number (o2_metadata st) = None
            then handle_case_data X f desc st else Ok st
        | DeviceInfo \<Rightarrow>
            if 0 < ds \<and> ds < MAX_SECTION_DATA_SIZE \<and> o2_chunk_size st = 0
            then handle_device_info X f desc st else Ok st
        | SectorTable \<Rightarrow> handle_sector_table X f seg_idx desc st
        | Md5Hash \<Rightarrow> if 16 \<le> ds then handle_md5_hash f desc st else Ok st
        | Sha1Hash \<Rightarrow> if 20 \<le> ds then handle_sha1_hash f desc st else Ok st
        | _ \<Rightarrow> Ok st)"

definition open_segment_v2 ::
  "externals \<Rightarrow> nat \<times> bytes \<Rightarrow> open2_state \<Rightarrow> open2_state ewf_result" where
  "open_segment_v2 X seg st =
    (let (seg_idx, f) = seg
     in and_then (collect_ewf2_descriptors X f) (\<lambda>ds. fold_result (handle_section_v2 X f seg_idx) ds st))"

section \<open>EWF v2: open\<close>

definition open_segments_v2 ::
  "('p, bytes) lru \<Rightarrow> externals \<Rightarrow> ('path \<Rightarrow> bytes ewf_result) \<Rightarrow> 'path list \<Rightarrow> nat
    \<Rightarrow> ('s, 'p) EwfReader ewf_result" where
  "open_segments_v2 LP X FS paths cache_size =
    and_then (collect (map (\<lambda>p.
        and_then (FS p) (\<lambda>f.
        and_then (read_exact (File f) EWF2_FILE_HEADER_SIZE 0) (\<lambda>hdr_buf.
        and_then (ewf2_file_header_parse X hdr_buf) (\<lambda>h. Ok (f, h))))) paths)) (\<lambda>opened.
    and_then (validate_and_reorder_segments (map fst opened)
                (map (unat \<circ> fh2_segment_number \<circ> snd) opened)) (\<lambda>ordered.
    and_then (fold_result (open_segment_v2 X) (zip [0..<length ordered] ordered) open2_state_init) (\<lambda>st.
      let chunk_size = (if o2_chunk_size st = 0 then DEFAULT_V2_CHUNK_SIZE else o2_chunk_size st)
      in and_then (if o2_total_size st = 0 then plain_mul (length (o2_chunks st)) chunk_size
                   else Ok (o2_total_size st)) (\<lambda>total_size.
         Ok \<lparr>rd_segments = map File ordered,
             rd_chunks = Eager (o2_chunks st),
             rd_chunk_size = chunk_size,
             rd_total_size = total_size,
             rd_position = 0,
             rd_cache = lru_new LP (max cache_size 1),
             rd_stored_md5 = o2_stored_md5 st,
             rd_stored_sha1 = o2_stored_sha1 st,
             rd_metadata = o2_metadata st,
             rd_acquisition_errors = []\<rparr>))))"

section \<open>Opening by path\<close>

text \<open>The version probe of the first file: its first eight bytes.\<close>

definition probe_v2 :: "('path \<Rightarrow> bytes ewf_result) \<Rightarrow> 'path \<Rightarrow> bool ewf_result" where
  "probe_v2 FS p =
    and_then (FS p) (\<lambda>f. map_ok (\<lambda>sig. sig = EVF2_SIGNATURE \<or> sig = LEF2_SIGNATURE)
                           (read_exact (File f) 8 0))"

definition open_segments_with_cache_size ::
  "('s, Chunk list) lru \<Rightarrow> ('p, bytes) lru \<Rightarrow> externals \<Rightarrow> ('path \<Rightarrow> bytes ewf_result) \<Rightarrow> 'path list
    \<Rightarrow> nat \<Rightarrow> ('s, 'p) EwfReader ewf_result" where
  "open_segments_with_cache_size LS LP X FS paths cache_size =
    (if paths = [] then Err (NoSegments (lit ''empty path list''))
     else and_then (probe_v2 FS (hd paths)) (\<lambda>v2.
       if v2 then open_segments_v2 LP X FS paths cache_size
       else and_then (collect (map (\<lambda>p. map_ok File (FS p)) paths)) (\<lambda>sources.
         open_v1 LS LP X sources cache_size None)))"

definition open_segments ::
  "('s, Chunk list) lru \<Rightarrow> ('p, bytes) lru \<Rightarrow> externals \<Rightarrow> ('path \<Rightarrow> bytes ewf_result) \<Rightarrow> 'path list
    \<Rightarrow> ('s, 'p) EwfReader ewf_result" where
  "open_segments LS LP X FS paths = open_segments_with_cache_size LS LP X FS paths DEFAULT_LRU_SIZE"

definition open_segments_lazy ::
  "('s, Chunk list) lru \<Rightarrow> ('p, bytes) lru \<Rightarrow> externals \<Rightarrow> ('path \<Rightarrow> bytes ewf_result) \<Rightarrow> 'path list
    \<Rightarrow> nat \<Rightarrow> nat \<Rightarrow> ('s, 'p) EwfReader ewf_result" where
  "open_segments_lazy LS LP X FS paths cache_size section_cache =
    (if paths = [] then Err (NoSegments (lit ''empty path list''))
     else and_then (probe_v2 FS (hd paths)) (\<lambda>v2.
       if v2 then open_segments_v2 LP X FS paths cache_size
       else and_then (collect (map (\<lambda>p. map_ok File (FS p)) paths)) (\<lambda>sources.
         open_v1 LS LP X sources cache_size (Some section_cache))))"

end
