(* ===== verification/Open_Correct.thy ===== *)
theory Open_Correct
  imports Reader_Open "HOL-Library.Multiset"
begin

text \<open>
  What opening an image establishes: the order of the segments, the chain of section
  descriptors, and that the eager and the lazy chunk table of one image answer every lookup
  alike.
\<close>

section \<open>Segment order\<close>

lemma check_sequence_Ok:
  "check_sequence pos xs = Ok () \<longleftrightarrow> map snd xs = map (\<lambda>i. (i + 1) mod 2 ^ 32) [pos..<pos + length xs]"
proof (induction pos xs rule: check_sequence.induct)
  case (2 pos idx seg rest)
  have "[pos..<pos + length ((idx, seg) # rest)] = pos # [pos + 1..<pos + 1 + length rest]"
    by (subst upt_rec) (simp del: upt_Suc)
  then show ?case using 2 by (auto simp: Let_def simp del: upt_Suc)
qed simp

lemma check_sequence_no_panic [simp]: "check_sequence pos xs \<noteq> Panic"
  by (induction pos xs rule: check_sequence.induct) (auto simp: Let_def)

lemma take_slots_all:
  assumes "distinct (map fst ps)"
    and "\<And>p. p \<in> set ps \<Longrightarrow> fst p < length slots \<and> slots ! fst p = Some (segs ! fst p)"
  shows "take_slots ps slots acc = Ok (acc @ map (\<lambda>p. segs ! fst p) ps)"
  using assms
proof (induction ps arbitrary: slots acc)
  case (Cons p ps)
  obtain idx seg where p: "p = (idx, seg)" by (cases p)
  have here: "get_at slots idx = Some (Some (segs ! idx))"
    using Cons.prems(2) [of p] p by simp
  have "take_slots ps (slots[idx := None]) (acc @ [segs ! idx]) =
      Ok ((acc @ [segs ! idx]) @ map (\<lambda>p. segs ! fst p) ps)"
  proof (rule Cons.IH)
    show "distinct (map fst ps)" using Cons.prems(1) by simp
    fix q assume q: "q \<in> set ps"
    then have "fst q \<noteq> idx" using Cons.prems(1) p by force
    then show "fst q < length (slots[idx := None]) \<and> slots[idx := None] ! fst q = Some (segs ! fst q)"
      using Cons.prems(2) [of q] q by simp
  qed
  then show ?case using p here by (simp add: get_at_def)
qed simp

lemma map_snd_sort_key: "map snd (sort_key snd xs) = sort (map snd xs)"
proof -
  have "mset (map snd (sort_key snd xs)) = mset (map snd xs)"
    by (simp only: mset_map mset_sort)
  moreover have "sorted (map snd (sort_key snd xs))" by simp
  ultimately show ?thesis by (metis properties_for_sort)
qed

lemma sort_upt_iff:
  assumes "length xs = n"
  shows "sort xs = [1..<n + 1] \<longleftrightarrow> set xs = {1..n}"
proof
  assume "sort xs = [1..<n + 1]"
  then have "set (sort xs) = set [1..<n + 1]" by simp
  then show "set xs = {1..n}" by auto
next
  assume s: "set xs = {1..n}"
  then have "card (set xs) = length xs" using assms by simp
  then have "distinct xs" by (rule card_distinct)
  then have "distinct (sort xs)" by (simp only: distinct_sort)
  moreover have "set (sort xs) = set [1..<n + 1]"
    using s by (simp only: set_sort set_upt atLeastLessThanSuc_atLeastAtMost Suc_eq_plus1 [symmetric])
  ultimately show "sort xs = [1..<n + 1]"
    by (rule sorted_distinct_set_unique [OF sorted_sort _ sorted_upt distinct_upt])
qed

lemma indexed_facts:
  fixes nums :: "nat list"
  defines "ixs \<equiv> sort_key snd (zip [0..<length nums] nums)"
  shows "set ixs = {(i, nums ! i) |i. i < length nums}" and "distinct (map fst ixs)"
    and "length ixs = length nums" and "map snd ixs = sort nums"
proof -
  show "set ixs = {(i, nums ! i) |i. i < length nums}"
    by (force simp: ixs_def set_zip)
  have "mset (map fst ixs) = mset (map fst (zip [0..<length nums] nums))"
    by (simp only: ixs_def mset_map mset_sort)
  also have "map fst (zip [0..<length nums] nums) = [0..<length nums]" by simp
  finally show "distinct (map fst ixs)" by (metis distinct_upt mset_eq_imp_distinct_iff)
  show "length ixs = length nums" by (simp add: ixs_def)
  show "map snd ixs = sort nums" by (simp add: ixs_def map_snd_sort_key)
qed

lemma upt_small_mod: "n < 2 ^ 32 \<Longrightarrow> map (\<lambda>i. (i + 1) mod 2 ^ 32) [0..<n] = [1..<n + 1]"
  by (rule nth_equalityI) (auto simp del: upt_Suc)

lemma reorder_eq:
  assumes "length segs = length nums"
  shows "validate_and_reorder_segments segs nums =
    and_then (check_sequence 0 (sort_key snd (zip [0..<length nums] nums)))
      (\<lambda>_. Ok (map (\<lambda>p. segs ! fst p) (sort_key snd (zip [0..<length nums] nums))))"
proof -
  have "take_slots (sort_key snd (zip [0..<length nums] nums)) (map Some segs) [] =
      Ok ([] @ map (\<lambda>p. segs ! fst p) (sort_key snd (zip [0..<length nums] nums)))"
    using indexed_facts(1,2) [of nums] assms by (intro take_slots_all) auto
  then show ?thesis by (simp add: validate_and_reorder_segments_def Let_def)
qed

lemma reorder_Ok_iff:
  assumes "length segs = length nums" and "length nums < 2 ^ 32"
  shows "(\<exists>out. validate_and_reorder_segments segs nums = Ok out) \<longleftrightarrow> set nums = {1..length nums}"
  using indexed_facts(3,4) [of nums] assms upt_small_mod [of "length nums"] sort_upt_iff [of nums "length nums"]
  by (simp add: reorder_eq check_sequence_Ok)

lemma reorder_places:
  assumes len: "length segs = length nums" and small: "length nums < 2 ^ 32"
    and ok: "validate_and_reorder_segments segs nums = Ok out" and i: "i < length nums"
  shows "length out = length nums" and "out ! (nums ! i - 1) = segs ! i"
proof -
  let ?ixs = "sort_key snd (zip [0..<length nums] nums)"
  note f = indexed_facts [of nums]
  have out: "out = map (\<lambda>p. segs ! fst p) ?ixs" and seq: "check_sequence 0 ?ixs = Ok ()"
    using ok by (auto simp: reorder_eq [OF len])
  show "length out = length nums" using out f(3) by simp
  have "map snd ?ixs = [1..<length nums + 1]"
    using seq f(3) upt_small_mod [OF small] by (simp add: check_sequence_Ok)
  moreover have "(i, nums ! i) \<in> set ?ixs" unfolding f(1) using i by auto
  then obtain k where k: "k < length ?ixs" "?ixs ! k = (i, nums ! i)"
    unfolding in_set_conv_nth by auto
  ultimately have "nums ! i = k + 1"
    using f(3) by (metis (no_types, lifting) add.commute nth_map nth_upt snd_conv
        less_diff_conv add_diff_cancel_right' length_map length_upt)
  then show "out ! (nums ! i - 1) = segs ! i" using out k by simp
qed

section \<open>The descriptor chain\<close>

text \<open>Each descriptor names the next one, which lies further on.\<close>

fun forward_linked :: "SectionDescriptor list \<Rightarrow> bool" where
  "forward_linked (d # e # ds) \<longleftrightarrow>
    unat (sd_next d) = sd_offset e \<and> sd_offset d < sd_offset e \<and> forward_linked (e # ds)"
| "forward_linked ds \<longleftrightarrow> True"

lemma forward_linked_sorted: "forward_linked ds \<Longrightarrow> sorted_wrt (\<lambda>d e. sd_offset d < sd_offset e) ds"
proof (induction ds rule: forward_linked.induct)
  case (1 d e ds)
  then have "sorted_wrt (\<lambda>d e. sd_offset d < sd_offset e) (e # ds)" by simp
  then show ?case using 1(2) by auto
qed auto

lemma descriptor_offset [simp]: "descriptor_parse X buf off = Ok d \<Longrightarrow> sd_offset d = off"
  by (auto simp: descriptor_parse_def split: if_splits)

text \<open>What a walk from \<open>off\<close> appends, on a source that presents \<open>content\<close>.\<close>

definition chain_from :: "externals \<Rightarrow> bytes \<Rightarrow> nat \<Rightarrow> SectionDescriptor list \<Rightarrow> bool" where
  "chain_from X content off ds \<longleftrightarrow>
    forward_linked ds \<and> (ds \<noteq> [] \<longrightarrow> sd_offset (hd ds) = off) \<and>
    (ds = [] \<longleftrightarrow> length content < off + 76) \<and>
    (\<forall>d \<in> set ds. sd_offset d + 76 \<le> length content \<and>
       descriptor_parse X (slice (sd_offset d) (sd_offset d + 76) content) (sd_offset d) = Ok d)"

lemma chain_from_Cons:
  assumes "off + 76 \<le> length content" and "descriptor_parse X (slice off (off + 76) content) off = Ok d"
    and "ds \<noteq> [] \<longrightarrow> unat (sd_next d) = sd_offset (hd ds) \<and> off < sd_offset (hd ds)"
    and "forward_linked ds"
    and "\<forall>d \<in> set ds. sd_offset d + 76 \<le> length content \<and>
       descriptor_parse X (slice (sd_offset d) (sd_offset d + 76) content) (sd_offset d) = Ok d"
  shows "chain_from X content off (d # ds)"
  using assms by (cases ds) (auto simp: chain_from_def)

lemma walk_v1_chain:
  assumes src: "positioned_source src content" and small: "length content < 2 ^ 63"
  shows "\<exists>ds. walk_v1 X src (length content) off acc = Ok (acc @ ds) \<and> chain_from X content off ds"
proof (induction "length content - off" arbitrary: off acc rule: less_induct)
  case less
  show ?case
  proof (cases "off + 76 \<le> length content")
    case False
    then have "walk_v1 X src (length content) off acc = Ok (acc @ [])"
      by (simp add: walk_v1.simps [of X src "length content" off] checked_add_def)
    moreover have "chain_from X content off []" using False by (simp add: chain_from_def)
    ultimately show ?thesis by blast
  next
    case True
    have chk: "checked_add off 76 = Some (off + 76)"
      using True small by (simp add: u64_max_def)
    have rd: "seek_read_exact src off 76 = Ok (slice off (off + 76) content)"
      using positioned_source.seek_read_exact_content [OF src, of off 76] True small by simp
    have "length (slice off (off + 76) content) = 76" using True by simp
    then obtain d where d: "descriptor_parse X (slice off (off + 76) content) off = Ok d"
      by (simp add: descriptor_parse_def)
    have step: "walk_v1 X src (length content) off acc =
      (if unat (sd_next d) = 0 \<or> unat (sd_next d) \<le> off then Ok (acc @ [d])
       else walk_v1 X src (length content) (unat (sd_next d)) (acc @ [d]))"
      using True by (simp add: walk_v1.simps [of X src "length content" off] chk rd d)
    show ?thesis
    proof (cases "unat (sd_next d) \<le> off")
      case stop: True
      have "chain_from X content off [d]" using True d by (intro chain_from_Cons) auto
      then show ?thesis using step stop by auto
    next
      case False
      then obtain ds where ds: "walk_v1 X src (length content) (unat (sd_next d)) (acc @ [d]) =
          Ok ((acc @ [d]) @ ds)" "chain_from X content (unat (sd_next d)) ds"
        using less [of "unat (sd_next d)" "acc @ [d]"] True by force
      have "chain_from X content off (d # ds)"
        using True d ds(2) False by (intro chain_from_Cons) (auto simp: chain_from_def)
      then show ?thesis using step False ds(1) by auto
    qed
  qed
qed

lemma walk_segment_chain:
  assumes "positioned_source src content" and "length content < 2 ^ 63"
  shows "\<exists>ds. walk_segment X src = Ok ds \<and> chain_from X content 13 ds"
  using walk_v1_chain [OF assms, of X 13 "[]"] assms(2) positioned_source.len_content [OF assms(1)]
  by (simp add: walk_segment_def seek_target_def i64_add_def as_i64_def)

section \<open>Eager and lazy open agree\<close>

text \<open>A section whose handler reads the volume geometry, and one whose handler reads a table.\<close>

definition is_volume :: "SectionDescriptor \<Rightarrow> bool" where
  "is_volume d \<longleftrightarrow> sd_type d = lit ''volume'' \<or> sd_type d = lit ''disk''"

text \<open>
  The two open passes in step: the eager vector is what the sections of the lazy index load
  to, and all else the passes collected is the same.
\<close>

definition passes_agree ::
  "externals \<Rightarrow> SegmentSource list \<Rightarrow> open_state \<Rightarrow> open_state \<Rightarrow> bool" where
  "passes_agree X segs e l \<longleftrightarrow>
    (os_chunk_size l = os_chunk_size e \<and> os_total_size l = os_total_size e
      \<and> os_stored_md5 l = os_stored_md5 e \<and> os_stored_sha1 l = os_stored_sha1 e
      \<and> os_metadata l = os_metadata e \<and> os_acquisition_errors l = os_acquisition_errors e) \<and>
    index_from 0 (os_index l) \<and> os_next_chunk_id l = sum_list (map sm_entry_count (os_index l)) \<and>
    (\<exists>ss. os_chunks e = concat ss \<and>
       list_all2 (\<lambda>m s. lazy_load X (os_chunk_size e) m segs = Ok s \<and> length s \<le> sm_entry_count m)
         (os_index l) ss)"

lemma table_type_cases: "table_type_of ds = lit ''table'' \<or> table_type_of ds = lit ''table2''"
  by (simp add: table_type_of_def)

lemma lit_distinct:
  "lit ''table'' \<noteq> lit ''volume''" "lit ''table'' \<noteq> lit ''disk''"
  "lit ''table2'' \<noteq> lit ''volume''" "lit ''table2'' \<noteq> lit ''disk''"
  by (simp_all add: lit_def)

lemma parse_table_section_length:
  assumes "parse_table_section X entries n base seg cs e = Ok sect"
  shows "length sect \<le> n"
proof -
  have "length sect = length (located X entries base [0..<min n (length entries div 4)])"
    using assms by (simp add: parse_table_section_sized) (metis length_backfill_last length_sized_chunks)
  also have "\<dots> \<le> length [0..<min n (length entries div 4)]" by (rule length_located_le)
  finally show ?thesis by simp
qed

lemma seek_read_exact_Ok:
  assumes src: "positioned_source src content" and ok: "seek_read_exact src pos n = Ok bs"
    and pos: "pos \<le> u64_max"
  shows "(n = 0 \<or> pos + n \<le> length content) \<and> bs = slice pos (pos + n) content"
proof (cases "pos < 2 ^ 63")
  case True
  then show ?thesis
    using ok positioned_source.seek_read_exact_content [OF src True, of n] by (auto split: if_splits)
next
  case False
  then show ?thesis
    using ok pos by (simp add: seek_read_exact_def seek_target_def as_i64_def u64_max_def)
qed

text \<open>The eager handler and the lazy one, on the same table section.\<close>

lemma table_handlers_agree:
  assumes laws: "safe_read_laws X"
    and src: "positioned_source src content" and seg: "seg < length segs" "segs ! seg = src"
    and eager: "handle_table_eager X src seg sde d e = Ok e'"
    and lazy: "handle_table_lazy src seg sde d l = Ok l'"
    and agree: "passes_agree X segs e l"
  shows "passes_agree X segs e' l'"
proof -
  let ?h = "sd_offset d + 76"
  from eager obtain hdr entries sect where
    hdr: "seek_read_exact src ?h 24 = Ok hdr" and h: "?h \<le> u64_max"
    and n: "unat (x_le_u32 X hdr 0) \<le> MAX_TABLE_ENTRIES" and o: "?h + 24 \<le> u64_max"
    and entries: "seek_read_exact src (?h + 24) (unat (x_le_u32 X hdr 0) * 4) = Ok entries"
    and sect: "parse_table_section X entries (unat (x_le_u32 X hdr 0)) (unat (x_le_u64 X hdr 8)) seg
      (os_chunk_size e) sde = Ok sect"
    and e': "e' = e\<lparr>os_chunks := os_chunks e @ sect\<rparr>"
    by (auto simp: handle_table_eager_def section_data_def Let_def split: if_splits)
  have hb: "?h + 24 \<le> length content" "hdr = slice ?h (?h + 24) content"
    using seek_read_exact_Ok [OF src hdr h] by simp_all
  have lhdr: "length hdr = 24" using hb by simp
  have fields: "x_le_u32 X hdr 0 = u32_from_le (slice 0 4 hdr)"
    "x_le_u64 X hdr 8 = u64_from_le (slice 8 16 hdr)"
    using safe_read_u32 [OF laws, of 0 hdr] safe_read_u64 [OF laws, of 8 hdr] lhdr by simp_all
  let ?n = "unat (x_le_u32 X hdr 0)" and ?base = "unat (x_le_u64 X hdr 8)"
  have eb: "?n = 0 \<or> ?h + 24 + ?n * 4 \<le> length content"
    "entries = slice (?h + 24) (?h + 24 + ?n * 4) content"
    using seek_read_exact_Ok [OF src entries o] by simp_all
  let ?m = "\<lparr>sm_first_chunk_id = os_next_chunk_id l, sm_entry_count = ?n,
      sm_entries_file_offset = ?h + 24, sm_base_offset = ?base, sm_segment_idx = seg,
      sm_sectors_data_end = sde\<rparr>"
  have rdh: "read_at src 24 ?h = Ok hdr"
    using positioned_source.read_content [OF src] hb by (simp add: slice_def)
  then have l': "l' = l\<lparr>os_next_chunk_id := os_next_chunk_id l + ?n, os_index := os_index l @ [?m]\<rparr>"
    using lazy lhdr h by (auto simp: handle_table_lazy_def read_header_def plain_add_exact fill_buf_exact
        fields Let_def split: if_splits)
  have le: "length entries = ?n * 4" using eb by auto
  have "read_at src (?n * 4) (?h + 24) = Ok entries"
    using positioned_source.read_content [OF src] eb by (simp add: slice_def)
  moreover have "?n * 4 \<le> u64_max" using n by (simp add: MAX_TABLE_ENTRIES_def u64_max_def)
  moreover have "?n * 4 \<le> segment_len src - (?h + 24)"
    using eb positioned_source.len_content [OF src] by auto
  ultimately have load: "lazy_load X (os_chunk_size e) ?m segs = Ok sect"
    using seg sect le by (simp add: lazy_load_def get_at_def checked_mul_def fill_buf_exact)
  have "length sect \<le> ?n" using sect by (rule parse_table_section_length)
  with load agree have entry: "lazy_load X (os_chunk_size e) ?m segs = Ok sect \<and>
      length sect \<le> sm_entry_count ?m" by simp
  obtain ss where ss: "os_chunks e = concat ss"
    "list_all2 (\<lambda>m s. lazy_load X (os_chunk_size e) m segs = Ok s \<and> length s \<le> sm_entry_count m)
      (os_index l) ss"
    using agree by (auto simp: passes_agree_def)
  have "os_chunks e' = concat (ss @ [sect])" using ss(1) e' by simp
  moreover have "list_all2 (\<lambda>m s. lazy_load X (os_chunk_size e') m segs = Ok s \<and>
      length s \<le> sm_entry_count m) (os_index l') (ss @ [sect])"
    using ss(2) entry by (simp add: e' l' list_all2_appendI)
  ultimately have "\<exists>ss. os_chunks e' = concat ss \<and> list_all2 (\<lambda>m s.
      lazy_load X (os_chunk_size e') m segs = Ok s \<and> length s \<le> sm_entry_count m) (os_index l') ss"
    by blast
  moreover have "index_from 0 (os_index l')" "os_next_chunk_id l' = sum_list (map sm_entry_count (os_index l'))"
    using agree by (auto simp: passes_agree_def l' index_from_append)
  ultimately show ?thesis
    using agree unfolding passes_agree_def by (simp add: e' l')
qed

text \<open>The handlers of the other sections do the same to both states.\<close>

lemma header_uniform:
  "\<exists>r. \<forall>st. handle_header X src d st = map_ok (\<lambda>f. st\<lparr>os_metadata := f (os_metadata st)\<rparr>) r"
proof (cases "sd_offset d + 76 \<le> u64_max")
  case False
  then show ?thesis by (intro exI [of _ Panic]) (simp add: handle_header_def plain_add_def)
next
  case start: True
  let ?n = "unat (sd_size d) - 76"
  show ?thesis
  proof (cases "0 < ?n \<and> ?n < MAX_SECTION_DATA_SIZE")
    case False
    then show ?thesis
      using start by (intro exI [of _ "Ok id"]) (auto simp: handle_header_def plain_add_def Let_def)
  next
    case True
    then have "handle_header X src d st =
      map_ok (\<lambda>f. st\<lparr>os_metadata := f (os_metadata st)\<rparr>)
        (map_ok (\<lambda>bs. case x_zlib_read_to_end X bs (Some MAX_DECOMPRESSED_SIZE) of
                        None \<Rightarrow> id | Some t \<Rightarrow> parse_header_text (from_utf8_lossy t))
          (seek_read_exact src (sd_offset d + 76) ?n))" for st
      using start by (cases "seek_read_exact src (sd_offset d + 76) ?n")
        (simp_all add: handle_header_def plain_add_def split: option.split)
    then show ?thesis by blast
  qed
qed

lemma header_agrees:
  assumes "handle_header X src d e = Ok e'" "handle_header X src d l = Ok l'" "passes_agree X segs e l"
  shows "passes_agree X segs e' l' \<and> os_index l' = os_index l"
proof -
  obtain r where "\<And>st. handle_header X src d st = map_ok (\<lambda>f. st\<lparr>os_metadata := f (os_metadata st)\<rparr>) r"
    using header_uniform [of X src d] by auto
  then obtain f where "e' = e\<lparr>os_metadata := f (os_metadata e)\<rparr>" "l' = l\<lparr>os_metadata := f (os_metadata l)\<rparr>"
    using assms(1,2) by auto
  then show ?thesis using assms(3) by (simp add: passes_agree_def)
qed

lemma hash_agrees:
  assumes "handle_hash src d e = Ok e'" "handle_hash src d l = Ok l'" "passes_agree X segs e l"
  shows "passes_agree X segs e' l' \<and> os_index l' = os_index l"
  using assms by (cases "section_data src d 16") (auto simp: handle_hash_def passes_agree_def)

lemma digest_agrees:
  assumes "handle_digest src d e = Ok e'" "handle_digest src d l = Ok l'" "passes_agree X segs e l"
  shows "passes_agree X segs e' l' \<and> os_index l' = os_index l"
  using assms by (cases "section_data src d 36") (auto simp: handle_digest_def passes_agree_def)

lemma error2_agrees:
  assumes "handle_error2 X src d e = Ok e'" "handle_error2 X src d l = Ok l'" "passes_agree X segs e l"
  shows "passes_agree X segs e' l' \<and> os_index l' = os_index l"
  using assms by (auto simp: handle_error2_def passes_agree_def Let_def split: if_splits)

lemmas other_handlers_agree = header_agrees hash_agrees digest_agrees error2_agrees

lemma handlers_agree:
  assumes laws: "safe_read_laws X"
    and src: "positioned_source src content" and seg: "seg < length segs" "segs ! seg = src"
    and eager: "handle_section False X src seg (table_type_of ds) sde d e = Ok e'"
    and lazy: "handle_section True X src seg (table_type_of ds) sde d l = Ok l'"
    and agree: "passes_agree X segs e l" and vol: "is_volume d \<Longrightarrow> os_index l = []"
  shows "passes_agree X segs e' l'"
    and "sd_type d \<noteq> table_type_of ds \<Longrightarrow> os_index l' = os_index l"
proof -
  have same: "os_metadata l = os_metadata e" "os_stored_md5 l = os_stored_md5 e"
    using agree by (auto simp: passes_agree_def)
  consider (volume) "is_volume d" | (table) "\<not> is_volume d" "sd_type d = table_type_of ds"
    | (other) "\<not> is_volume d" "sd_type d \<noteq> table_type_of ds" by blast
  then have "passes_agree X segs e' l' \<and> (sd_type d \<noteq> table_type_of ds \<longrightarrow> os_index l' = os_index l)"
  proof cases
    case volume
    then have "handle_volume X src d e = Ok e'" "handle_volume X src d l = Ok l'"
      using eager lazy by (auto simp: handle_section_def is_volume_def)
    then show ?thesis
      using agree vol [OF volume]
      by (auto simp: handle_volume_def passes_agree_def Let_def split: if_splits)
  next
    case table
    then have "handle_table_eager X src seg sde d e = Ok e'" "handle_table_lazy src seg sde d l = Ok l'"
      using eager lazy by (auto simp: handle_section_def is_volume_def Let_def)
    then show ?thesis using table_handlers_agree [OF laws src seg] agree table by blast
  next
    case other
    have tt: "sd_type d \<noteq> table_type_of ds" "sd_type d \<noteq> lit ''volume''" "sd_type d \<noteq> lit ''disk''"
      using other by (auto simp: is_volume_def)
    have "passes_agree X segs e' l' \<and> os_index l' = os_index l"
      using eager lazy tt agree
      unfolding handle_section_def Let_def same
      by (simp split: if_split_asm add: other_handlers_agree)
    then show ?thesis by blast
  qed
  then show "passes_agree X segs e' l'"
    and "sd_type d \<noteq> table_type_of ds \<Longrightarrow> os_index l' = os_index l" by auto
qed

text \<open>All volume sections come before the first table.\<close>

fun volumes_first :: "rstr \<Rightarrow> SectionDescriptor list \<Rightarrow> bool" where
  "volumes_first tt [] \<longleftrightarrow> True"
| "volumes_first tt (d # ds) \<longleftrightarrow>
    (if sd_type d = tt then list_all (\<lambda>d. \<not> is_volume d) ds else volumes_first tt ds)"

lemma volumes_first_none: "list_all (\<lambda>d. \<not> is_volume d) ds \<Longrightarrow> volumes_first tt ds"
  by (induction ds) auto

lemma section_fold_agrees:
  assumes laws: "safe_read_laws X"
    and src: "positioned_source src content" and seg: "seg < length segs" "segs ! seg = src"
    and eager: "fold_result (handle_section False X src seg (table_type_of all) sde) ds e = Ok e'"
    and lazy: "fold_result (handle_section True X src seg (table_type_of all) sde) ds l = Ok l'"
    and agree: "passes_agree X segs e l"
    and vol: "if os_index l = [] then volumes_first (table_type_of all) ds
              else list_all (\<lambda>d. \<not> is_volume d) ds"
  shows "passes_agree X segs e' l' \<and>
    (list_all (\<lambda>d. sd_type d \<noteq> table_type_of all) ds \<longrightarrow> os_index l' = os_index l)"
  using eager lazy agree vol
proof (induction ds arbitrary: e l)
  case (Cons d ds)
  from Cons.prems obtain e1 l1 where
    step: "handle_section False X src seg (table_type_of all) sde d e = Ok e1"
      "handle_section True X src seg (table_type_of all) sde d l = Ok l1"
    and rest: "fold_result (handle_section False X src seg (table_type_of all) sde) ds e1 = Ok e'"
      "fold_result (handle_section True X src seg (table_type_of all) sde) ds l1 = Ok l'"
    by auto
  have tt: "sd_type d = table_type_of all \<Longrightarrow> \<not> is_volume d"
    using table_type_cases [of all] lit_distinct by (auto simp: is_volume_def)
  have v: "is_volume d \<Longrightarrow> os_index l = []" using Cons.prems(4) by (auto split: if_splits)
  note one = handlers_agree [OF laws src seg step Cons.prems(3) v]
  have "if os_index l1 = [] then volumes_first (table_type_of all) ds
      else list_all (\<lambda>d. \<not> is_volume d) ds"
    using Cons.prems(4) one(2) volumes_first_none by (auto split: if_splits)
  then show ?case using Cons.IH [OF rest one(1)] one(2) by auto
qed simp

text \<open>
  Over all segments: the sections in the order they are handled, each with whether it is the
  table the segment uses.
\<close>

definition segment_sections :: "externals \<Rightarrow> SegmentSource \<Rightarrow> (bool \<times> bool) list" where
  "segment_sections X src = (case walk_segment X src of
     Ok ds \<Rightarrow> map (\<lambda>d. (is_volume d, sd_type d = table_type_of ds)) ds
   | _ \<Rightarrow> [])"

definition volumes_precede_tables :: "externals \<Rightarrow> SegmentSource list \<Rightarrow> bool" where
  "volumes_precede_tables X segs \<longleftrightarrow>
    list_all (\<lambda>(v, t). \<not> v) (dropWhile (\<lambda>(v, t). \<not> t) (concat (map (segment_sections X) segs)))"

lemma volumes_first_flat:
  "volumes_first tt ds \<longleftrightarrow>
    list_all (\<lambda>(v, t). \<not> v) (tl (dropWhile (\<lambda>(v, t). \<not> t) (map (\<lambda>d. (is_volume d, sd_type d = tt)) ds)))"
  by (induction ds) (auto simp: list_all_iff)

lemma none_dropWhile: "list_all p xs \<Longrightarrow> list_all p (dropWhile q xs)"
  by (induction xs) auto

lemma none_prefix: "list_all p (dropWhile q (xs @ ys)) \<Longrightarrow> list_all p (dropWhile q xs)"
  by (induction xs) auto

lemma none_suffix:
  assumes "list_all p (dropWhile q (xs @ ys))"
  shows "list_all p (dropWhile q ys)" and "x \<in> set xs \<Longrightarrow> \<not> q x \<Longrightarrow> list_all p ys"
  using assms by (induction xs) (auto simp: none_dropWhile split: if_splits)

lemma none_tl: "list_all p xs \<Longrightarrow> list_all p (tl xs)"
  by (cases xs) auto

lemma segment_fold_agrees:
  assumes laws: "safe_read_laws X"
    and srcs: "\<And>src. src \<in> set segs \<Longrightarrow> \<exists>content. positioned_source src content"
    and eager: "fold_result (open_segment_v1 False X) (zip [k..<length segs] (drop k segs)) e = Ok e'"
    and lazy: "fold_result (open_segment_v1 True X) (zip [k..<length segs] (drop k segs)) l = Ok l'"
    and agree: "passes_agree X segs e l"
    and vol: "if os_index l = [] then volumes_precede_tables X (drop k segs)
              else list_all (\<lambda>(v, t). \<not> v) (concat (map (segment_sections X) (drop k segs)))"
  shows "passes_agree X segs e' l'"
  using eager lazy agree vol
proof (induction "length segs - k" arbitrary: k e l)
  case 0
  then show ?case by simp
next
  case (Suc n)
  then have k: "k < length segs" by simp
  then have dk: "drop k segs = segs ! k # drop (Suc k) segs" and
    zk: "zip [k..<length segs] (drop k segs) =
      (k, segs ! k) # zip [Suc k..<length segs] (drop (Suc k) segs)"
    by (simp_all add: Cons_nth_drop_Suc upt_conv_Cons flip: Cons_nth_drop_Suc)
  obtain content where src: "positioned_source (segs ! k) content" using srcs [OF nth_mem [OF k]] by blast
  from Suc.prems(1,2) zk obtain ds e1 l1 where ds: "walk_segment X (segs ! k) = Ok ds"
    and one: "fold_result (handle_section False X (segs ! k) k (table_type_of ds) (sectors_end_of ds)) ds e = Ok e1"
      "fold_result (handle_section True X (segs ! k) k (table_type_of ds) (sectors_end_of ds)) ds l = Ok l1"
    and rest: "fold_result (open_segment_v1 False X) (zip [Suc k..<length segs] (drop (Suc k) segs)) e1 = Ok e'"
      "fold_result (open_segment_v1 True X) (zip [Suc k..<length segs] (drop (Suc k) segs)) l1 = Ok l'"
    by (auto simp: open_segment_v1_def)
  let ?here = "map (\<lambda>d. (is_volume d, sd_type d = table_type_of ds)) ds"
  let ?later = "concat (map (segment_sections X) (drop (Suc k) segs))"
  have flat: "concat (map (segment_sections X) (drop k segs)) = ?here @ ?later"
    by (simp add: dk segment_sections_def ds)
  have v: "if os_index l = [] then volumes_first (table_type_of ds) ds
      else list_all (\<lambda>d. \<not> is_volume d) ds"
  proof (cases "os_index l = []")
    case True
    then have "list_all (\<lambda>(v, t). \<not> v) (dropWhile (\<lambda>(v, t). \<not> t) (?here @ ?later))"
      using Suc.prems(4) by (simp add: volumes_precede_tables_def flat)
    from none_tl [OF none_prefix [OF this]] show ?thesis using True by (simp add: volumes_first_flat)
  next
    case False
    then show ?thesis using Suc.prems(4) by (auto simp: flat list_all_iff)
  qed
  note seg = section_fold_agrees [OF laws src k refl one Suc.prems(3) v]
  have "if os_index l1 = [] then volumes_precede_tables X (drop (Suc k) segs)
      else list_all (\<lambda>(v, t). \<not> v) ?later"
  proof (cases "os_index l = []")
    case False
    then have "list_all (\<lambda>(v, t). \<not> v) ?later" using Suc.prems(4) by (simp add: flat)
    then show ?thesis by (auto simp: volumes_precede_tables_def none_dropWhile)
  next
    case True
    then have "list_all (\<lambda>(v, t). \<not> v) (dropWhile (\<lambda>(v, t). \<not> t) (?here @ ?later))"
      using Suc.prems(4) by (simp add: volumes_precede_tables_def flat)
    note all = none_suffix [OF this]
    show ?thesis
    proof (cases "os_index l1 = []")
      case True
      then show ?thesis using all(1) by (simp add: volumes_precede_tables_def)
    next
      case False
      then obtain d where "d \<in> set ds" "sd_type d = table_type_of ds"
        using seg True by (auto simp: list_all_iff)
      then have "list_all (\<lambda>(v, t). \<not> v) ?later"
        using all(2) [of "(is_volume d, True)"] by force
      then show ?thesis using False by simp
    qed
  qed
  then show ?case using Suc.hyps(1) [OF _ rest] seg Suc.hyps(2) by simp
qed

text \<open>An eager and a lazy reader of one image, in terms of what they answer.\<close>

definition readers_agree :: "externals \<Rightarrow> ('s, 'p) EwfReader \<Rightarrow> ('s, 'p) EwfReader \<Rightarrow> bool" where
  "readers_agree X re rl \<longleftrightarrow>
    re\<lparr>rd_chunks := rd_chunks rl\<rparr> = rl \<and> table_len (rd_chunks re) = table_len (rd_chunks rl) \<and>
    (\<forall>cid. table_lookup X (rd_chunks rl) cid (rd_segments rl) = table_lookup X (rd_chunks re) cid (rd_segments re))"

lemma sum_list_le_eq:
  "list_all2 (\<lambda>m s. length s \<le> f m) ms ss \<Longrightarrow> length (concat ss) = sum_list (map f ms) \<Longrightarrow>
    map length ss = map f ms"
proof (induction rule: list_all2_induct)
  case (Cons m ms s ss)
  have "length (concat ss) \<le> sum_list (map f ms)"
    using Cons.hyps(2) by (induction rule: list_all2_induct) auto
  then show ?case using Cons by simp
qed simp

lemma passes_agree_init: "passes_agree X segs open_state_init open_state_init"
  by (auto simp: passes_agree_def open_state_init_def intro: exI [of _ "[]"])

lemma take_slots_subset:
  "take_slots ps slots acc = Ok out \<Longrightarrow> set out \<subseteq> set acc \<union> {s. Some s \<in> set slots}"
proof (induction ps slots acc rule: take_slots.induct)
  case (2 idx seg rest slots acc)
  show ?case
  proof (cases "get_at slots idx")
    case (Some o')
    then have mem: "o' \<in> set slots" by auto
    have "Some t \<in> set (slots[idx := None]) \<Longrightarrow> Some t \<in> set slots" for t
      using set_update_subset_insert [of slots idx None] by auto
    then show ?thesis using 2 Some mem by (cases o') (force simp: get_at_def)+
  qed (use 2 in \<open>simp add: get_at_def split: if_splits\<close>)
qed auto

lemma reorder_subset: "validate_and_reorder_segments segs nums = Ok out \<Longrightarrow> set out \<subseteq> set segs"
  using take_slots_subset [where slots = "map Some segs" and acc = "[]"]
  by (fastforce simp: validate_and_reorder_segments_def Let_def)

lemma open_v1_run:
  assumes "open_v1 LS LP X sources cache_size k = Ok r"
  shows "\<exists>headers ordered st. read_file_headers sources = Ok headers
    \<and> validate_and_reorder_segments sources (map (unat \<circ> fh_segment_number) headers) = Ok ordered
    \<and> fold_result (open_segment_v1 (k \<noteq> None) X) (zip [0..<length ordered] ordered) open_state_init = Ok st
    \<and> os_chunk_size st \<noteq> 0
    \<and> (let chunks = (case k of Some n \<Rightarrow> Lazy (lazy_new LS (os_index st) (os_chunk_size st) n)
                             | None \<Rightarrow> Eager (os_chunks st));
           kind = (case headers of [] \<Rightarrow> Physical | h # _ \<Rightarrow> fh_kind h)
       in r = \<lparr>rd_segments = ordered, rd_chunks = chunks, rd_chunk_size = os_chunk_size st,
         rd_total_size = media_size_for kind (os_total_size st) (table_len chunks) (os_chunk_size st),
         rd_position = 0, rd_cache = lru_new LP (max cache_size 1), rd_stored_md5 = os_stored_md5 st,
         rd_stored_sha1 = os_stored_sha1 st, rd_metadata = os_metadata st,
         rd_acquisition_errors = os_acquisition_errors st\<rparr>)"
  using assms by (auto simp: open_v1_def Let_def split: if_splits)

lemma open_v1_agree:
  assumes laws: "safe_read_laws X"
    and srcs: "\<And>src. src \<in> set sources \<Longrightarrow> \<exists>content. positioned_source src content"
    and eager: "open_v1 LS LP X sources cache_size None = Ok re"
    and lazy: "open_v1 LS LP X sources cache_size (Some n) = Ok rl"
    and len: "table_len (rd_chunks re) = table_len (rd_chunks rl)"
    and vol: "volumes_precede_tables X (rd_segments re)"
  shows "readers_agree X re rl"
proof -
  obtain headers ordered e where e: "read_file_headers sources = Ok headers"
    "validate_and_reorder_segments sources (map (unat \<circ> fh_segment_number) headers) = Ok ordered"
    "fold_result (open_segment_v1 False X) (zip [0..<length ordered] ordered) open_state_init = Ok e"
    "re = \<lparr>rd_segments = ordered, rd_chunks = Eager (os_chunks e), rd_chunk_size = os_chunk_size e,
       rd_total_size = media_size_for (case headers of [] \<Rightarrow> Physical | h # _ \<Rightarrow> fh_kind h)
         (os_total_size e) (length (os_chunks e)) (os_chunk_size e),
       rd_position = 0, rd_cache = lru_new LP (max cache_size 1), rd_stored_md5 = os_stored_md5 e,
       rd_stored_sha1 = os_stored_sha1 e, rd_metadata = os_metadata e,
       rd_acquisition_errors = os_acquisition_errors e\<rparr>"
    using open_v1_run [OF eager] by (auto simp: Let_def)
  let ?lt = "\<lambda>l. lazy_new LS (os_index l) (os_chunk_size l) n"
  obtain l where l:
    "fold_result (open_segment_v1 True X) (zip [0..<length ordered] ordered) open_state_init = Ok l"
    "rl = \<lparr>rd_segments = ordered, rd_chunks = Lazy (?lt l),
       rd_chunk_size = os_chunk_size l,
       rd_total_size = media_size_for (case headers of [] \<Rightarrow> Physical | h # _ \<Rightarrow> fh_kind h)
         (os_total_size l) (lt_len (?lt l)) (os_chunk_size l),
       rd_position = 0, rd_cache = lru_new LP (max cache_size 1), rd_stored_md5 = os_stored_md5 l,
       rd_stored_sha1 = os_stored_sha1 l, rd_metadata = os_metadata l,
       rd_acquisition_errors = os_acquisition_errors l\<rparr>"
    using open_v1_run [OF lazy] e(1,2) by (auto simp: Let_def)
  have pos: "\<exists>content. positioned_source src content" if "src \<in> set ordered" for src
    using srcs reorder_subset [OF e(2)] that by blast
  have agree: "passes_agree X ordered e l"
    using segment_fold_agrees [OF laws pos, of ordered 0 open_state_init e open_state_init l]
      e(3,4) l(1) vol passes_agree_init by (simp add: open_state_init_def)
  then obtain ss where ss: "os_chunks e = concat ss" "list_all2 (\<lambda>m s.
      lazy_load X (os_chunk_size e) m ordered = Ok s \<and> length s \<le> sm_entry_count m) (os_index l) ss"
    and ix: "index_from 0 (os_index l)"
    by (auto simp: passes_agree_def)
  have ll: "lt_len (?lt l) = sum_list (map sm_entry_count (os_index l))"
    using ix by (rule lazy_len_index)
  have lens: "map length ss = map sm_entry_count (os_index l)"
    using ss len ll by (intro sum_list_le_eq) (auto simp: e(4) l(2) elim: list_all2_mono)
  have "lazy_lookup X (os_index l) (length (concat ss)) (os_chunk_size e) cid ordered =
      table_lookup X (Eager (concat ss)) cid ordered" for cid
    using ix ss(2) lens by (intro lazy_lookup_concat) (auto elim: list_all2_mono)
  moreover have "lt_len (?lt l) = length (concat ss)" using len ss(1) by (simp add: e(4) l(2))
  ultimately show ?thesis
    using agree len ss(1) by (simp add: readers_agree_def e(4) l(2) passes_agree_def lazy_new_def)
qed

section \<open>Properties\<close>

text \<open>C16: segments given in any order are accepted exactly when their numbers are 1 to their count,
  each once, and then the segment numbered \<open>n\<close> stands at position \<open>n - 1\<close>.
\<close>

theorem segment_order:
  assumes "length segs = length nums" and "length nums < 2 ^ 32"
  shows "validate_and_reorder_segments segs nums = Ok out \<longleftrightarrow>
    set nums = {1..length nums} \<and> length out = length nums \<and>
    (\<forall>i < length nums. out ! (nums ! i - 1) = segs ! i)"
proof
  assume ok: "validate_and_reorder_segments segs nums = Ok out"
  have "set nums = {1..length nums}" using reorder_Ok_iff [OF assms] ok by blast
  moreover have "length out = length nums"
  proof (cases "nums = []")
    case True
    then show ?thesis using ok assms(1) by (simp add: reorder_eq)
  next
    case False
    then show ?thesis using reorder_places(1) [OF assms ok, of 0] by simp
  qed
  ultimately show "set nums = {1..length nums} \<and> length out = length nums \<and>
      (\<forall>i < length nums. out ! (nums ! i - 1) = segs ! i)"
    using reorder_places(2) [OF assms ok] by blast
next
  assume r: "set nums = {1..length nums} \<and> length out = length nums \<and>
      (\<forall>i < length nums. out ! (nums ! i - 1) = segs ! i)"
  then obtain out' where ok: "validate_and_reorder_segments segs nums = Ok out'"
    using reorder_Ok_iff [OF assms] by blast
  have "out = out'"
  proof (rule nth_equalityI)
    show len: "length out = length out'"
      using r ok assms(1) reorder_places(1) [OF assms ok, of 0] by (cases "nums = []") (auto simp: reorder_eq)
    fix k assume "k < length out"
    then have "Suc k \<in> set nums" using r by auto
    then obtain i where "i < length nums" "nums ! i = Suc k" by (auto simp: in_set_conv_nth)
    then show "out ! k = out' ! k" using r reorder_places(2) [OF assms ok, of i] by force
  qed
  then show "validate_and_reorder_segments segs nums = Ok out" using ok by simp
qed

theorem segment_order_witness:
  "validate_and_reorder_segments [30, 10, 20 :: nat] [3, 1, 2] = Ok [10, 20, 30]"
  using segment_order [of "[30, 10, 20]" "[3, 1, 2]" "[10, 20, 30]"]
  by (auto simp: numeral_3_eq_3 less_Suc_eq)

text \<open>C17: walking the section descriptors of a segment always ends without an error, on any bytes: it
  returns the chain that starts after the file header, in which each descriptor names the next, the
  offsets ascend, and every descriptor lies inside the segment and was parsed at its own offset.
\<close>

theorem descriptor_walk_chain:
  assumes "positioned_source src content" and "length content < 2 ^ 63"
  shows "\<exists>ds. walk_segment X src = Ok ds \<and> chain_from X content FILE_HEADER_SIZE ds
    \<and> sorted_wrt (\<lambda>d e. sd_offset d < sd_offset e) ds"
  using walk_segment_chain [OF assms] by (metis chain_from_def forward_linked_sorted)

theorem descriptor_walk_chain_witness:
  "\<exists>ds. walk_segment ref_externals (Sub (replicate 300 255) 100 150) = Ok ds
    \<and> chain_from ref_externals (replicate 150 255) FILE_HEADER_SIZE ds
    \<and> sorted_wrt (\<lambda>d e. sd_offset d < sd_offset e) ds"
proof -
  have "positioned_source (Sub (replicate 300 255) 100 150) (replicate 150 255)"
    using sub_source [of 100 150 "replicate 300 255"] by (simp add: u64_max_def slice_def)
  then show ?thesis using descriptor_walk_chain by simp
qed

end
