(* ===== verification/Reader_Read.thy ===== *)
theory Reader_Read
  imports Reader_Open
begin

text \<open>
  Reading an open image, the rest of \<open>core/src/reader.rs\<close>: decompression of one chunk, the
  chunk cache, the positioned read, the \<open>Read\<close> and \<open>Seek\<close> implementations, verification
  against the stored hashes, and the accessors. Reads thread the reader, whose two caches
  change behind a shared reference in the code.
\<close>

section \<open>One chunk\<close>

text \<open>
  The inflate loop: \<open>page_len\<close> is the length of the page buffer, \<open>acc\<close> what has been
  written to it. It ends because a read that returns something leaves less room.
\<close>

function zlib_loop :: "externals \<Rightarrow> bytes \<Rightarrow> nat list \<Rightarrow> nat \<Rightarrow> bytes \<Rightarrow> bytes ewf_result" where
  "zlib_loop X compressed hist page_len acc =
    (case x_zlib_read X compressed hist (page_len - length acc) of
       None \<Rightarrow> Err Decompression
     | Some bs \<Rightarrow>
         if bs = [] then Ok acc
         else if page_len - length acc < length bs then Panic
         else zlib_loop X compressed (hist @ [page_len - length acc]) page_len (acc @ bs))"
  by pat_completeness auto
termination
proof (relation "measure (\<lambda>(X, c, hist, n, acc). n - length acc)", goal_cases)
  case (2 X c hist n acc bs)
  then have "0 < length bs" "length bs \<le> n - length acc" by simp_all
  then have "n - (length acc + length bs) < n - length acc" by arith
  then show ?case by simp
qed simp

declare zlib_loop.simps [simp del]

definition chunk_page ::
  "externals \<Rightarrow> SegmentSource list \<Rightarrow> nat \<Rightarrow> nat \<Rightarrow> Chunk \<Rightarrow> bytes ewf_result" where
  "chunk_page X segments chunk_size chunk_id chunk =
    (case get_at segments (chunk_segment_idx chunk) of
       None \<Rightarrow> Err (Parse (ChunkMissingSegment chunk_id (chunk_segment_idx chunk)))
     | Some src \<Rightarrow>
         if chunk_compressed chunk then
           and_then (read_at src (chunk_size_of chunk) (chunk_offset chunk)) (\<lambda>bs.
             if chunk_size_of chunk < length bs then Panic
             else map_ok (fill_buf chunk_size) (zlib_loop X bs [] chunk_size []))
         else
           let to_read = min (chunk_size_of chunk) chunk_size
           in and_then (read_at src to_read (chunk_offset chunk)) (\<lambda>bs.
                if length bs < to_read then Err (Io UnexpectedEof)
                else Ok (fill_buf chunk_size (take to_read bs))))"

definition decompress_chunk ::
  "('s, Chunk list) lru \<Rightarrow> externals \<Rightarrow> ('s, 'p) EwfReader \<Rightarrow> nat
    \<Rightarrow> bytes ewf_result \<times> ('s, 'p) EwfReader" where
  "decompress_chunk LS X r chunk_id =
    (if ISIZE_MAX < rd_chunk_size r then (Panic, r)
     else
       let (c, t) = table_get LS X (rd_chunks r) chunk_id (rd_segments r)
       in (and_then c (chunk_page X (rd_segments r) (rd_chunk_size r) chunk_id), r\<lparr>rd_chunks := t\<rparr>))"

definition read_chunk ::
  "('s, Chunk list) lru \<Rightarrow> ('p, bytes) lru \<Rightarrow> externals \<Rightarrow> ('s, 'p) EwfReader \<Rightarrow> nat
    \<Rightarrow> bytes ewf_result \<times> ('s, 'p) EwfReader" where
  "read_chunk LS LP X r chunk_id =
    (case lru_get LP (rd_cache r) chunk_id of
       (Some page, c) \<Rightarrow> (Ok page, r\<lparr>rd_cache := c\<rparr>)
     | (None, c) \<Rightarrow>
         (case decompress_chunk LS X (r\<lparr>rd_cache := c\<rparr>) chunk_id of
            (Ok page, r') \<Rightarrow> (Ok page, r'\<lparr>rd_cache := lru_put LP (rd_cache r') chunk_id page\<rparr>)
          | (e, r') \<Rightarrow> (e, r')))"

section \<open>Positioned reads\<close>

text \<open>
  The loop of \<open>read_at\<close> with a buffer of \<open>buf_len\<close> bytes; \<open>acc\<close> is the part already
  filled. A chunk size of zero is a division by zero.
\<close>

function read_at_loop ::
  "('s, Chunk list) lru \<Rightarrow> ('p, bytes) lru \<Rightarrow> externals \<Rightarrow> ('s, 'p) EwfReader \<Rightarrow> nat \<Rightarrow> nat \<Rightarrow> bytes
    \<Rightarrow> bytes ewf_result \<times> ('s, 'p) EwfReader" where
  "read_at_loop LS LP X r buf_len off acc =
    (if rd_chunk_size r = 0 then (Panic, r)
     else
       let cs = rd_chunk_size r;
           remaining_image = sat_sub (rd_total_size r) off;
           remaining_buf = buf_len - length acc;
           in_chunk = cs - off mod cs;
           to_read = min (min in_chunk remaining_image) remaining_buf
       in if to_read = 0 then (Ok acc, r)
          else
            let (res, r') = read_chunk LS LP X r (off div cs)
            in (case res of
                  Err e \<Rightarrow> (Err e, r')
                | Panic \<Rightarrow> (Panic, r')
                | Ok page \<Rightarrow>
                    (case get_range page (off mod cs) (off mod cs + to_read) of
                       None \<Rightarrow> (Panic, r')
                     | Some part \<Rightarrow>
                         if u64_max < off + to_read then (Panic, r')
                         else read_at_loop LS LP X r' buf_len (off + to_read) (acc @ part))))"
  by pat_completeness (elim Pair_inject, simp only:)
termination
proof (relation "measure (\<lambda>(LS, LP, X, r, n, off, acc). n - length acc)", goal_cases)
  case (2 LS LP X r n off acc cs ri rb ic to_read y res r' page part)
  from 2(11) have "length part = to_read" by auto
  moreover from 2(4,6,7) have "0 < to_read" "to_read \<le> n - length acc" by auto
  ultimately show ?case by simp
qed simp

declare read_at_loop.simps [simp del]

definition reader_read_at ::
  "('s, Chunk list) lru \<Rightarrow> ('p, bytes) lru \<Rightarrow> externals \<Rightarrow> ('s, 'p) EwfReader \<Rightarrow> nat \<Rightarrow> nat
    \<Rightarrow> bytes ewf_result \<times> ('s, 'p) EwfReader" where
  "reader_read_at LS LP X r n offset = read_at_loop LS LP X r n offset []"

section \<open>Read and Seek\<close>

definition reader_read ::
  "('s, Chunk list) lru \<Rightarrow> ('p, bytes) lru \<Rightarrow> externals \<Rightarrow> ('s, 'p) EwfReader \<Rightarrow> nat
    \<Rightarrow> bytes ewf_result \<times> ('s, 'p) EwfReader" where
  "reader_read LS LP X r n =
    (case reader_read_at LS LP X r n (rd_position r) of
       (Ok bs, r') \<Rightarrow>
         if u64_max < rd_position r' + length bs then (Panic, r')
         else (Ok bs, r'\<lparr>rd_position := rd_position r' + length bs\<rparr>)
     | (Err e, r') \<Rightarrow> (Err (Io OtherIo), r')
     | (Panic, r') \<Rightarrow> (Panic, r'))"

definition reader_seek :: "('s, 'p) EwfReader \<Rightarrow> SeekFrom \<Rightarrow> (nat \<times> ('s, 'p) EwfReader) ewf_result" where
  "reader_seek r from =
    map_ok (\<lambda>p. (p, r\<lparr>rd_position := p\<rparr>)) (seek_target from (rd_total_size r) (rd_position r))"

section \<open>Verification\<close>

text \<open>
  One batch of pages, in order. The code decompresses the chunks of a batch in parallel and
  collects them in order; when several fail it may report any of their errors, the model the
  first.
\<close>

fun decompress_batch ::
  "('s, Chunk list) lru \<Rightarrow> externals \<Rightarrow> nat list \<Rightarrow> ('s, 'p) EwfReader
    \<Rightarrow> bytes list ewf_result \<times> ('s, 'p) EwfReader" where
  "decompress_batch LS X [] r = (Ok [], r)"
| "decompress_batch LS X (ci # cis) r =
    (case decompress_chunk LS X r ci of
       (Ok page, r') \<Rightarrow>
         (let (rest, r'') = decompress_batch LS X cis r' in (map_ok ((#) page) rest, r''))
     | (Err e, r') \<Rightarrow> (Err e, r')
     | (Panic, r') \<Rightarrow> (Panic, r'))"

text \<open>The bytes fed to the hashers, after \<open>fed\<close>: each page cut to what the image still has.\<close>

fun feed_pages :: "nat \<Rightarrow> bytes list \<Rightarrow> bytes \<Rightarrow> bytes" where
  "feed_pages total_size [] fed = fed"
| "feed_pages total_size (page # pages) fed =
    feed_pages total_size pages (fed @ take (min (length page) (sat_sub total_size (length fed))) page)"

text \<open>The loop over the batches, \<open>(0..chunk_count).step_by(batch)\<close>.\<close>

function verify_loop ::
  "('s, Chunk list) lru \<Rightarrow> externals \<Rightarrow> nat \<Rightarrow> nat \<Rightarrow> nat \<Rightarrow> ('s, 'p) EwfReader \<Rightarrow> bytes
    \<Rightarrow> bytes ewf_result \<times> ('s, 'p) EwfReader" where
  "verify_loop LS X chunk_count batch start r fed =
    (if chunk_count \<le> start \<or> batch = 0 then (Ok fed, r)
     else if u64_max < start + batch then (Panic, r)
     else
       case decompress_batch LS X [start..<min (start + batch) chunk_count] r of
         (Ok pages, r') \<Rightarrow>
           verify_loop LS X chunk_count batch (start + batch) r'
             (feed_pages (rd_total_size r') pages fed)
       | (Err e, r') \<Rightarrow> (Err e, r')
       | (Panic, r') \<Rightarrow> (Panic, r'))"
  by pat_completeness (elim Pair_inject, simp only:)
termination
  by (relation "measure (\<lambda>(LS, X, n, b, start, r, fed). n - start)") auto

declare verify_loop.simps [simp del]

definition batch_size :: "nat \<Rightarrow> nat" where
  "batch_size threads = max (sat_mul threads 4) 1"

definition verify ::
  "('s, Chunk list) lru \<Rightarrow> externals \<Rightarrow> nat \<Rightarrow> ('s, 'p) EwfReader
    \<Rightarrow> VerifyResult ewf_result \<times> ('s, 'p) EwfReader" where
  "verify LS X threads r =
    (let (fed, r') = verify_loop LS X (table_len (rd_chunks r)) (batch_size threads) 0 r []
     in (and_then fed (\<lambda>bs.
           let computed_md5 = x_md5 X bs;
               computed_sha1 = (if rd_stored_sha1 r = None then None else Some (x_sha1 X bs))
           in map_ok (\<lambda>addressable.
                \<lparr>vr_computed_md5 = computed_md5,
                 vr_computed_sha1 = computed_sha1,
                 vr_md5_match = map_option (\<lambda>stored. stored = computed_md5) (rd_stored_md5 r),
                 vr_sha1_match = (case (rd_stored_sha1 r, computed_sha1) of
                                    (Some stored, Some computed) \<Rightarrow> Some (stored = computed)
                                  | _ \<Rightarrow> None),
                 vr_addressable_bytes = addressable,
                 vr_declared_bytes = rd_total_size r\<rparr>)
              (plain_mul (rd_chunk_size r) (table_len (rd_chunks r)))), r'))"

section \<open>Accessors\<close>

definition chunk_count :: "('s, 'p) EwfReader \<Rightarrow> nat" where
  "chunk_count r = table_len (rd_chunks r)"

definition is_lazy :: "('s, 'p) EwfReader \<Rightarrow> bool" where
  "is_lazy r = (case rd_chunks r of Lazy _ \<Rightarrow> True | Eager _ \<Rightarrow> False)"

definition stored_hashes :: "('s, 'p) EwfReader \<Rightarrow> StoredHashes" where
  "stored_hashes r = \<lparr>sh_md5 = rd_stored_md5 r, sh_sha1 = rd_stored_sha1 r\<rparr>"

definition debug_chunk ::
  "('s, Chunk list) lru \<Rightarrow> externals \<Rightarrow> ('s, 'p) EwfReader \<Rightarrow> nat
    \<Rightarrow> (nat \<times> nat \<times> bool \<times> nat) ewf_result \<times> ('s, 'p) EwfReader" where
  "debug_chunk LS X r idx =
    (let (c, t) = table_get LS X (rd_chunks r) idx (rd_segments r)
     in (map_ok (\<lambda>c. (chunk_offset c, chunk_size_of c, chunk_compressed c, chunk_segment_idx c)) c,
         r\<lparr>rd_chunks := t\<rparr>))"

section \<open>The image source of the virtual file system\<close>

text \<open>The \<open>ImageSource\<close> implementation of \<open>core/src/vfs.rs\<close>, a delegation.\<close>

datatype VfsError = VfsIo EwfError

definition vfs_len :: "('s, 'p) EwfReader \<Rightarrow> nat" where
  "vfs_len r = rd_total_size r"

definition vfs_read_at ::
  "('s, Chunk list) lru \<Rightarrow> ('p, bytes) lru \<Rightarrow> externals \<Rightarrow> ('s, 'p) EwfReader \<Rightarrow> nat \<Rightarrow> nat
    \<Rightarrow> (VfsError, bytes) result \<times> ('s, 'p) EwfReader" where
  "vfs_read_at LS LP X r offset n =
    (let (res, r') = reader_read_at LS LP X r n offset
     in (case res of Ok bs \<Rightarrow> Ok bs | Err e \<Rightarrow> Err (VfsIo e) | Panic \<Rightarrow> Panic, r'))"

end
