(* ===== verification/Read_Correct.thy ===== *)
theory Read_Correct
  imports Reader_Read
begin

text \<open>
  What reading an open image returns. The page of a chunk is what decompressing it without
  any cache gives; the image is the pages one after the other, cut to the media size. Under
  the contracts of the two caches every read answers from the image, whatever was read
  before, and the hashes that verification computes are those of the image.
\<close>

section \<open>Pages and the image\<close>

definition page_at :: "externals \<Rightarrow> ('s, 'p) EwfReader \<Rightarrow> nat \<Rightarrow> bytes ewf_result" where
  "page_at X r cid =
    (if ISIZE_MAX < rd_chunk_size r then Panic
     else and_then (table_lookup X (rd_chunks r) cid (rd_segments r))
            (chunk_page X (rd_segments r) (rd_chunk_size r) cid))"

lemma page_at_cong:
  assumes "rd_chunks r' = rd_chunks r" and "rd_segments r' = rd_segments r" and "rd_chunk_size r' = rd_chunk_size r"
  shows "page_at X r' = page_at X r"
  using assms by (intro ext) (simp add: page_at_def)

lemma page_at_position [simp]: "page_at X (r\<lparr>rd_position := p\<rparr>) = page_at X r"
  by (rule page_at_cong) simp_all

definition media_image :: "('s, 'p) EwfReader \<Rightarrow> bytes list \<Rightarrow> bytes" where
  "media_image r pages = take (rd_total_size r) (concat pages)"

text \<open>A reader all of whose chunks decompress, to \<open>pages\<close>, and cover the media size.\<close>

definition intact :: "externals \<Rightarrow> ('s, 'p) EwfReader \<Rightarrow> bytes list \<Rightarrow> bool" where
  "intact X r pages \<longleftrightarrow>
    0 < rd_chunk_size r \<and> rd_total_size r \<le> u64_max \<and>
    table_len (rd_chunks r) = length pages \<and>
    rd_total_size r \<le> length pages * rd_chunk_size r \<and>
    map (page_at X r) [0..<length pages] = map Ok pages"

lemma chunk_page_length: "chunk_page X segs cs cid c = Ok page \<Longrightarrow> length page = cs"
  by (auto simp: chunk_page_def Let_def split: option.splits if_splits)

lemma page_at_length: "page_at X r cid = Ok page \<Longrightarrow> length page = rd_chunk_size r"
  by (auto simp: page_at_def dest: chunk_page_length split: if_splits)

lemma intact_page: "intact X r pages \<Longrightarrow> i < length pages \<Longrightarrow> page_at X r i = Ok (pages ! i)"
proof -
  assume "intact X r pages" and i: "i < length pages"
  then have "map (page_at X r) [0..<length pages] ! i = map Ok pages ! i" by (simp add: intact_def)
  with i show ?thesis by simp
qed

lemma intact_length: "intact X r pages \<Longrightarrow> p \<in> set pages \<Longrightarrow> length p = rd_chunk_size r"
  by (metis in_set_conv_nth intact_page page_at_length)

lemma length_image: "intact X r pages \<Longrightarrow> length (media_image r pages) = rd_total_size r"
  using concat_equal_length [of pages "rd_chunk_size r"] intact_length [of X r pages]
  by (simp add: media_image_def intact_def)

section \<open>Readers that differ in their caches\<close>

definition same_reader :: "('s, 'p) EwfReader \<Rightarrow> ('s, 'p) EwfReader \<Rightarrow> bool" where
  "same_reader r r' \<longleftrightarrow> same_table (rd_chunks r) (rd_chunks r') \<and>
    rd_segments r' = rd_segments r \<and> rd_chunk_size r' = rd_chunk_size r \<and>
    rd_total_size r' = rd_total_size r \<and> rd_position r' = rd_position r \<and>
    rd_stored_md5 r' = rd_stored_md5 r \<and> rd_stored_sha1 r' = rd_stored_sha1 r \<and>
    rd_metadata r' = rd_metadata r \<and> rd_acquisition_errors r' = rd_acquisition_errors r"

lemma same_reader_refl [simp]: "same_reader r r"
  by (simp add: same_reader_def)

lemma same_reader_sel:
  assumes "same_reader r r'"
  shows "rd_segments r' = rd_segments r" "rd_chunk_size r' = rd_chunk_size r"
    "rd_total_size r' = rd_total_size r" "rd_position r' = rd_position r"
    "rd_stored_md5 r' = rd_stored_md5 r" "rd_stored_sha1 r' = rd_stored_sha1 r"
    "table_len (rd_chunks r') = table_len (rd_chunks r)"
  using assms by (simp_all add: same_reader_def same_table_len)

lemma same_reader_trans: "same_reader r s \<Longrightarrow> same_reader s t \<Longrightarrow> same_reader r t"
  by (auto simp: same_reader_def intro: same_table_trans)

lemma same_reader_page: "same_reader r r' \<Longrightarrow> page_at X r' = page_at X r"
  using same_table_lookup [of "rd_chunks r" "rd_chunks r'" X]
  by (intro ext) (auto simp: page_at_def same_reader_def)

lemma same_reader_intact: "same_reader r r' \<Longrightarrow> intact X r' pages = intact X r pages"
  by (simp add: intact_def same_reader_sel same_reader_page)

lemma same_reader_image: "same_reader r r' \<Longrightarrow> media_image r' pages = media_image r pages"
  by (simp add: media_image_def same_reader_sel)

section \<open>The positioned read without caches\<close>

function read_at_ref ::
  "(nat \<Rightarrow> bytes ewf_result) \<Rightarrow> nat \<Rightarrow> nat \<Rightarrow> nat \<Rightarrow> nat \<Rightarrow> bytes \<Rightarrow> bytes ewf_result" where
  "read_at_ref page cs media buf_len off acc =
    (let to_read = min (min (cs - off mod cs) (media - off)) (buf_len - length acc)
     in if cs = 0 then Panic
        else if to_read = 0 then Ok acc
        else and_then (page (off div cs)) (\<lambda>p.
          (case get_range p (off mod cs) (off mod cs + to_read) of
             None \<Rightarrow> Panic
           | Some part \<Rightarrow>
               if u64_max < off + to_read then Panic
               else read_at_ref page cs media buf_len (off + to_read) (acc @ part))))"
  by pat_completeness auto
termination
proof (relation "measure (\<lambda>(page, cs, media, n, off, acc). n - length acc)", goal_cases)
  case (2 page cs media n off acc to_read p part)
  from 2(4) have "length part = to_read" by auto
  moreover from 2(1,3) have "0 < to_read" "to_read \<le> n - length acc" by auto
  ultimately show ?case by simp
qed simp

declare read_at_ref.simps [simp del]

lemma read_at_ref_image:
  assumes "0 < cs" and "media \<le> u64_max" and "media \<le> length pages * cs"
    and pages: "\<And>i. i < length pages \<Longrightarrow> page i = Ok (pages ! i)"
    and len: "\<And>p. p \<in> set pages \<Longrightarrow> length p = cs" and "length acc \<le> n"
  shows "read_at_ref page cs media n off acc =
    Ok (acc @ take (n - length acc) (drop off (take media (concat pages))))"
  using assms(6)
proof (induction "n - length acc" arbitrary: off acc rule: less_induct)
  case less
  define t where "t = min (min (cs - off mod cs) (media - off)) (n - length acc)"
  note unfolded = read_at_ref.simps [of page cs media n off acc, folded t_def]
  let ?img = "take media (concat pages)"
  have limg: "length ?img = media"
    using concat_equal_length [of pages cs, OF len] assms(3) by simp
  show ?case
  proof (cases "t = 0")
    case True
    have "cs - off mod cs \<noteq> 0" using mod_less_divisor [OF assms(1), of off] by simp
    with True have "n - length acc = 0 \<or> media \<le> off" by (auto simp: t_def min_def split: if_splits)
    then have "take (n - length acc) (drop off ?img) = []" using limg by auto
    then show ?thesis using True assms(1) by (simp add: unfolded)
  next
    case False
    let ?i = "off div cs" and ?a = "off mod cs"
    have bounds: "t \<le> cs - off mod cs" "t \<le> media - off" "t \<le> n - length acc" by (simp_all add: t_def)
    then have in_img: "off + t \<le> media" using False by linarith
    have at: "off = ?i * cs + ?a" by simp
    have "?i * cs < length pages * cs" using in_img False assms(3) at by linarith
    then have i: "?i < length pages" using assms(1) by simp
    then have lp: "length (pages ! ?i) = cs" using len by simp
    have a: "?a + t \<le> cs" using bounds mod_less_divisor [OF assms(1), of off] by linarith
    have part: "slice ?a (?a + t) (pages ! ?i) = slice off (off + t) ?img"
    proof -
      have "slice ?a (?a + t) (pages ! ?i) = slice (?i * cs + ?a) (?i * cs + (?a + t)) (concat pages)"
        using slice_concat_equal [of pages cs ?i ?a "?a + t", OF len i _ a] by simp
      also have "\<dots> = slice off (off + t) (concat pages)" using at by (simp add: add.assoc [symmetric])
      also have "\<dots> = slice off (off + t) ?img" using in_img by (simp add: slice_def drop_take min_def)
      finally show ?thesis .
    qed
    let ?acc = "acc @ slice off (off + t) ?img"
    have lacc: "length ?acc = length acc + t" using in_img limg by simp
    have "read_at_ref page cs media n off acc = read_at_ref page cs media n (off + t) ?acc"
      using False assms(1,2) pages [OF i] lp a in_img part
      by (simp add: unfolded get_range_def)
    also have "\<dots> = Ok (?acc @ take (n - length ?acc) (drop (off + t) ?img))"
      using less.hyps [of ?acc "off + t"] lacc False bounds less.prems by simp
    also have "?acc @ take (n - length ?acc) (drop (off + t) ?img) =
        acc @ take (n - length acc) (drop off ?img)"
    proof -
      have "n - length acc = t + (n - length ?acc)" using lacc bounds less.prems by linarith
      then have "take (n - length acc) (drop off ?img) =
          take t (drop off ?img) @ take (n - length ?acc) (drop t (drop off ?img))"
        by (metis take_add)
      then show ?thesis by (simp add: slice_def add.commute)
    qed
    finally show ?thesis .
  qed
qed

section \<open>Reads through the caches\<close>

text \<open>
  The two caches of the reader under their contracts: sections by index position, pages by
  chunk id. A reader is coherent when both hold only what the uncached operations give.
\<close>

locale reader_caches = S: lru_cache LS viewS + P: lru_cache LP viewP
  for LS :: "('s, Chunk list) lru" and viewS :: "'s \<Rightarrow> nat \<rightharpoonup> Chunk list"
    and LP :: "('p, bytes) lru" and viewP :: "'p \<Rightarrow> nat \<rightharpoonup> bytes"
begin

definition reader_coherent :: "externals \<Rightarrow> ('s, 'p) EwfReader \<Rightarrow> bool" where
  "reader_coherent X r \<longleftrightarrow> table_coherent viewS X (rd_segments r) (rd_chunks r) \<and>
    P.coherent (\<lambda>cid p. page_at X r cid = Ok p) (rd_cache r)"

lemma table_get_coherent:
  assumes coh: "reader_coherent X r" and g: "table_get LS X (rd_chunks r) cid (rd_segments r) = (c, t)"
  shows "c = table_lookup X (rd_chunks r) cid (rd_segments r) \<and> same_reader r (r\<lparr>rd_chunks := t\<rparr>)
    \<and> reader_coherent X (r\<lparr>rd_chunks := t\<rparr>)"
proof -
  have t: "c = table_lookup X (rd_chunks r) cid (rd_segments r) \<and> same_table (rd_chunks r) t
      \<and> table_coherent viewS X (rd_segments r) t"
    using coh g S.lru_cache_axioms by (intro table_get_transparent) (auto simp: reader_coherent_def)
  then have same: "same_reader r (r\<lparr>rd_chunks := t\<rparr>)" by (simp add: same_reader_def)
  then show ?thesis using coh t same_reader_page [OF same, of X] by (simp add: reader_coherent_def)
qed

lemma decompress_chunk_page:
  assumes coh: "reader_coherent X r" and d: "decompress_chunk LS X r cid = (res, r')"
  shows "res = page_at X r cid \<and> same_reader r r' \<and> reader_coherent X r' \<and> rd_cache r' = rd_cache r"
proof -
  obtain c t where g: "table_get LS X (rd_chunks r) cid (rd_segments r) = (c, t)" by fastforce
  then show ?thesis
    using d coh table_get_coherent [OF coh g]
    by (auto simp: decompress_chunk_def page_at_def split: if_splits)
qed

lemma read_chunk_page:
  assumes coh: "reader_coherent X r" and d: "read_chunk LS LP X r cid = (res, r')"
  shows "res = page_at X r cid \<and> same_reader r r' \<and> reader_coherent X r'"
proof -
  let ?P = "\<lambda>cid p. page_at X r cid = Ok p"
  obtain h c where h: "lru_get LP (rd_cache r) cid = (h, c)" by fastforce
  let ?r = "r\<lparr>rd_cache := c\<rparr>"
  have pcoh: "P.coherent ?P (rd_cache r)" using coh by (simp add: reader_coherent_def)
  have same: "same_reader r ?r" by (simp add: same_reader_def)
  have coh1: "reader_coherent X ?r"
    using coh P.coherent_get [OF pcoh h] same_reader_page [OF same, of X]
    by (simp add: reader_coherent_def)
  show ?thesis
  proof (cases h)
    case (Some page)
    then have "page_at X r cid = Ok page" using P.get_hit [OF pcoh, of cid page c] h by simp
    then show ?thesis using d h Some same coh1 by (auto simp: read_chunk_def)
  next
    case None
    obtain res2 r2 where d2: "decompress_chunk LS X ?r cid = (res2, r2)" by fastforce
    have two: "res2 = page_at X r cid" "same_reader r r2" "reader_coherent X r2"
      using decompress_chunk_page [OF coh1 d2] same_reader_page [OF same, of X]
        same_reader_trans [OF same] by auto
    have put: "res2 = Ok page \<Longrightarrow> reader_coherent X (r2\<lparr>rd_cache := lru_put LP (rd_cache r2) cid page\<rparr>)"
      and same2: "same_reader r (r2\<lparr>rd_cache := lru_put LP (rd_cache r2) cid page\<rparr>)" for page
    proof -
      let ?r2 = "r2\<lparr>rd_cache := lru_put LP (rd_cache r2) cid page\<rparr>"
      have s: "same_reader r2 ?r2" by (simp add: same_reader_def)
      show "same_reader r ?r2" by (rule same_reader_trans [OF two(2) s])
      assume "res2 = Ok page"
      then have "P.coherent (\<lambda>cid p. page_at X r2 cid = Ok p) (lru_put LP (rd_cache r2) cid page)"
        using two same_reader_page [OF two(2), of X]
        by (intro P.coherent_put) (auto simp: reader_coherent_def)
      then show "reader_coherent X ?r2"
        using two(3) same_reader_page [OF s, of X] by (simp add: reader_coherent_def)
    qed
    show ?thesis
      using d h None d2 two put same2 by (auto simp: read_chunk_def split: result.splits)
  qed
qed

lemma read_at_loop_ref:
  assumes "reader_coherent X r" and "read_at_loop LS LP X r n off acc = (res, r')"
  shows "res = read_at_ref (page_at X r) (rd_chunk_size r) (rd_total_size r) n off acc
    \<and> same_reader r r' \<and> reader_coherent X r'"
  using assms
proof (induction "n - length acc" arbitrary: r off acc rule: less_induct)
  case less
  define cs where "cs = rd_chunk_size r"
  define t where "t = min (min (cs - off mod cs) (rd_total_size r - off)) (n - length acc)"
  note ref = read_at_ref.simps [of "page_at X r" cs "rd_total_size r" n off acc, folded t_def]
  note loop = read_at_loop.simps [of LS LP X r n off acc, folded cs_def, unfolded Let_def, folded t_def]
  obtain res1 r1 where one: "read_chunk LS LP X r (off div cs) = (res1, r1)" by fastforce
  note page = read_chunk_page [OF less.prems(1) one]
  show ?case
  proof (cases "cs = 0 \<or> t = 0")
    case True
    then show ?thesis using less.prems by (auto simp: loop ref cs_def [symmetric])
  next
    case False
    show ?thesis
    proof (cases "page_at X r (off div cs)")
      case (Ok p)
      with page one have read: "read_chunk LS LP X r (off div cs) = (Ok p, r1)" by simp
      show ?thesis
      proof (cases "get_range p (off mod cs) (off mod cs + t) = None \<or> u64_max < off + t")
        case True
        then show ?thesis using less.prems False read page Ok
          by (auto simp: loop ref cs_def [symmetric] get_range_None split: option.splits)
      next
        case inside: False
        then obtain part where part: "get_range p (off mod cs) (off mod cs + t) = Some part" by auto
        then have lpart: "length part = t" by auto
        have "t \<le> n - length acc" by (simp add: t_def)
        then have dec: "n - length (acc @ part) < n - length acc"
          using lpart False unfolding length_append by linarith
        have step: "read_at_loop LS LP X r n off acc = read_at_loop LS LP X r1 n (off + t) (acc @ part)"
          using False inside by (simp add: loop read part del: get_range_Some)
        have "res = read_at_ref (page_at X r1) (rd_chunk_size r1) (rd_total_size r1) n (off + t) (acc @ part)
            \<and> same_reader r1 r' \<and> reader_coherent X r'"
          using page less.prems(2) dec step by (intro less.hyps) auto
        moreover have "read_at_ref (page_at X r) cs (rd_total_size r) n off acc =
            read_at_ref (page_at X r) cs (rd_total_size r) n (off + t) (acc @ part)"
          using False inside by (simp add: ref Ok part del: get_range_Some)
        ultimately show ?thesis
          using page same_reader_trans [of r r1 r'] same_reader_page [of r r1 X]
            same_reader_sel [of r r1]
          by (simp add: cs_def)
      qed
    next
      case (Err e)
      with page one have "read_chunk LS LP X r (off div cs) = (Err e, r1)" by simp
      then have "res = Err e" "r' = r1" using less.prems(2) False by (simp_all add: loop)
      then show ?thesis using False page Err by (simp add: ref cs_def [symmetric])
    next
      case Panic
      with page one have "read_chunk LS LP X r (off div cs) = (Panic, r1)" by simp
      then show ?thesis using less.prems False page Panic by (auto simp: loop ref cs_def [symmetric])
    qed
  qed
qed

lemma read_at_image:
  assumes "reader_coherent X r" and "intact X r pages"
    and "reader_read_at LS LP X r n off = (res, r')"
  shows "res = Ok (take n (drop off (media_image r pages))) \<and> same_reader r r' \<and> reader_coherent X r'"
proof -
  have "read_at_ref (page_at X r) (rd_chunk_size r) (rd_total_size r) n off [] =
      Ok ([] @ take (n - length ([] :: bytes)) (drop off (take (rd_total_size r) (concat pages))))"
    by (rule read_at_ref_image [OF _ _ _ intact_page [OF assms(2)] intact_length [OF assms(2)]])
      (use assms(2) in \<open>auto simp: intact_def\<close>)
  then show ?thesis
    using read_at_loop_ref [OF assms(1)] assms(3) by (simp add: reader_read_at_def media_image_def)
qed

lemma coherent_position: "reader_coherent X (r\<lparr>rd_position := p\<rparr>) = reader_coherent X r"
  by (simp add: reader_coherent_def)

lemma read_image:
  assumes "reader_coherent X r" and "intact X r pages"
    and "rd_position r \<le> u64_max" and "reader_read LS LP X r n = (res, r')"
  shows "res = Ok (take n (drop (rd_position r) (media_image r pages))) \<and> reader_coherent X r' \<and>
    same_reader (r\<lparr>rd_position := rd_position r + length (take n (drop (rd_position r) (media_image r pages)))\<rparr>) r'"
proof -
  let ?bs = "take n (drop (rd_position r) (media_image r pages))"
  obtain res1 r1 where one: "reader_read_at LS LP X r n (rd_position r) = (res1, r1)" by fastforce
  note rd = read_at_image [OF assms(1,2) one]
  have "rd_position r + length ?bs \<le> u64_max"
    using assms(3) length_image [OF assms(2)] assms(2) by (auto simp: intact_def)
  then have "reader_read LS LP X r n = (Ok ?bs, r1\<lparr>rd_position := rd_position r1 + length ?bs\<rparr>)"
    using one rd same_reader_sel [of r r1] by (simp add: reader_read_def)
  then show ?thesis using assms(4) rd by (auto simp: coherent_position same_reader_def)
qed

lemma decompress_batch_pages:
  assumes "reader_coherent X r" and "intact X r pages" and "\<And>c. c \<in> set cids \<Longrightarrow> c < length pages"
  shows "\<exists>r'. decompress_batch LS X cids r = (Ok (map (\<lambda>c. pages ! c) cids), r') \<and> same_reader r r'
    \<and> reader_coherent X r'"
  using assms
proof (induction cids arbitrary: r)
  case (Cons c cids)
  obtain res r1 where one: "decompress_chunk LS X r c = (res, r1)" by fastforce
  have d: "res = Ok (pages ! c)" "same_reader r r1" "reader_coherent X r1"
    using decompress_chunk_page [OF Cons.prems(1) one] intact_page [OF Cons.prems(2), of c] Cons.prems(3)
    by simp_all
  obtain r' where "decompress_batch LS X cids r1 = (Ok (map (\<lambda>c. pages ! c) cids), r')"
    "same_reader r1 r'" "reader_coherent X r'"
    using Cons.IH [OF d(3)] Cons.prems d(2) by (auto simp: same_reader_intact)
  then show ?case using one d same_reader_trans [OF d(2)] by auto
qed simp

end

section \<open>Verification\<close>

lemma feed_pages_take:
  "feed_pages media pages (take media fed) = take media (fed @ concat pages)"
proof (induction pages arbitrary: fed)
  case (Cons p pages)
  have "take media fed @ take (min (length p) (media - length (take media fed))) p = take media (fed @ p)"
    by (cases "media \<le> length fed") (auto simp: min_def)
  then show ?case using Cons [of "fed @ p"] by simp
qed simp

context reader_caches
begin

lemma verify_loop_image:
  assumes "reader_coherent X r" and "intact X r pages" and "0 < batch"
    and "length pages + batch \<le> u64_max" and "start \<le> length pages + batch"
  shows "\<exists>r'. verify_loop LS X (length pages) batch start r (take (rd_total_size r) (concat (take start pages)))
      = (Ok (media_image r pages), r') \<and> same_reader r r' \<and> reader_coherent X r'"
  using assms(1,2,5)
proof (induction "length pages - start" arbitrary: r start rule: less_induct)
  case less
  note unfolded = verify_loop.simps [of LS X "length pages" batch start r]
  show ?case
  proof (cases "length pages \<le> start")
    case True
    then show ?thesis using less.prems by (simp add: unfolded media_image_def)
  next
    case False
    let ?e = "min (start + batch) (length pages)"
    have dec: "length pages - (start + batch) < length pages - start" using False assms(3) by linarith
    obtain r1 where one: "decompress_batch LS X [start..<?e] r = (Ok (map (\<lambda>c. pages ! c) [start..<?e]), r1)"
      "same_reader r r1" "reader_coherent X r1"
      using decompress_batch_pages [OF less.prems(1,2), of "[start..<?e]"] by auto
    have "take start pages @ map (\<lambda>c. pages ! c) [start..<?e] = take (start + batch) pages"
      using False by (rule_tac nth_equalityI) (auto simp: nth_append min_def split: if_splits)
    then have "concat (take start pages) @ concat (map (\<lambda>c. pages ! c) [start..<?e]) =
        concat (take (start + batch) pages)"
      by (metis concat_append)
    then have "feed_pages (rd_total_size r) (map (\<lambda>c. pages ! c) [start..<?e])
        (take (rd_total_size r) (concat (take start pages))) =
        take (rd_total_size r) (concat (take (start + batch) pages))"
      by (simp add: feed_pages_take)
    then have step: "verify_loop LS X (length pages) batch start r
        (take (rd_total_size r) (concat (take start pages))) =
      verify_loop LS X (length pages) batch (start + batch) r1
        (take (rd_total_size r1) (concat (take (start + batch) pages)))"
      using False assms(3,4) one same_reader_sel [OF one(2)] by (simp add: unfolded)
    obtain r' where "verify_loop LS X (length pages) batch (start + batch) r1
        (take (rd_total_size r1) (concat (take (start + batch) pages))) = (Ok (media_image r1 pages), r')"
      "same_reader r1 r'" "reader_coherent X r'"
      using less.hyps [of "start + batch" r1] one less.prems(2) dec False
      by (auto simp: same_reader_intact)
    then show ?thesis using step one(2) same_reader_trans [of r r1 r']
      by (auto simp: same_reader_image)
  qed
qed

end

section \<open>Sequences of reads and seeks\<close>

text \<open>
  A session on a reader, and the same session on the cursor of \<open>segment_source.rs\<close> over a
  buffer: what each operation returned. A panic ends the session.
\<close>

datatype reader_op = OpRead nat | OpSeek SeekFrom

datatype reader_out = OutBytes "bytes ewf_result" | OutPos "nat ewf_result"

fun run_reader ::
  "('s, Chunk list) lru \<Rightarrow> ('p, bytes) lru \<Rightarrow> externals \<Rightarrow> ('s, 'p) EwfReader \<Rightarrow> reader_op list
    \<Rightarrow> reader_out list" where
  "run_reader LS LP X r [] = []"
| "run_reader LS LP X r (OpRead n # ops) =
    (case reader_read LS LP X r n of
       (Panic, r') \<Rightarrow> [OutBytes Panic]
     | (res, r') \<Rightarrow> OutBytes res # run_reader LS LP X r' ops)"
| "run_reader LS LP X r (OpSeek sk # ops) =
    (case reader_seek r sk of
       Ok (p, r') \<Rightarrow> OutPos (Ok p) # run_reader LS LP X r' ops
     | Err e \<Rightarrow> OutPos (Err e) # run_reader LS LP X r ops
     | Panic \<Rightarrow> [OutPos Panic])"

fun run_cursor :: "SegmentCursor \<Rightarrow> reader_op list \<Rightarrow> reader_out list" where
  "run_cursor c [] = []"
| "run_cursor c (OpRead n # ops) =
    (case cursor_read c n of
       Ok (bs, c') \<Rightarrow> OutBytes (Ok bs) # run_cursor c' ops
     | Err e \<Rightarrow> OutBytes (Err e) # run_cursor c ops
     | Panic \<Rightarrow> [OutBytes Panic])"
| "run_cursor c (OpSeek sk # ops) =
    (case cursor_seek c sk of
       Ok (p, c') \<Rightarrow> OutPos (Ok p) # run_cursor c' ops
     | Err e \<Rightarrow> OutPos (Err e) # run_cursor c ops
     | Panic \<Rightarrow> [OutPos Panic])"

text \<open>The argument of \<open>SeekFrom::Start\<close> is a \<open>u64\<close>.\<close>

fun op_in_range :: "reader_op \<Rightarrow> bool" where
  "op_in_range (OpSeek (SeekStart p)) \<longleftrightarrow> p \<le> u64_max"
| "op_in_range _ \<longleftrightarrow> True"

lemma seek_target_range:
  assumes "op_in_range (OpSeek sk)" and "seek_target sk len pos = Ok p"
  shows "p \<le> u64_max"
proof (cases sk)
  case (SeekStart q)
  then show ?thesis
    using assms by (auto simp: seek_target_def as_i64_def u64_max_def split: if_splits)
next
  case (SeekEnd q)
  then show ?thesis
    using assms by (auto simp: seek_target_def i64_add_def u64_max_def split: if_splits)
next
  case (SeekCurrent q)
  then show ?thesis
    using assms by (auto simp: seek_target_def i64_add_def u64_max_def split: if_splits)
qed

context reader_caches
begin

lemma run_reader_cursor:
  assumes "reader_coherent X r" and "intact X r pages" and "rd_position r \<le> u64_max"
    and "list_all op_in_range ops"
  shows "run_reader LS LP X r ops =
    run_cursor \<lparr>cur_src = Mem (media_image r pages), cur_pos = rd_position r\<rparr> ops"
  using assms
proof (induction ops arbitrary: r)
  case (Cons op ops)
  let ?img = "media_image r pages"
  have len: "length ?img = rd_total_size r" using length_image [OF Cons.prems(2)] .
  show ?case
  proof (cases op)
    case (OpRead n)
    let ?bs = "take n (drop (rd_position r) ?img)"
    let ?p = "rd_position r + length ?bs"
    obtain res r' where rd: "reader_read LS LP X r n = (res, r')" by fastforce
    note got = read_image [OF Cons.prems(1-3) rd]
    have same: "same_reader (r\<lparr>rd_position := ?p\<rparr>) r'" using got by blast
    have "?p \<le> u64_max" using Cons.prems(2,3) len by (auto simp: intact_def)
    moreover have "intact X r' pages \<longleftrightarrow> intact X r pages"
      using same_reader_intact [OF same, of X pages] by (simp add: intact_def)
    moreover have "media_image r' pages = ?img"
      using same_reader_image [OF same, of pages] by (simp add: media_image_def)
    ultimately have "run_reader LS LP X r' ops = run_cursor \<lparr>cur_src = Mem ?img, cur_pos = ?p\<rparr> ops"
      using Cons.IH [of r'] got Cons.prems(2,4) same_reader_sel(4) [OF same] by simp
    moreover have "cursor_read \<lparr>cur_src = Mem ?img, cur_pos = rd_position r\<rparr> n =
        Ok (?bs, \<lparr>cur_src = Mem ?img, cur_pos = ?p\<rparr>)"
      by (simp add: cursor_read_def mem_read del: read_at.simps)
    ultimately show ?thesis using OpRead rd got by simp
  next
    case (OpSeek sk)
    have tgt: "cursor_seek \<lparr>cur_src = Mem ?img, cur_pos = rd_position r\<rparr> sk =
        map_ok (\<lambda>p. (p, \<lparr>cur_src = Mem ?img, cur_pos = p\<rparr>))
          (seek_target sk (rd_total_size r) (rd_position r))"
      by (simp add: cursor_seek_def len)
    show ?thesis
    proof (cases "seek_target sk (rd_total_size r) (rd_position r)")
      case (Ok p)
      let ?r = "r\<lparr>rd_position := p\<rparr>"
      have "p \<le> u64_max" using seek_target_range [OF _ Ok] Cons.prems(4) OpSeek by simp
      moreover have "intact X ?r pages" using Cons.prems(2) by (simp add: intact_def)
      ultimately have "run_reader LS LP X ?r ops = run_cursor \<lparr>cur_src = Mem ?img, cur_pos = p\<rparr> ops"
        using Cons.IH [of ?r] Cons.prems(1,4) by (simp add: coherent_position media_image_def)
      then show ?thesis using OpSeek Ok tgt by (simp add: reader_seek_def)
    qed (use OpSeek tgt Cons in \<open>simp_all add: reader_seek_def\<close>)
  qed
qed simp

text \<open>A reader as the constructors leave it: its caches are new.\<close>

definition fresh_reader :: "('s, 'p) EwfReader \<Rightarrow> bool" where
  "fresh_reader r \<longleftrightarrow> rd_position r = 0 \<and> (\<exists>n. rd_cache r = lru_new LP n) \<and>
    (\<forall>l. rd_chunks r = Lazy l \<longrightarrow> (\<exists>n. lt_cache l = lru_new LS n))"

lemma fresh_coherent: "fresh_reader r \<Longrightarrow> reader_coherent X r"
  using P.coherent_new S.coherent_new S.lru_cache_axioms
  by (cases "rd_chunks r") (auto simp: fresh_reader_def reader_coherent_def S.sections_cached_def)

end

lemma reader_caches_laws:
  "lru_laws LS viewS \<Longrightarrow> lru_laws LP viewP \<Longrightarrow> reader_caches LS viewS LP viewP"
  by (simp add: reader_caches_def lru_cache_def)

interpretation list_caches: reader_caches lru_list_ops ll_view lru_list_ops ll_view
  by unfold_locales

end
