(* ===== verification/Reader_Sessions.thy ===== *)
theory Reader_Sessions
  imports Read_Correct Open_Correct
begin

text \<open>
  The life of an open reader: the steps a caller can take on it as a relation, the readers
  reachable by them, and the invariant they keep. A reachable reader differs from the one that
  was opened in its caches and its position only, and its caches hold only what the uncached
  operations give; so what a read returns does not depend on what was read before.
\<close>

section \<open>Steps\<close>

text \<open>
  One call on a reader. A call that panics ends the session, so it is not a step; a call that
  returns an error leaves the reader with whatever it cached on the way.
\<close>

inductive reader_step ::
  "('s, Chunk list) lru \<Rightarrow> ('p, bytes) lru \<Rightarrow> externals \<Rightarrow> ('s, 'p) EwfReader \<Rightarrow> ('s, 'p) EwfReader \<Rightarrow> bool"
  for LS LP X where
  step_read_at: "reader_read_at LS LP X r n off = (res, r') \<Longrightarrow> res \<noteq> Panic \<Longrightarrow> reader_step LS LP X r r'"
| step_read: "reader_read LS LP X r n = (res, r') \<Longrightarrow> res \<noteq> Panic \<Longrightarrow> reader_step LS LP X r r'"
| step_seek: "reader_seek r sk = Ok (p, r') \<Longrightarrow> op_in_range (OpSeek sk) \<Longrightarrow> reader_step LS LP X r r'"
| step_verify: "verify LS X threads r = (res, r') \<Longrightarrow> res \<noteq> Panic \<Longrightarrow> reader_step LS LP X r r'"
| step_debug: "debug_chunk LS X r i = (res, r') \<Longrightarrow> res \<noteq> Panic \<Longrightarrow> reader_step LS LP X r r'"

inductive reader_reachable ::
  "('s, Chunk list) lru \<Rightarrow> ('p, bytes) lru \<Rightarrow> externals \<Rightarrow> ('s, 'p) EwfReader \<Rightarrow> ('s, 'p) EwfReader \<Rightarrow> bool"
  for LS LP X r0 where
  reach_start: "reader_reachable LS LP X r0 r0"
| reach_step: "reader_reachable LS LP X r0 r \<Longrightarrow> reader_step LS LP X r r' \<Longrightarrow> reader_reachable LS LP X r0 r'"

section \<open>What a step keeps\<close>

text \<open>The same reader up to its caches and its position.\<close>

definition same_image :: "('s, 'p) EwfReader \<Rightarrow> ('s, 'p) EwfReader \<Rightarrow> bool" where
  "same_image r r' \<longleftrightarrow> same_reader (r\<lparr>rd_position := rd_position r'\<rparr>) r'"

lemma same_image_refl [simp]: "same_image r r"
  by (simp add: same_image_def)

lemma same_reader_same_image: "same_reader r r' \<Longrightarrow> same_image r r'"
  by (simp add: same_image_def same_reader_def)

lemma same_image_trans: "same_image r s \<Longrightarrow> same_image s t \<Longrightarrow> same_image r t"
  by (auto simp: same_image_def same_reader_def intro: same_table_trans)

lemma same_image_position: "same_reader (r\<lparr>rd_position := p\<rparr>) r' \<Longrightarrow> same_image r r'"
  by (auto simp: same_image_def same_reader_def)

lemma same_image_sel:
  assumes "same_image r r'"
  shows "rd_segments r' = rd_segments r" "rd_chunk_size r' = rd_chunk_size r"
    "rd_total_size r' = rd_total_size r" "rd_stored_md5 r' = rd_stored_md5 r"
    "rd_stored_sha1 r' = rd_stored_sha1 r" "table_len (rd_chunks r') = table_len (rd_chunks r)"
    "page_at X r' = page_at X r"
  using assms same_reader_sel [of "r\<lparr>rd_position := rd_position r'\<rparr>" r']
    same_reader_page [of "r\<lparr>rd_position := rd_position r'\<rparr>" r' X]
  by (simp_all add: same_image_def)

lemma same_image_intact: "same_image r r' \<Longrightarrow> intact X r' pages = intact X r pages"
  using same_image_sel [of r r'] by (simp add: intact_def)

lemma same_image_image: "same_image r r' \<Longrightarrow> media_image r' pages = media_image r pages"
  using same_image_sel [of r r'] by (simp add: media_image_def)

context reader_caches
begin

lemma read_at_coherent:
  assumes "reader_coherent X r" and "reader_read_at LS LP X r n off = (res, r')"
  shows "res = read_at_ref (page_at X r) (rd_chunk_size r) (rd_total_size r) n off []
    \<and> same_reader r r' \<and> reader_coherent X r'"
  using assms read_at_loop_ref by (simp add: reader_read_at_def)

lemma read_coherent:
  assumes "reader_coherent X r" and "reader_read LS LP X r n = (res, r')"
  shows "same_image r r' \<and> reader_coherent X r' \<and> (rd_position r \<le> u64_max \<longrightarrow> rd_position r' \<le> u64_max)"
proof -
  obtain res1 r1 where one: "reader_read_at LS LP X r n (rd_position r) = (res1, r1)" by fastforce
  note rd = read_at_coherent [OF assms(1) one]
  have "r' = r1 \<or> (\<exists>p \<le> u64_max. r' = r1\<lparr>rd_position := p\<rparr>)"
    using assms(2) one by (auto simp: reader_read_def not_less split: result.splits if_splits)
  then show ?thesis
    using rd same_reader_sel(4) [of r r1]
    by (auto simp: coherent_position same_image_def same_reader_def)
qed

lemma decompress_batch_coherent:
  assumes "reader_coherent X r" and "decompress_batch LS X cids r = (res, r')"
  shows "same_reader r r' \<and> reader_coherent X r'"
  using assms
proof (induction cids arbitrary: r res r')
  case (Cons c cids)
  obtain d r1 where one: "decompress_chunk LS X r c = (d, r1)" by fastforce
  note pg = decompress_chunk_page [OF Cons.prems(1) one]
  obtain rest r2 where two: "decompress_batch LS X cids r1 = (rest, r2)" by fastforce
  have "same_reader r1 r2 \<and> reader_coherent X r2" using Cons.IH [OF _ two] pg by blast
  then show ?case
    using Cons.prems(2) one two pg same_reader_trans [of r r1 r2] by (auto split: result.splits)
qed simp

lemma verify_loop_coherent:
  assumes "reader_coherent X r" and "verify_loop LS X n batch start r fed = (res, r')"
  shows "same_reader r r' \<and> reader_coherent X r'"
  using assms
proof (induction "n - start" arbitrary: start r fed rule: less_induct)
  case less
  note unfolded = verify_loop.simps [of LS X n batch start r fed]
  show ?case
  proof (cases "n \<le> start \<or> batch = 0 \<or> u64_max < start + batch")
    case True
    then show ?thesis using less.prems by (auto simp: unfolded split: if_splits)
  next
    case False
    obtain pages r1 where one: "decompress_batch LS X [start..<min (start + batch) n] r = (pages, r1)" by fastforce
    note coh = decompress_batch_coherent [OF less.prems(1) one]
    show ?thesis
    proof (cases pages)
      case (Ok ps)
      have dec: "n - (start + batch) < n - start" using False by linarith
      have "verify_loop LS X n batch (start + batch) r1 (feed_pages (rd_total_size r1) ps fed) = (res, r')"
        using less.prems(2) False one Ok by (simp add: unfolded)
      then have "same_reader r1 r' \<and> reader_coherent X r'" using less.hyps [OF dec] coh by blast
      then show ?thesis using coh same_reader_trans [of r r1 r'] by blast
    qed (use less.prems(2) False one coh in \<open>auto simp: unfolded\<close>)
  qed
qed

lemma verify_coherent:
  assumes "reader_coherent X r" and "verify LS X threads r = (res, r')"
  shows "same_reader r r' \<and> reader_coherent X r'"
proof -
  obtain fed r1 where "verify_loop LS X (table_len (rd_chunks r)) (batch_size threads) 0 r [] = (fed, r1)"
    by fastforce
  then show ?thesis using assms verify_loop_coherent by (fastforce simp: verify_def)
qed

lemma debug_chunk_coherent:
  assumes "reader_coherent X r" and "debug_chunk LS X r i = (res, r')"
  shows "same_reader r r' \<and> reader_coherent X r'"
  using assms table_get_coherent by (fastforce simp: debug_chunk_def split: prod.splits)

text \<open>The invariant of a session.\<close>

definition session_inv :: "externals \<Rightarrow> ('s, 'p) EwfReader \<Rightarrow> ('s, 'p) EwfReader \<Rightarrow> bool" where
  "session_inv X r0 r \<longleftrightarrow> same_image r0 r \<and> reader_coherent X r \<and> rd_position r \<le> u64_max"

lemma step_session_inv:
  assumes "session_inv X r0 r" and "reader_step LS LP X r r'"
  shows "session_inv X r0 r'"
proof -
  have inv: "same_image r0 r" "reader_coherent X r" "rd_position r \<le> u64_max"
    using assms(1) by (simp_all add: session_inv_def)
  have keep: "same_reader r r' \<and> reader_coherent X r' \<Longrightarrow> session_inv X r0 r'"
    using inv same_image_trans [OF inv(1) same_reader_same_image] same_reader_sel(4) [of r r']
    by (simp add: session_inv_def)
  from assms(2) show ?thesis
  proof cases
    case step_read_at
    then show ?thesis using keep read_at_coherent [OF inv(2)] by blast
  next
    case step_read
    then show ?thesis using read_coherent [OF inv(2)] inv same_image_trans [OF inv(1)]
      unfolding session_inv_def by blast
  next
    case (step_seek sk p)
    then have tgt: "seek_target sk (rd_total_size r) (rd_position r) = Ok p"
      and r': "r' = r\<lparr>rd_position := p\<rparr>" by (auto simp: reader_seek_def)
    have "p \<le> u64_max" using seek_target_range [OF step_seek(2) tgt] .
    moreover have "same_image r r'" by (simp add: r' same_image_def same_reader_def)
    ultimately show ?thesis
      using inv same_image_trans [OF inv(1)] by (simp add: session_inv_def coherent_position r')
  next
    case step_verify
    then show ?thesis using keep verify_coherent [OF inv(2)] by blast
  next
    case step_debug
    then show ?thesis using keep debug_chunk_coherent [OF inv(2)] by blast
  qed
qed

lemma reachable_session_inv:
  assumes "reader_reachable LS LP X r0 r" and "fresh_reader r0"
  shows "session_inv X r0 r"
  using assms(1)
proof (induction rule: reader_reachable.induct)
  case reach_start
  then show ?case using assms(2) fresh_coherent by (simp add: session_inv_def fresh_reader_def)
next
  case (reach_step r r')
  then show ?case by (blast intro: step_session_inv)
qed

text \<open>A reader that an open returned is fresh.\<close>

lemma open_v1_fresh: "open_v1 LS LP X sources cache_size k = Ok r \<Longrightarrow> fresh_reader r"
  by (drule open_v1_run) (fastforce simp: fresh_reader_def Let_def lazy_new_def split: option.splits)

lemma open_segments_v2_fresh: "open_segments_v2 LP X FS paths cache_size = Ok r \<Longrightarrow> fresh_reader r"
  by (auto simp: fresh_reader_def open_segments_v2_def Let_def)

lemma verify_image:
  assumes "reader_coherent X r" and "intact X r pages"
    and "length pages + batch_size threads \<le> u64_max" and "rd_chunk_size r * length pages \<le> u64_max"
  shows "\<exists>r'. verify LS X threads r =
    (Ok \<lparr>vr_computed_md5 = x_md5 X (media_image r pages),
         vr_computed_sha1 = map_option (\<lambda>_. x_sha1 X (media_image r pages)) (rd_stored_sha1 r),
         vr_md5_match = map_option (\<lambda>s. s = x_md5 X (media_image r pages)) (rd_stored_md5 r),
         vr_sha1_match = map_option (\<lambda>s. s = x_sha1 X (media_image r pages)) (rd_stored_sha1 r),
         vr_addressable_bytes = rd_chunk_size r * length pages,
         vr_declared_bytes = rd_total_size r\<rparr>, r')"
proof -
  have n: "table_len (rd_chunks r) = length pages" using assms(2) by (simp add: intact_def)
  have "0 < batch_size threads" by (simp add: batch_size_def)
  from verify_loop_image [OF assms(1,2) this assms(3), of 0] obtain r'
    where "verify_loop LS X (length pages) (batch_size threads) 0 r [] = (Ok (media_image r pages), r')"
    by auto
  then show ?thesis
    using assms(4) n by (cases "rd_stored_sha1 r") (auto simp: verify_def plain_mul_def Let_def)
qed

end

section \<open>Sessions over pages\<close>

text \<open>
  What a session returns, given the pages and the sizes only: no cache, no table, no segment.
\<close>

fun run_pages ::
  "(nat \<Rightarrow> bytes ewf_result) \<Rightarrow> nat \<Rightarrow> nat \<Rightarrow> nat \<Rightarrow> reader_op list \<Rightarrow> reader_out list" where
  "run_pages page cs media pos [] = []"
| "run_pages page cs media pos (OpRead n # ops) =
    (case read_at_ref page cs media n pos [] of
       Ok bs \<Rightarrow> if u64_max < pos + length bs then [OutBytes Panic]
                else OutBytes (Ok bs) # run_pages page cs media (pos + length bs) ops
     | Err e \<Rightarrow> OutBytes (Err (Io OtherIo)) # run_pages page cs media pos ops
     | Panic \<Rightarrow> [OutBytes Panic])"
| "run_pages page cs media pos (OpSeek sk # ops) =
    (case seek_target sk media pos of
       Ok p \<Rightarrow> OutPos (Ok p) # run_pages page cs media p ops
     | Err e \<Rightarrow> OutPos (Err e) # run_pages page cs media pos ops
     | Panic \<Rightarrow> [OutPos Panic])"

context reader_caches
begin

lemma run_reader_pages:
  assumes "reader_coherent X r"
  shows "run_reader LS LP X r ops =
    run_pages (page_at X r) (rd_chunk_size r) (rd_total_size r) (rd_position r) ops"
  using assms
proof (induction ops arbitrary: r)
  case (Cons op ops)
  have moved: "run_reader LS LP X s ops =
      run_pages (page_at X r) (rd_chunk_size r) (rd_total_size r) (rd_position s) ops"
    if "same_image r s" "reader_coherent X s" for s
    using Cons.IH [OF that(2)] same_image_sel [OF that(1)] by simp
  show ?case
  proof (cases op)
    case (OpRead n)
    obtain res r1 where one: "reader_read_at LS LP X r n (rd_position r) = (res, r1)" by fastforce
    note rd = read_at_coherent [OF Cons.prems one]
    have here: "same_image r r1" "rd_position r1 = rd_position r"
      using rd same_reader_same_image same_reader_sel(4) by auto
    have later: "same_image r (r1\<lparr>rd_position := p\<rparr>)" for p
      using rd by (simp add: same_image_def same_reader_def)
    show ?thesis
      using OpRead one rd here moved [OF here(1)] moved [OF later]
      by (cases "read_at_ref (page_at X r) (rd_chunk_size r) (rd_total_size r) n (rd_position r) []")
        (auto simp: reader_read_def coherent_position)
  next
    case (OpSeek sk)
    have later: "same_image r (r\<lparr>rd_position := p\<rparr>)" for p by (simp add: same_image_def same_reader_def)
    show ?thesis
      using OpSeek moved [OF later] moved [of r] Cons.prems
      by (cases "seek_target sk (rd_total_size r) (rd_position r)")
        (auto simp: reader_seek_def coherent_position)
  qed
qed simp

end

section \<open>Sessions on an opened reader\<close>

context reader_caches
begin

lemma opened_inv:
  "open_v1 LS LP X sources cache_size k = Ok r0 \<Longrightarrow> reader_reachable LS LP X r0 r \<Longrightarrow> session_inv X r0 r"
  by (rule reachable_session_inv [OF _ open_v1_fresh])

lemma opened_cursor:
  assumes "session_inv X r0 r" and "intact X r0 pages" and "list_all op_in_range ops"
  shows "run_reader LS LP X r ops =
    run_cursor \<lparr>cur_src = Mem (media_image r0 pages), cur_pos = rd_position r\<rparr> ops"
  using assms run_reader_cursor [of X r pages ops] same_image_intact [of r0 r X pages]
    same_image_image [of r0 r pages] by (simp add: session_inv_def)

lemma opened_read_at:
  assumes "session_inv X r0 r" and "reader_read_at LS LP X r n off = (res, r')"
  shows "res = read_at_ref (page_at X r0) (rd_chunk_size r0) (rd_total_size r0) n off []"
  using assms read_at_coherent [of X r n off res r'] same_image_sel [of r0 r] by (simp add: session_inv_def)

lemma opened_verify:
  assumes "session_inv X r0 r" and "intact X r0 pages"
    and "length pages + batch_size threads \<le> u64_max" and "rd_chunk_size r0 * length pages \<le> u64_max"
  shows "\<exists>r'. verify LS X threads r =
    (Ok \<lparr>vr_computed_md5 = x_md5 X (media_image r0 pages),
         vr_computed_sha1 = map_option (\<lambda>_. x_sha1 X (media_image r0 pages)) (rd_stored_sha1 r0),
         vr_md5_match = map_option (\<lambda>s. s = x_md5 X (media_image r0 pages)) (rd_stored_md5 r0),
         vr_sha1_match = map_option (\<lambda>s. s = x_sha1 X (media_image r0 pages)) (rd_stored_sha1 r0),
         vr_addressable_bytes = rd_chunk_size r0 * length pages,
         vr_declared_bytes = rd_total_size r0\<rparr>, r')"
  using assms verify_image [of X r pages threads] same_image_sel [of r0 r]
    same_image_intact [of r0 r X pages] same_image_image [of r0 r pages]
  by (simp add: session_inv_def)

text \<open>Two readers that agree on their pages and sizes answer every session alike.\<close>

lemma agreeing_sessions:
  assumes "fresh_reader re" and "fresh_reader rl" and "readers_agree X re rl"
  shows "run_reader LS LP X rl ops = run_reader LS LP X re ops"
proof -
  have eq: "rd_segments rl = rd_segments re" "rd_chunk_size rl = rd_chunk_size re"
    "rd_total_size rl = rd_total_size re" "rd_position rl = rd_position re"
    using assms(3) by (auto simp: readers_agree_def) (metis EwfReader.surjective EwfReader.update_convs(2)
        EwfReader.select_convs(1,3,4,5))+
  moreover have "page_at X rl = page_at X re"
    using assms(3) eq by (auto simp: readers_agree_def page_at_def [abs_def])
  ultimately show ?thesis
    using assms(1,2) by (simp add: run_reader_pages fresh_coherent)
qed

end

end
