(* ===== verification/No_Panic.thy ===== *)
theory No_Panic
  imports Open_Correct Reader_Sessions
begin

text \<open>
  Robustness of the reader: on sources that answer their reads, shorter than \<open>2\<^sup>6\<^sup>3\<close> bytes,
  opening with the eager table never panics, whatever the bytes are, and neither does a read
  from the reader it returns.
\<close>

named_theorems panic_simps

lemma and_then_eq_Panic [panic_simps]:
  "and_then r f = Panic \<longleftrightarrow> r = Panic \<or> (\<exists>x. r = Ok x \<and> f x = Panic)"
  by (cases r) auto

lemma plain_add_eq_Panic [panic_simps]: "plain_add a b = Panic \<longleftrightarrow> u64_max < a + b"
  by (simp add: plain_add_def)

lemma plain_mul_eq_Panic [panic_simps]: "plain_mul a b = Panic \<longleftrightarrow> u64_max < a * b"
  by (simp add: plain_mul_def not_le)

section \<open>Reads of a source\<close>

definition small_source :: "SegmentSource \<Rightarrow> bool" where
  "small_source src \<longleftrightarrow> (\<exists>content. positioned_source src content \<and> length content < 2 ^ 63)"

lemma small_mem: "length b < 2 ^ 63 \<Longrightarrow> small_source (Mem b)"
  unfolding small_source_def using mem_source.positioned_source_axioms by blast

lemma small_file: "length b < 2 ^ 63 \<Longrightarrow> small_source (File b)"
  unfolding small_source_def using file_source.positioned_source_axioms by blast

lemma seek_target_start_no_panic [simp]: "seek_target (SeekStart p) len pos \<noteq> Panic"
  by (simp add: seek_target_def)

lemma positioned_read_exact_no_panic: "positioned_source src content \<Longrightarrow> read_exact src n pos \<noteq> Panic"
  by (simp add: positioned_source.read_exact_content)

lemma seek_read_exact_no_panic: "small_source src \<Longrightarrow> seek_read_exact src pos n \<noteq> Panic"
  by (auto simp: seek_read_exact_def small_source_def positioned_read_exact_no_panic panic_simps)

lemma small_source_len: "small_source src \<Longrightarrow> segment_len src < 2 ^ 63"
  by (auto simp: small_source_def positioned_source.len_content)

lemma small_source_read: "small_source src \<Longrightarrow> \<exists>bs. read_at src n off = Ok bs \<and> length bs \<le> n"
  by (auto simp: small_source_def positioned_source.read_content)

section \<open>The section handlers\<close>

text \<open>A descriptor the walk of a small source returned.\<close>

definition inside :: "SectionDescriptor \<Rightarrow> bool" where
  "inside d \<longleftrightarrow> sd_offset d + 76 < 2 ^ 63"

text \<open>The limits the open pass enforces on the geometry.\<close>

definition geometry_bounded :: "open_state \<Rightarrow> bool" where
  "geometry_bounded st \<longleftrightarrow> os_chunk_size st \<le> MAX_CHUNK_SIZE \<and> os_total_size st \<le> u64_max"

lemma inside_bound: "inside d \<Longrightarrow> sd_offset d + 100 \<le> u64_max"
  by (simp add: inside_def u64_max_def)

lemma section_data_no_panic: "small_source src \<Longrightarrow> inside d \<Longrightarrow> section_data src d n \<noteq> Panic"
  using inside_bound [of d] by (simp add: section_data_def panic_simps seek_read_exact_no_panic)

lemma volume_total_bound:
  assumes "volume_chunk_size v \<le> MAX_CHUNK_SIZE"
  shows "volume_chunk_size v * unat (vol_chunk_count v) \<le> u64_max"
proof -
  have "volume_chunk_size v * unat (vol_chunk_count v) \<le> 134217728 * 4294967296"
    using assms by (intro mult_le_mono less_imp_le [OF unat_u32_lt]) (simp add: MAX_CHUNK_SIZE_def)
  then show ?thesis by (simp add: u64_max_def)
qed

lemma handle_volume_safe: "small_source src \<Longrightarrow> inside d \<Longrightarrow> handle_volume X src d st \<noteq> Panic"
  using volume_total_bound
  by (auto simp: handle_volume_def Let_def panic_simps section_data_no_panic not_less
      dest: leD split: if_splits)

lemma handle_table_eager_safe:
  "small_source src \<Longrightarrow> inside d \<Longrightarrow> handle_table_eager X src seg e d st \<noteq> Panic"
  using inside_bound [of d]
  by (auto simp: handle_table_eager_def Let_def panic_simps section_data_no_panic
      seek_read_exact_no_panic parse_table_section_sized split: if_splits)

lemma handle_hash_safe: "small_source src \<Longrightarrow> inside d \<Longrightarrow> handle_hash src d st \<noteq> Panic"
  by (simp add: handle_hash_def panic_simps section_data_no_panic)

lemma handle_digest_safe: "small_source src \<Longrightarrow> inside d \<Longrightarrow> handle_digest src d st \<noteq> Panic"
  by (simp add: handle_digest_def panic_simps section_data_no_panic)

lemma handle_header_safe: "small_source src \<Longrightarrow> inside d \<Longrightarrow> handle_header X src d st \<noteq> Panic"
  using inside_bound [of d]
  by (auto simp: handle_header_def Let_def panic_simps seek_read_exact_no_panic split: if_splits)

lemma handle_error2_safe: "small_source src \<Longrightarrow> inside d \<Longrightarrow> handle_error2 X src d st \<noteq> Panic"
  using inside_bound [of d]
  by (auto simp: handle_error2_def Let_def panic_simps seek_read_exact_no_panic split: if_splits)

lemmas handlers_safe = handle_volume_safe handle_table_eager_safe handle_hash_safe handle_digest_safe
  handle_header_safe handle_error2_safe

lemma handle_section_safe:
  assumes "small_source src" and "inside d"
  shows "handle_section False X src seg tt e d st \<noteq> Panic"
  using handlers_safe [OF assms] by (simp add: handle_section_def Let_def)

lemma handle_volume_bounded:
  "handle_volume X src d st = Ok st' \<Longrightarrow> geometry_bounded st'"
  using volume_total_bound
  by (auto simp: handle_volume_def Let_def geometry_bounded_def plain_mul_def volume_total_size_def
      sat_mul_bound not_less split: if_splits)

lemma handle_section_bounded:
  assumes "handle_section lz X src seg tt e d st = Ok st'" and "geometry_bounded st"
  shows "geometry_bounded st'"
  using assms handle_volume_bounded [of X src d st st']
  by (auto simp: handle_section_def Let_def handle_table_eager_def handle_table_lazy_def handle_hash_def
      handle_digest_def handle_header_def handle_error2_def geometry_bounded_def split: if_splits option.splits)

section \<open>Open\<close>

lemma fold_result_no_panic:
  "(\<And>x s. x \<in> set xs \<Longrightarrow> f x s \<noteq> Panic) \<Longrightarrow> fold_result f xs s \<noteq> Panic"
  by (induction xs arbitrary: s) (auto simp: panic_simps)

lemma fold_result_inv:
  "fold_result f xs s = Ok s' \<Longrightarrow> P s \<Longrightarrow> (\<And>x s s'. P s \<Longrightarrow> f x s = Ok s' \<Longrightarrow> P s') \<Longrightarrow> P s'"
  by (induction xs arbitrary: s) auto

lemma open_segment_v1_safe:
  assumes "small_source src"
  shows "open_segment_v1 False X (i, src) st \<noteq> Panic"
proof -
  obtain content where c: "positioned_source src content" "length content < 2 ^ 63"
    using assms by (auto simp: small_source_def)
  obtain ds where ds: "walk_segment X src = Ok ds" "chain_from X content 13 ds"
    using walk_segment_chain [OF c] by blast
  have "inside d" if "d \<in> set ds" for d
    using that ds(2) c(2) unfolding chain_from_def inside_def by (meson order_le_less_trans)
  then have "fold_result (handle_section False X src i (table_type_of ds) (sectors_end_of ds)) ds st \<noteq> Panic"
    using handle_section_safe [OF assms] by (intro fold_result_no_panic) blast
  then show ?thesis using ds(1) by (simp add: open_segment_v1_def)
qed

lemma read_file_headers_no_panic:
  assumes "list_all small_source sources"
  shows "read_file_headers sources \<noteq> Panic"
  using assms
proof (induction sources)
  case (Cons src sources)
  obtain bs where "read_at src 13 0 = Ok bs" using small_source_read [of src 13 0] Cons.prems by auto
  then show ?case using Cons
    by (auto simp: read_file_headers_def panic_simps)
qed (simp add: read_file_headers_def)

lemma reorder_no_panic:
  "length segs = length nums \<Longrightarrow> validate_and_reorder_segments segs nums \<noteq> Panic"
  by (simp add: reorder_eq panic_simps)

lemma open_v1_safe:
  assumes "list_all small_source sources"
  shows "open_v1 LS LP X sources cache_size None \<noteq> Panic"
proof (cases sources)
  case (Cons src rest)
  obtain bs where bs: "read_at src 8 0 = Ok bs" using assms Cons small_source_read [of src 8 0] by auto
  have order: "validate_and_reorder_segments sources (map (unat \<circ> fh_segment_number) hs) \<noteq> Panic"
    if "read_file_headers sources = Ok hs" for hs
  proof (rule reorder_no_panic)
    show "length sources = length (map (unat \<circ> fh_segment_number) hs)"
      using that by (simp add: read_file_headers_def) (metis length_map)
  qed
  have "fold_result (open_segment_v1 False X) (zip [0..<length ordered] ordered) st \<noteq> Panic"
    if "validate_and_reorder_segments sources nums = Ok ordered" for ordered nums st
  proof (rule fold_result_no_panic)
    fix p s assume "p \<in> set (zip [0..<length ordered] ordered)"
    then have "snd p \<in> set sources" using reorder_subset [OF that] by (metis prod.collapse set_zip_rightD subsetD)
    then show "open_segment_v1 False X p s \<noteq> Panic"
      using open_segment_v1_safe assms by (cases p) (auto simp: list_all_iff)
  qed
  then show ?thesis
    using Cons bs order read_file_headers_no_panic [OF assms]
    by (auto simp: open_v1_def Let_def panic_simps split: if_splits)
qed (simp add: open_v1_def)

lemma open_v1_bounded:
  assumes "open_v1 LS LP X sources cache_size k = Ok r"
  shows "0 < rd_chunk_size r \<and> rd_chunk_size r \<le> MAX_CHUNK_SIZE \<and> rd_total_size r \<le> u64_max
    \<and> set (rd_segments r) \<subseteq> set sources"
proof -
  obtain headers :: "EwfFileHeader list" and ordered st chunks kind where run:
    "validate_and_reorder_segments sources (map (unat \<circ> fh_segment_number) headers) = Ok ordered"
    "fold_result (open_segment_v1 (k \<noteq> None) X) (zip [0..<length ordered] ordered) open_state_init = Ok st"
    "os_chunk_size st \<noteq> 0"
    and r: "r = \<lparr>rd_segments = ordered, rd_chunks = chunks, rd_chunk_size = os_chunk_size st,
         rd_total_size = media_size_for kind (os_total_size st) (table_len chunks) (os_chunk_size st),
         rd_position = 0, rd_cache = lru_new LP (max cache_size 1), rd_stored_md5 = os_stored_md5 st,
         rd_stored_sha1 = os_stored_sha1 st, rd_metadata = os_metadata st,
         rd_acquisition_errors = os_acquisition_errors st\<rparr>"
    using open_v1_run [OF assms] unfolding Let_def by blast
  have "geometry_bounded st"
  proof (rule fold_result_inv [OF run(2)])
    show "geometry_bounded open_state_init" by (simp add: geometry_bounded_def open_state_init_def)
    fix p s s' assume "geometry_bounded s" "open_segment_v1 (k \<noteq> None) X p s = Ok s'"
    then show "geometry_bounded s'"
      using fold_result_inv [where P = geometry_bounded] handle_section_bounded
      by (cases p) (fastforce simp: open_segment_v1_def)
  qed
  then show ?thesis
    using run r reorder_subset [OF run(1)]
    by (auto simp: geometry_bounded_def media_size_for_def sat_mul_bound Let_def split: EwfKind.split)
qed

section \<open>Reads\<close>

lemma zlib_loop_no_panic: "zlib_read_laws X \<Longrightarrow> zlib_loop X c hist n acc \<noteq> Panic"
proof (induction X c hist n acc rule: zlib_loop.induct)
  case (1 X c hist n acc)
  show ?case
  proof (cases "x_zlib_read X c hist (n - length acc)")
    case (Some bs)
    then have "length bs \<le> n - length acc" using zlib_read_le [OF 1(2)] by blast
    then show ?thesis using Some 1 by (auto simp: zlib_loop.simps [of X c hist n acc])
  qed (simp add: zlib_loop.simps [of X c hist n acc])
qed

lemma chunk_page_no_panic:
  assumes "list_all small_source segs" and "zlib_read_laws X"
  shows "chunk_page X segs cs cid c \<noteq> Panic"
proof (cases "get_at segs (chunk_segment_idx c)")
  case (Some src)
  then have small: "small_source src" using assms(1) by (auto simp: list_all_length)
  have at: "chunk_segment_idx c < length segs" "segs ! chunk_segment_idx c = src" using Some by auto
  show ?thesis
    using at small_source_read [OF small, of "chunk_size_of c" "chunk_offset c"]
      small_source_read [OF small, of "min (chunk_size_of c) cs" "chunk_offset c"] zlib_loop_no_panic [OF assms(2)]
    by (auto simp: chunk_page_def get_at_def Let_def split: if_splits)
qed (simp add: chunk_page_def get_at_def)

lemma read_at_ref_no_panic:
  assumes "0 < cs" and "media \<le> u64_max"
    and "\<And>i. page i \<noteq> Panic" and len: "\<And>i p. page i = Ok p \<Longrightarrow> length p = cs"
  shows "read_at_ref page cs media n off acc \<noteq> Panic"
proof (induction "n - length acc" arbitrary: off acc rule: less_induct)
  case less
  define t where "t = min (min (cs - off mod cs) (media - off)) (n - length acc)"
  note unfolded = read_at_ref.simps [of page cs media n off acc, folded t_def]
  show ?case
  proof (cases "t = 0")
    case True
    then show ?thesis using assms(1) by (simp add: unfolded)
  next
    case False
    have b: "t \<le> cs - off mod cs" "t \<le> media - off" "t \<le> n - length acc" by (simp_all add: t_def)
    have m: "off mod cs < cs" using assms(1) by simp
    show ?thesis
    proof (cases "page (off div cs)")
      case (Ok p)
      let ?part = "slice (off mod cs) (off mod cs + t) p"
      have "off mod cs + t \<le> length p" using b(1) m len [OF Ok] by linarith
      then have part: "get_range p (off mod cs) (off mod cs + t) = Some ?part" "length ?part = t" by simp_all
      have "off + t \<le> u64_max" using b(2) False assms(2) by linarith
      then have "read_at_ref page cs media n off acc = read_at_ref page cs media n (off + t) (acc @ ?part)"
        using False assms(1) Ok part(1) by (simp add: unfolded del: get_range_Some)
      moreover have "n - length (acc @ ?part) < n - length acc"
        using part(2) b(3) False unfolding length_append by linarith
      ultimately show ?thesis using less by simp
    qed (use False assms in \<open>auto simp: unfolded\<close>)
  qed
qed

lemma page_at_eager_no_panic:
  assumes "rd_chunks r = Eager v" and "list_all small_source (rd_segments r)" and "zlib_read_laws X"
    and "rd_chunk_size r \<le> ISIZE_MAX"
  shows "page_at X r cid \<noteq> Panic"
  using assms chunk_page_no_panic [OF assms(2,3)] by (simp add: page_at_def panic_simps)

end
