(* ===== verification/Sample_Image.thy ===== *)
theory Sample_Image
  imports Read_Correct "HOL-Library.Code_Target_Nat"
begin

text \<open>
  A small EWF v1 image, byte for byte: a file header, a volume section (2-byte sectors of a
  4-byte chunk are two, 8 bytes in all), a sectors section with two uncompressed chunks and a
  table of two entries. It is the input on which the theorems about opening and reading are
  exercised.
\<close>

definition sample_type :: "string \<Rightarrow> bytes" where
  "sample_type s = map of_nat (lit s)"

definition sample_image :: bytes where
  "sample_image =
    EVF_SIGNATURE @ [1, 1, 0, 0, 0]
    @ encode_descriptor (sample_type ''volume'') 183 170 0
    @ [1,0,0,0, 2,0,0,0, 1,0,0,0, 4,0,0,0, 2,0,0,0,0,0,0,0] @ replicate 70 0
    @ encode_descriptor (sample_type ''sectors'') 267 84 0
    @ [10, 11, 12, 13, 14, 15, 16, 17]
    @ encode_descriptor (sample_type ''table'') 267 108 0
    @ encode_table_header 2 0 0 @ encode_table_entry False 259 @ encode_table_entry False 263"

definition sample_reader :: "'s ChunkTable \<Rightarrow> (bytes lru_list) \<Rightarrow> ('s, bytes lru_list) EwfReader" where
  "sample_reader t c = \<lparr>rd_segments = [Mem sample_image], rd_chunks = t, rd_chunk_size = 4,
     rd_total_size = 8, rd_position = 0, rd_cache = c, rd_stored_md5 = None, rd_stored_sha1 = None,
     rd_metadata = metadata_default, rd_acquisition_errors = []\<rparr>"

definition sample_descriptors :: "SectionDescriptor list" where
  "sample_descriptors =
    [\<lparr>sd_type = lit ''volume'', sd_next = 183, sd_size = 170, sd_offset = 13, sd_stored_crc = 0\<rparr>,
     \<lparr>sd_type = lit ''sectors'', sd_next = 267, sd_size = 84, sd_offset = 183, sd_stored_crc = 0\<rparr>,
     \<lparr>sd_type = lit ''table'', sd_next = 267, sd_size = 108, sd_offset = 267, sd_stored_crc = 0\<rparr>]"

lemma length_sample: "length sample_image = 375"
  by code_simp

text \<open>The image in memory and on disk.\<close>

primrec sample_source :: "bool \<Rightarrow> SegmentSource" where
  "sample_source True = Mem sample_image"
| "sample_source False = File sample_image"

lemma sample_source_read: "read_at (sample_source m) n off = Ok (take n (drop off sample_image))"
  by (cases m) (simp_all only: sample_source.simps read_at.simps(1) mem_read pread_def)

lemma sample_source_len: "segment_len (sample_source m) = length sample_image"
  by (cases m) simp_all

lemma sample_headers: "read_file_headers [sample_source m] = Ok [\<lparr>fh_segment_number = 1, fh_kind = Physical\<rparr>]"
  by (induction m) code_simp+

lemma sample_signature: "fill_buf 8 (take 8 (drop 0 sample_image)) = EVF_SIGNATURE"
  by code_simp

lemma sample_walk: "walk_segment ref_externals (sample_source m) = Ok sample_descriptors"
  by (induction m) code_simp+

lemma sample_volume:
  "handle_volume ref_externals (sample_source m) (sample_descriptors ! 0) open_state_init =
    Ok (open_state_init\<lparr>os_chunk_size := 4, os_total_size := 8\<rparr>)"
  by (induction m) code_simp+

text \<open>The table is evaluated through its reference reading.\<close>

definition sample_entries :: bytes where
  "sample_entries = encode_table_entry False 259 @ encode_table_entry False 263"

lemma sample_reads:
  "section_data (sample_source m) (sample_descriptors ! 2) 24 = Ok (encode_table_header 2 0 0)"
  "seek_read_exact (sample_source m) 367 8 = Ok sample_entries"
  by (induction m; code_simp)+

lemma sample_table_header:
  "x_le_u32 ref_externals (encode_table_header 2 0 0) 0 = 2"
  "x_le_u64 ref_externals (encode_table_header 2 0 0) 8 = 0"
  by code_simp+

lemma sample_entry:
  "entry_at_index ref_externals sample_entries 0 = 259"
  "entry_at_index ref_externals sample_entries 1 = 263"
  by code_simp+

lemma sample_located: "located ref_externals sample_entries 0 [0, 1] = [(False, 259), (False, 263)]"
  by (simp add: located_def sample_entry [simplified] u64_max_def)

definition sample_chunks :: "Chunk list" where
  "sample_chunks = [chunk_new 0 False 259 4, chunk_new 0 False 263 4]"

lemma sample_section: "parse_table_section ref_externals sample_entries 2 0 0 4 e = Ok sample_chunks"
proof -
  have "length sample_entries = 8" by code_simp
  then show ?thesis
    by (simp add: parse_table_section_sized sample_located [simplified] upt_rec sample_chunks_def
        backfill_last_def map_last_def split: option.split)
qed

lemma sample_sel [simp]:
  "sample_descriptors ! 2 = \<lparr>sd_type = lit ''table'', sd_next = 267, sd_size = 108, sd_offset = 267, sd_stored_crc = 0\<rparr>"
  by (simp add: sample_descriptors_def)

lemma sample_eager:
  "handle_table_eager ref_externals (sample_source m) 0 e (sample_descriptors ! 2) st =
    Ok (st\<lparr>os_chunks := os_chunks st @ sample_chunks\<rparr>)" if "os_chunk_size st = 4"
  using that sample_reads sample_section
  by (simp add: handle_table_eager_def sample_table_header MAX_TABLE_ENTRIES_def plain_add_def u64_max_def)

definition sample_meta :: SectionMeta where
  "sample_meta = \<lparr>sm_first_chunk_id = 0, sm_entry_count = 2, sm_entries_file_offset = 367,
     sm_base_offset = 0, sm_segment_idx = 0, sm_sectors_data_end = Some 267\<rparr>"

lemma sample_read_header:
  "read_header \<lparr>tr_desc_offset = 267, tr_sectors_data_end = Some 267\<rparr> (sample_source m) 0 0 MAX_TABLE_ENTRIES
    = Ok sample_meta"
  by (induction m) code_simp+

lemma sample_lazy:
  "handle_table_lazy (sample_source m) 0 (Some 267) (sample_descriptors ! 2) st =
    Ok (st\<lparr>os_next_chunk_id := 2, os_index := os_index st @ [sample_meta]\<rparr>)" if "os_next_chunk_id st = 0"
  using that by (simp add: handle_table_lazy_def sample_read_header plain_add_def u64_max_def)
    (simp add: sample_meta_def)

lemma sample_types:
  "table_type_of sample_descriptors = lit ''table''" "sectors_end_of sample_descriptors = Some 267"
  by code_simp+

lemma sample_lits:
  "lit ''sectors'' \<noteq> lit ''volume''" "lit ''sectors'' \<noteq> lit ''disk''" "lit ''sectors'' \<noteq> lit ''table''"
  "lit ''sectors'' \<noteq> lit ''hash''" "lit ''sectors'' \<noteq> lit ''digest''" "lit ''sectors'' \<noteq> lit ''header''"
  "lit ''sectors'' \<noteq> lit ''error2''" "lit ''table'' \<noteq> lit ''volume''" "lit ''table'' \<noteq> lit ''disk''"
  by (simp_all add: lit_def)

lemma sample_segment:
  "open_segment_v1 lz ref_externals (0, sample_source m) open_state_init =
    Ok (if lz then open_state_init\<lparr>os_chunk_size := 4, os_total_size := 8, os_next_chunk_id := 2,
                                    os_index := [sample_meta]\<rparr>
        else open_state_init\<lparr>os_chunk_size := 4, os_total_size := 8, os_chunks := sample_chunks\<rparr>)"
proof -
  let ?h = "handle_section lz ref_externals (sample_source m) 0 (lit ''table'') (Some 267)"
  let ?s1 = "open_state_init\<lparr>os_chunk_size := 4, os_total_size := 8\<rparr>"
  have ds: "sample_descriptors = [sample_descriptors ! 0, sample_descriptors ! 1, sample_descriptors ! 2]"
    by (simp add: sample_descriptors_def)
  have "?h (sample_descriptors ! 0) open_state_init = Ok ?s1"
    using sample_volume by (simp add: handle_section_def sample_descriptors_def)
  moreover have "?h (sample_descriptors ! 1) ?s1 = Ok ?s1"
    using sample_lits by (simp add: handle_section_def sample_descriptors_def)
  moreover have "?h (sample_descriptors ! 2) ?s1 =
      Ok (if lz then ?s1\<lparr>os_next_chunk_id := 2, os_index := [sample_meta]\<rparr>
          else ?s1\<lparr>os_chunks := sample_chunks\<rparr>)"
    using sample_lazy [where st = ?s1] sample_eager [where st = ?s1 and e = "Some 267"] sample_lits
    by (simp add: handle_section_def open_state_init_def)
  ultimately have "fold_result ?h [sample_descriptors ! 0, sample_descriptors ! 1, sample_descriptors ! 2]
      open_state_init = Ok (if lz then ?s1\<lparr>os_next_chunk_id := 2, os_index := [sample_meta]\<rparr>
          else ?s1\<lparr>os_chunks := sample_chunks\<rparr>)"
    by (simp del: sample_sel)
  then have "fold_result ?h sample_descriptors open_state_init =
      Ok (if lz then ?s1\<lparr>os_next_chunk_id := 2, os_index := [sample_meta]\<rparr>
          else ?s1\<lparr>os_chunks := sample_chunks\<rparr>)"
    by (simp only: ds [symmetric])
  then show ?thesis
    by (simp only: open_segment_v1_def sample_walk sample_types Let_def case_prod_conv and_then.simps)
qed

lemma sample_order: "validate_and_reorder_segments [s] [1] = Ok [s]"
  by (simp add: validate_and_reorder_segments_def get_at_def)

lemma sample_source_open:
  "open_v1 LS lru_list_ops ref_externals [sample_source m] cache k =
    Ok (sample_reader (case k of Some n \<Rightarrow> Lazy (lazy_new LS [sample_meta] 4 n) | None \<Rightarrow> Eager sample_chunks)
          (lru_new lru_list_ops (max cache 1))\<lparr>rd_segments := [sample_source m]\<rparr>)"
proof -
  have sig: "EVF_SIGNATURE \<noteq> EVF2_SIGNATURE" "EVF_SIGNATURE \<noteq> LEF2_SIGNATURE" by code_simp+
  have lens: "table_len (Lazy (lazy_new LS [sample_meta] 4 n)) = 2" "length sample_chunks = 2" for n
    by (simp_all add: lazy_new_def sample_meta_def sample_chunks_def)
  have fold: "fold_result (open_segment_v1 lz ref_externals) (zip [0..<length [sample_source m]] [sample_source m])
      open_state_init = open_segment_v1 lz ref_externals (0, sample_source m) open_state_init" for lz
    by (cases "open_segment_v1 lz ref_externals (0, sample_source m) open_state_init") simp_all
  have nums: "map (unat \<circ> fh_segment_number) [\<lparr>fh_segment_number = 1, fh_kind = Physical\<rparr>] = [1]" by simp
  have run: "open_v1 LS lru_list_ops ref_externals [sample_source m] cache k =
      (let st = (if k \<noteq> None then open_state_init\<lparr>os_chunk_size := 4, os_total_size := 8,
                     os_next_chunk_id := 2, os_index := [sample_meta]\<rparr>
                 else open_state_init\<lparr>os_chunk_size := 4, os_total_size := 8, os_chunks := sample_chunks\<rparr>);
           chunks = (case k of Some n \<Rightarrow> Lazy (lazy_new LS (os_index st) (os_chunk_size st) n)
                     | None \<Rightarrow> Eager (os_chunks st))
       in Ok \<lparr>rd_segments = [sample_source m], rd_chunks = chunks, rd_chunk_size = os_chunk_size st,
              rd_total_size = media_size_for Physical (os_total_size st) (table_len chunks) (os_chunk_size st),
              rd_position = 0, rd_cache = lru_new lru_list_ops (max cache 1),
              rd_stored_md5 = os_stored_md5 st, rd_stored_sha1 = os_stored_sha1 st,
              rd_metadata = os_metadata st, rd_acquisition_errors = os_acquisition_errors st\<rparr>)"
    unfolding open_v1_def list.sel sample_source_read and_then.simps Let_def sample_headers nums sample_order fold
      sample_segment sample_signature
    using sig by (simp add: open_state_init_def)
  show ?thesis
    unfolding run by (cases k) (simp_all add: sample_reader_def open_state_init_def media_size_for_def Let_def)
qed

lemma sample_open:
  "open_v1 LS lru_list_ops ref_externals [Mem sample_image] cache k =
    Ok (sample_reader (case k of Some n \<Rightarrow> Lazy (lazy_new LS [sample_meta] 4 n) | None \<Rightarrow> Eager sample_chunks)
          (lru_new lru_list_ops (max cache 1)))"
  using sample_source_open [of LS True cache k] by (simp add: sample_reader_def)

lemma sample_chunk_page:
  "chunk_page ref_externals [sample_source m] 4 cid (chunk_new 0 False 259 4) = Ok [10, 11, 12, 13]"
  "chunk_page ref_externals [sample_source m] 4 cid (chunk_new 0 False 263 4) = Ok [14, 15, 16, 17]"
proof -
  have "take 4 (drop 259 sample_image) = [10, 11, 12, 13]" "take 4 (drop 263 sample_image) = [14, 15, 16, 17]"
    by code_simp+
  then show "chunk_page ref_externals [sample_source m] 4 cid (chunk_new 0 False 259 4) = Ok [10, 11, 12, 13]"
    "chunk_page ref_externals [sample_source m] 4 cid (chunk_new 0 False 263 4) = Ok [14, 15, 16, 17]"
    by (simp_all add: chunk_page_def get_at_def sample_source_read sample_source_len fill_buf_def length_sample del: read_at.simps)
qed

lemma sample_load: "lazy_load ref_externals 4 sample_meta [sample_source m] = Ok sample_chunks"
proof -
  have "take 8 (drop 367 sample_image) = sample_entries" "length sample_entries = 8" by code_simp+
  then show ?thesis
    using sample_section [of "Some 267"]
    by (simp add: lazy_load_def get_at_def sample_meta_def sample_source_read sample_source_len length_sample fill_buf_def
        checked_mul_def u64_max_def del: read_at.simps)
qed

lemma sample_lookup:
  "table_lookup ref_externals (Eager sample_chunks) 0 [sample_source m] = Ok (chunk_new 0 False 259 4)"
  "table_lookup ref_externals (Eager sample_chunks) 1 [sample_source m] = Ok (chunk_new 0 False 263 4)"
  "table_lookup ref_externals (Lazy (lazy_new LS [sample_meta] 4 n)) 0 [sample_source m] = Ok (chunk_new 0 False 259 4)"
  "table_lookup ref_externals (Lazy (lazy_new LS [sample_meta] 4 n)) 1 [sample_source m] = Ok (chunk_new 0 False 263 4)"
  using sample_load
  by (simp_all add: get_at_def sample_chunks_def lazy_lookup_def lazy_new_def section_for_def
      partition_point_def Let_def) (simp_all add: sample_meta_def)

abbreviation sample_pages :: "bytes list" where
  "sample_pages \<equiv> [[10, 11, 12, 13], [14, 15, 16, 17]]"

lemma sample_source_intact:
  "t = Eager sample_chunks \<or> t = Lazy (lazy_new LS [sample_meta] 4 n) \<Longrightarrow>
    intact ref_externals (sample_reader t c\<lparr>rd_segments := [sample_source m]\<rparr>) sample_pages"
  using sample_lookup sample_chunk_page
  by (elim disjE) (simp_all add: intact_def sample_reader_def page_at_def upt_rec u64_max_def ISIZE_MAX_def
      sample_chunks_def lazy_new_def sample_meta_def del: sample_source.simps)

lemma sample_intact:
  "t = Eager sample_chunks \<or> t = Lazy (lazy_new LS [sample_meta] 4 n) \<Longrightarrow>
    intact ref_externals (sample_reader t c) sample_pages"
  using sample_source_intact [where m = True and c = c] by (simp add: sample_reader_def)

end
