(* ===== verification/Open_V2.thy ===== *)
theory Open_V2
  imports No_Panic Sample_Image
begin

text \<open>
  Robustness of opening by path. EWF v1 files never panic; for EWF v2 (\<open>open_segments_v2\<close> of
  \<open>core/reader.rs\<close>) there are exactly three plain multiplications that can, two over the
  declared geometry and one over the number of chunks.
\<close>

section \<open>The device information\<close>

text \<open>A geometry whose chunk size or media size does not fit 64 bits.\<close>

definition geometry_overflows :: "bytes \<Rightarrow> bool" where
  "geometry_overflows raw \<longleftrightarrow>
    2 \<le> length raw \<and> 4 \<le> length (lines (utf16_text raw)) \<and>
    (let d = device_columns (split_on 9 (lines (utf16_text raw) ! 2)) (split_on 9 (lines (utf16_text raw) ! 3))
     in u64_max < df_bytes_per_sector d * df_sectors_per_chunk d
        \<or> 0 < df_total_sectors d \<and> u64_max < df_bytes_per_sector d * df_total_sectors d)"

lemma device_info_panics: "parse_ewf2_device_info raw sizes = Panic \<longleftrightarrow> geometry_overflows raw"
  by (cases "df_bytes_per_sector (device_columns (split_on 9 (lines (utf16_text raw) ! 2))
        (split_on 9 (lines (utf16_text raw) ! 3))) = 0")
    (auto simp: parse_ewf2_device_info_def geometry_overflows_def Let_def not_less not_le panic_simps split: if_splits)

section \<open>Sections\<close>

lemma read_file_no_panic [simp]: "read_exact (File f) n off \<noteq> Panic"
  by (rule positioned_read_exact_no_panic [OF file_source.positioned_source_axioms])

lemma collect_no_panic: "(\<And>x. x \<in> set xs \<Longrightarrow> f x \<noteq> Panic) \<Longrightarrow> collect (map f xs) \<noteq> Panic"
  by (induction xs) (auto simp: panic_simps split: result.splits)

lemma maybe_zlib_no_panic [simp]: "maybe_zlib_decompress X raw \<noteq> Panic"
  by (simp add: maybe_zlib_decompress_def)

lemma data_offset_no_panic [simp]: "data_offset_v2 what d \<noteq> Panic"
  by (simp add: data_offset_v2_def)

lemma data_offset_le: "data_offset_v2 what d = Ok off \<Longrightarrow> off \<le> d2_offset d"
  by (auto simp: data_offset_v2_def ok_eq_Some checked_sub_def split: if_splits option.splits)

lemma handle_sector_table_no_panic:
  assumes "d2_offset d + 64 \<le> length f" and "length f < 2 ^ 63"
  shows "handle_sector_table X f i d st \<noteq> Panic"
proof -
  have "plain_add off 32 \<noteq> Panic" if "data_offset_v2 (lit ''sector_table'') d = Ok off" for off
    using data_offset_le [OF that] assms by (simp add: panic_simps u64_max_def)
  moreover have "collect (map (\<lambda>k. and_then (index_range buf (k * 16) (k * 16 + 16)) (\<lambda>eb.
      and_then (ewf2_table_entry_parse X eb) (\<lambda>e. Ok (g e)))) [0..<n]) \<noteq> Panic"
    if "length buf = n * 16" for buf n and g :: "Ewf2TableEntry \<Rightarrow> Chunk"
  proof (rule collect_no_panic)
    fix k assume "k \<in> set [0..<n]"
    then have "k * 16 + 16 \<le> length buf" using that by auto
    then show "and_then (index_range buf (k * 16) (k * 16 + 16)) (\<lambda>eb.
      and_then (ewf2_table_entry_parse X eb) (\<lambda>e. Ok (g e))) \<noteq> Panic"
      by (auto simp: ewf2_table_entry_parse_def index_range_Panic panic_simps)
  qed
  ultimately show ?thesis
    by (auto simp: handle_sector_table_def ewf2_table_header_parse_def Let_def panic_simps
        file_source.read_exact_content split: if_splits)
qed

text \<open>A device information section of the file declares a geometry that overflows.\<close>

definition declares_overflow :: "externals \<Rightarrow> bytes \<Rightarrow> bool" where
  "declares_overflow X f \<longleftrightarrow>
    (\<exists>ds d buf raw. collect_ewf2_descriptors X f = Ok ds \<and> d \<in> set ds \<and> d2_section_type d = DeviceInfo
      \<and> read_exact (File f) (unat (d2_data_size d)) (d2_offset d - unat (d2_data_size d)) = Ok buf
      \<and> maybe_zlib_decompress X buf = Ok raw \<and> geometry_overflows raw)"

lemma handle_section_v2_panics:
  assumes "handle_section_v2 X f i d st = Panic" and "d2_offset d + 64 \<le> length f" and "length f < 2 ^ 63"
  shows "d2_section_type d = DeviceInfo \<and>
    (\<exists>buf raw. read_exact (File f) (unat (d2_data_size d)) (d2_offset d - unat (d2_data_size d)) = Ok buf
      \<and> maybe_zlib_decompress X buf = Ok raw \<and> geometry_overflows raw)"
proof -
  have "handle_case_data X f d st \<noteq> Panic" "handle_md5_hash f d st \<noteq> Panic" "handle_sha1_hash f d st \<noteq> Panic"
    by (simp_all add: handle_case_data_def handle_md5_hash_def handle_sha1_hash_def panic_simps)
  then have "d2_section_type d = DeviceInfo" "handle_device_info X f d st = Panic"
    using assms handle_sector_table_no_panic
    by (auto simp: handle_section_v2_def Let_def split: if_splits Ewf2SectionType.splits)
  then show ?thesis
    by (auto simp: handle_device_info_def data_offset_v2_def checked_sub_def panic_simps device_info_panics
        split: if_splits)
qed

lemma fold_result_panics: "fold_result f xs s = Panic \<Longrightarrow> \<exists>x s'. x \<in> set xs \<and> f x s' = Panic"
  by (induction xs arbitrary: s) (auto simp: panic_simps, blast)

lemma open_segment_v2_panics:
  assumes "open_segment_v2 X (i, f) st = Panic" and "length f < 2 ^ 63"
  shows "declares_overflow X f"
proof -
  have walk: "collect_ewf2_descriptors X f \<noteq> Panic" by (simp add: collect_ewf2_descriptors_def)
  then obtain ds where ds: "collect_ewf2_descriptors X f = Ok ds" "fold_result (handle_section_v2 X f i) ds st = Panic"
    using assms(1) by (auto simp: open_segment_v2_def panic_simps)
  obtain d st' where d: "d \<in> set ds" "handle_section_v2 X f i d st' = Panic" using fold_result_panics [OF ds(2)] by blast
  have "d2_offset d + 64 \<le> length f"
    using ewf2_walk_Ok [of X f "length f - 64" "[]" "[]"] ds(1) d(1)
    by (fastforce simp: collect_ewf2_descriptors_def split: if_splits)
  from handle_section_v2_panics [OF d(2) this assms(2)] show ?thesis
    using ds(1) d(1) unfolding declares_overflow_def by blast
qed

section \<open>Opening by path\<close>

text \<open>The chunks counted in all segments times the chunk size do not fit 64 bits, and no media size is declared.\<close>

definition chunks_overflow :: "externals \<Rightarrow> bytes list \<Rightarrow> bool" where
  "chunks_overflow X ordered \<longleftrightarrow>
    (\<exists>st. fold_result (open_segment_v2 X) (zip [0..<length ordered] ordered) open2_state_init = Ok st
      \<and> o2_total_size st = 0
      \<and> u64_max < length (o2_chunks st) * (if o2_chunk_size st = 0 then DEFAULT_V2_CHUNK_SIZE else o2_chunk_size st))"

text \<open>Files that can be opened or not, and are shorter than \<open>2\<^sup>6\<^sup>3\<close> bytes.\<close>

definition small_files :: "('p \<Rightarrow> bytes ewf_result) \<Rightarrow> bool" where
  "small_files FS \<longleftrightarrow> (\<forall>p. case FS p of Panic \<Rightarrow> False | Err e \<Rightarrow> True | Ok f \<Rightarrow> length f < 2 ^ 63)"

lemma small_files_no_panic: "small_files FS \<Longrightarrow> FS p \<noteq> Panic"
  by (auto simp: small_files_def dest: spec [of _ p])

lemma small_files_length: "small_files FS \<Longrightarrow> FS p = Ok f \<Longrightarrow> length f < 2 ^ 63"
  by (auto simp: small_files_def dest: spec [of _ p])

lemma open_segments_v2_panics:
  assumes "open_segments_v2 LP X FS paths cache_size = Panic" and "small_files FS"
  shows "(\<exists>p f. p \<in> set paths \<and> FS p = Ok f \<and> declares_overflow X f)
    \<or> (\<exists>fs. set fs \<subseteq> {f. \<exists>p \<in> set paths. FS p = Ok f} \<and> chunks_overflow X fs)"
proof -
  let ?open = "\<lambda>p. and_then (FS p) (\<lambda>f. and_then (read_exact (File f) EWF2_FILE_HEADER_SIZE 0)
    (\<lambda>hdr_buf. and_then (ewf2_file_header_parse X hdr_buf) (\<lambda>h. Ok (f, h))))"
  have hdr: "ewf2_file_header_parse X b \<noteq> Panic" for b
    by (auto simp: ewf2_file_header_parse_def compression_from_u16_def Let_def panic_simps)
  have "collect (map ?open paths) \<noteq> Panic"
    by (rule collect_no_panic) (auto simp: panic_simps small_files_no_panic [OF assms(2)] hdr)
  then obtain opened where opened: "collect (map ?open paths) = Ok opened"
    and rest: "and_then (validate_and_reorder_segments (map fst opened) (map (unat \<circ> fh2_segment_number \<circ> snd) opened))
      (\<lambda>ordered. and_then (fold_result (open_segment_v2 X) (zip [0..<length ordered] ordered) open2_state_init) (\<lambda>st.
        and_then (if o2_total_size st = 0 then plain_mul (length (o2_chunks st))
             (if o2_chunk_size st = 0 then DEFAULT_V2_CHUNK_SIZE else o2_chunk_size st) else Ok (o2_total_size st))
          (\<lambda>_. Ok ()))) = Panic"
    using assms(1) by (auto simp: open_segments_v2_def Let_def panic_simps)
  obtain ordered where ord: "validate_and_reorder_segments (map fst opened)
      (map (unat \<circ> fh2_segment_number \<circ> snd) opened) = Ok ordered"
    using rest reorder_no_panic [of "map fst opened" "map (unat \<circ> fh2_segment_number \<circ> snd) opened"]
    by (auto simp: panic_simps)
  have "set (map fst opened) \<subseteq> {f. \<exists>p \<in> set paths. FS p = Ok f}"
  proof
    fix f assume "f \<in> set (map fst opened)"
    then obtain h where "(f, h) \<in> set opened" by auto
    moreover have "map ?open paths = map Ok opened" using opened by simp
    ultimately obtain p where "p \<in> set paths" "?open p = Ok (f, h)"
      by (metis (no_types, lifting) image_iff image_set)
    then show "f \<in> {f. \<exists>p \<in> set paths. FS p = Ok f}" by auto
  qed
  then have files: "set ordered \<subseteq> {f. \<exists>p \<in> set paths. FS p = Ok f}" using reorder_subset [OF ord] by blast
  show ?thesis
  proof (cases "fold_result (open_segment_v2 X) (zip [0..<length ordered] ordered) open2_state_init")
    case (Ok st)
    then have "chunks_overflow X ordered"
      using rest ord by (auto simp: chunks_overflow_def panic_simps split: if_splits)
    then show ?thesis using files by blast
  next
    case Panic
    then obtain i f st where f: "(i, f) \<in> set (zip [0..<length ordered] ordered)" "open_segment_v2 X (i, f) st = Panic"
      using fold_result_panics by fast
    then obtain p where "p \<in> set paths" "FS p = Ok f" using files by (auto dest: set_zip_rightD)
    then show ?thesis using open_segment_v2_panics [OF f(2)] small_files_length [OF assms(2)] by blast
  next
    case (Err e)
    then show ?thesis using rest ord by (simp add: panic_simps)
  qed
qed

lemma open_segments_panics:
  fixes LS :: "('s, Chunk list) lru" and LP :: "('p, bytes) lru"
  assumes "small_files FS" and "open_segments_with_cache_size LS LP X FS paths cache_size = Panic"
  shows "probe_v2 FS (hd paths) = Ok True
    \<and> (open_segments_v2 LP X FS paths cache_size :: ('s, 'p) EwfReader ewf_result) = Panic"
proof -
  note quiet = small_files_no_panic [OF assms(1)]
  have "probe_v2 FS p \<noteq> Panic" for p by (simp add: probe_v2_def panic_simps quiet)
  moreover have "collect (map (\<lambda>p. map_ok File (FS p)) paths) \<noteq> Panic"
    by (rule collect_no_panic) (simp add: quiet)
  moreover have "open_v1 LS LP X sources cache_size None \<noteq> Panic"
    if "collect (map (\<lambda>p. map_ok File (FS p)) paths) = Ok sources" for sources
  proof (rule open_v1_safe)
    have same: "map (\<lambda>p. map_ok File (FS p)) paths = map Ok sources" using that by simp
    have "small_source src" if "src \<in> set sources" for src
    proof -
      have "Ok src \<in> set (map (\<lambda>p. map_ok File (FS p)) paths)" unfolding same using that by simp
      then obtain p where "map_ok File (FS p) = Ok src" by (metis imageE set_map)
      then show ?thesis using small_files_length [OF assms(1)] small_file by auto
    qed
    then show "list_all small_source sources" by (simp add: list_all_iff)
  qed
  ultimately show ?thesis
    using assms(2) by (auto simp: open_segments_with_cache_size_def panic_simps split: if_splits)
qed

text \<open>C9: opening segment files by path panics only for EWF v2, and there only when a device information section
  declares a chunk or media size that does not fit 64 bits, or when no media size is declared and the
  chunks counted in the tables amount to more than 64 bits can count.
\<close>

theorem open_panics_only_on_overflow:
  assumes "small_files FS" and "open_segments_with_cache_size LS LP X FS paths cache_size = Panic"
  shows "probe_v2 FS (hd paths) = Ok True \<and>
    ((\<exists>p f. p \<in> set paths \<and> FS p = Ok f \<and> declares_overflow X f)
     \<or> (\<exists>fs. set fs \<subseteq> {f. \<exists>p \<in> set paths. FS p = Ok f} \<and> chunks_overflow X fs))"
  using open_segments_panics [OF assms] open_segments_v2_panics [OF _ assms(1)] by blast

text \<open>
  An Ex01 file of one section, whose device information declares chunks of two sectors of
  \<open>2\<^sup>6\<^sup>3\<close> bytes.
\<close>

definition overflow_info :: bytes where
  "overflow_info = concat (map (\<lambda>c. [of_nat c, 0])
    (lit ''1'' @ [10] @ lit ''main'' @ [10] @ lit ''b'' @ [9] @ lit ''sc'' @ [10]
     @ lit ''9223372036854775808'' @ [9] @ lit ''2'' @ [10]))"

definition overflow_file :: bytes where
  "overflow_file = EVF2_SIGNATURE @ [2, 1, 1, 0, 1, 0, 0, 0] @ replicate 16 0 @ overflow_info
    @ [1, 0, 0, 0, 0, 0, 0, 0] @ replicate 8 0 @ [of_nat (length overflow_info), 0, 0, 0, 0, 0, 0, 0]
    @ [64, 0, 0, 0] @ replicate 36 0"

lemma overflow_file_panics:
  "open_segments_with_cache_size lru_list_ops lru_list_ops ref_externals (\<lambda>_. Ok overflow_file) [0 :: nat] 1 = Panic"
proof -
  have "case open_segments_with_cache_size lru_list_ops lru_list_ops ref_externals (\<lambda>_. Ok overflow_file) [0 :: nat] 1 of
      Panic \<Rightarrow> True | _ \<Rightarrow> False" by code_simp
  then show ?thesis by (simp split: result.splits)
qed

theorem open_panics_only_on_overflow_witness:
  "declares_overflow ref_externals overflow_file \<or>
    (\<exists>fs. set fs \<subseteq> {overflow_file} \<and> chunks_overflow ref_externals fs)"
proof -
  have "small_files (\<lambda>_ :: nat. Ok overflow_file)"
  proof -
    have "length overflow_file < 2 ^ 63" by code_simp
    then show ?thesis by (simp add: small_files_def)
  qed
  from open_panics_only_on_overflow [OF this overflow_file_panics] show ?thesis by auto
qed

text \<open>
  EWF v2 has no limit on the chunk size either: a size above \<open>isize::MAX\<close> opens, and the first
  chunk that is read panics in the allocation of its buffer.
\<close>

lemma huge_chunks_panic: "ISIZE_MAX < rd_chunk_size r \<Longrightarrow> fst (decompress_chunk LS X r chunk_id) = Panic"
  by (simp add: decompress_chunk_def)

end
