(* ===== verification/Logical_Tree.thy ===== *)
theory Logical_Tree
  imports Ewf2_Format
begin

text \<open>
  Logical evidence, \<open>core/src/logical.rs\<close>: the \<open>ltree\<close> section header and its checksum, the
  entry tree in its text body, the search for the section over the segment files, the
  extension sequence of segment files, and the data extents of an entry.

  A path is its parent directory and its final component. A vector of more than
  \<open>isize::MAX\<close> bytes cannot be allocated and panics.
\<close>

abbreviation (input) LTREE_HEADER_SIZE :: nat where "LTREE_HEADER_SIZE \<equiv> 48"

section \<open>The header\<close>

record LtreeHeader =
  lh_data_md5 :: bytes
  lh_data_size :: u64
  lh_checksum :: u32

definition ltree_header_parse :: "externals \<Rightarrow> bytes \<Rightarrow> LtreeHeader ewf_result" where
  "ltree_header_parse X buf =
    (if length buf < LTREE_HEADER_SIZE then Err (BufferTooShort LTREE_HEADER_SIZE (length buf))
     else Ok \<lparr>lh_data_md5 = slice 0 16 buf, lh_data_size = x_le_u64 X buf 16,
              lh_checksum = x_le_u32 X buf 24\<rparr>)"

definition verify_checksum :: "externals \<Rightarrow> LtreeHeader \<Rightarrow> bytes \<Rightarrow> bool" where
  "verify_checksum X h buf =
    (case get_range buf 0 LTREE_HEADER_SIZE of
       None \<Rightarrow> False
     | Some hdr \<Rightarrow> adler32 X (take 24 hdr @ replicate 4 0 @ drop 28 hdr) = lh_checksum h)"

section \<open>Entries\<close>

record LogicalEntry =
  le_name :: rstr
  le_short_name :: rstr
  le_is_dir :: bool
  le_size :: nat
  le_md5 :: "rstr option"
  le_id :: nat
  le_children :: "nat list"
  le_parent :: "nat option"
  le_raw :: "rstr \<rightharpoonup> rstr"

datatype ltree_warning = ValueCount nat nat nat | ShortNameSize nat rstr

record LogicalTree =
  lt_entries :: "LogicalEntry list"
  lt_indicators :: "rstr list"
  lt_warnings :: "ltree_warning list"

text \<open>The decoded text and the number of unpaired surrogates replaced by U+FFFD.\<close>

definition decode_ltree_text :: "bytes \<Rightarrow> rstr \<times> nat" where
  "decode_ltree_text data =
    (let cs = decode_utf16 (utf16_units data)
     in (map (\<lambda>c. case c of Some x \<Rightarrow> x | None \<Rightarrow> 0xFFFD) cs, length (filter (\<lambda>c. c = None) cs)))"

text \<open>\<open>l.split('\t').nth(1).and_then(|v| v.trim().parse::<usize>().ok())\<close>\<close>

definition sub_count :: "rstr \<Rightarrow> nat option" where
  "sub_count l = Option.bind (get_at (split_on 9 l) 1) (\<lambda>v. parse_u64 (trim v))"

definition raw_fields :: "rstr list \<Rightarrow> rstr list \<Rightarrow> rstr \<rightharpoonup> rstr" where
  "raw_fields indicators values = map_of (rev (zip indicators values))"

definition raw_get :: "(rstr \<rightharpoonup> rstr) \<Rightarrow> rstr \<Rightarrow> rstr" where
  "raw_get raw k = (case raw k of Some v \<Rightarrow> v | None \<Rightarrow> [])"

definition unwrap_or :: "'a \<Rightarrow> 'a option \<Rightarrow> 'a" where
  "unwrap_or d x = (case x of Some v \<Rightarrow> v | None \<Rightarrow> d)"

text \<open>The 8.3 alias and the warning its declared size gives.\<close>

definition short_name_of :: "nat \<Rightarrow> rstr \<Rightarrow> rstr \<times> ltree_warning list" where
  "short_name_of i snh =
    (case split_once 32 snh of
       Some (declared, name) \<Rightarrow>
         (name, if parse_u64 declared \<noteq> Some (length name + 1) then [ShortNameSize i declared] else [])
     | None \<Rightarrow> (snh, []))"

definition md5_of :: "rstr \<Rightarrow> rstr option" where
  "md5_of h = (if h = [] then None else if list_all (\<lambda>b. b = 48) h then None else Some h)"

definition entry_of :: "(rstr \<rightharpoonup> rstr) \<Rightarrow> rstr \<Rightarrow> nat option \<Rightarrow> LogicalEntry" where
  "entry_of raw short_name parent =
    \<lparr>le_name = raw_get raw (lit ''n''),
     le_short_name = short_name,
     le_is_dir = (raw_get raw (lit ''p'') = lit ''1''),
     le_size = unwrap_or 0 (parse_u64 (trim (raw_get raw (lit ''ls'')))),
     le_md5 = md5_of (raw_get raw (lit ''ha'')),
     le_id = unwrap_or 0 (parse_u64 (trim (raw_get raw (lit ''id'')))),
     le_children = [],
     le_parent = parent,
     le_raw = raw\<rparr>"

text \<open>\<open>tree.entries[p].children.push(idx)\<close>; \<open>p\<close> is the index of an earlier entry.\<close>

definition add_child :: "nat option \<Rightarrow> nat \<Rightarrow> LogicalEntry list \<Rightarrow> LogicalEntry list" where
  "add_child parent idx entries =
    (case parent of
       None \<Rightarrow> entries
     | Some p \<Rightarrow> entries[p := (entries ! p)\<lparr>le_children := le_children (entries ! p) @ [idx]\<rparr>])"

text \<open>The entry pair at lines \<open>i\<close> and \<open>i + 1\<close>: the tree with the entry added.\<close>

definition push_entry ::
  "nat \<Rightarrow> rstr \<Rightarrow> nat option \<Rightarrow> LogicalTree \<Rightarrow> LogicalTree" where
  "push_entry i values_line parent tree =
    (let values = split_on 9 values_line;
         indicators = lt_indicators tree;
         raw = raw_fields indicators values;
         (short_name, ws) = short_name_of i (raw_get raw (lit ''snh''));
         idx = length (lt_entries tree)
     in tree\<lparr>lt_warnings := lt_warnings tree
               @ (if length values \<noteq> length indicators
                  then [ValueCount i (length values) (length indicators)] else []) @ ws,
             lt_entries := add_child parent idx (lt_entries tree @ [entry_of raw short_name parent])\<rparr>)"

text \<open>
  \<open>parse_one\<close> for each of \<open>n\<close> sub-entries of \<open>parent\<close>: the loop of the caller, with the
  recursive call for the sub-entries of the entry itself. The line index never moves back,
  which is what makes the recursion end.
\<close>

function parse_subs ::
  "rstr list \<Rightarrow> nat option \<Rightarrow> nat \<Rightarrow> nat \<Rightarrow> LogicalTree \<Rightarrow> nat \<times> LogicalTree" where
  "parse_subs ls parent 0 i tree = (i, tree)"
| "parse_subs ls parent (Suc n) i tree =
    (case get_at ls i of
       None \<Rightarrow> parse_subs ls parent n i tree
     | Some counts \<Rightarrow>
         (case get_at ls (i + 1) of
            None \<Rightarrow> parse_subs ls parent n (i + 1) tree
          | Some values_line \<Rightarrow>
              let (j, tree') = parse_subs ls (Some (length (lt_entries tree)))
                                 (unwrap_or 0 (sub_count counts)) (i + 2)
                                 (push_entry i values_line parent tree)
              in parse_subs ls parent n j tree'))"
  by pat_completeness auto

lemma parse_subs_forward:
  "parse_subs_dom (ls, parent, n, i, tree) \<Longrightarrow> i \<le> fst (parse_subs ls parent n i tree)"
proof (induction rule: parse_subs.pinduct)
  case (1 ls parent i tree)
  then show ?case by (simp add: parse_subs.psimps)
next
  case (2 ls parent n i tree)
  show ?case
  proof (cases "i + 1 < length ls")
    case True
    obtain j t where jt: "parse_subs ls (Some (length (lt_entries tree)))
        (unwrap_or 0 (sub_count (ls ! i))) (i + 2) (push_entry i (ls ! (i + 1)) parent tree) = (j, t)"
      by fastforce
    have "i + 2 \<le> j" using 2(4) [of "ls ! i" "ls ! (i + 1)"] True jt by (simp add: get_at_def)
    moreover have "j \<le> fst (parse_subs ls parent n j t)"
      using 2(5) [of "ls ! i" "ls ! (i + 1)"] True jt by (simp add: get_at_def)
    ultimately show ?thesis using 2(1) True jt by (simp add: parse_subs.psimps get_at_def)
  next
    case False
    then show ?thesis using 2(1,2) 2(3) [of "ls ! i"]
      by (cases "i < length ls") (auto simp: parse_subs.psimps get_at_def)
  qed
qed

termination parse_subs
proof (relation "measures [\<lambda>(ls, parent, n, i, tree). length ls - i, \<lambda>(ls, parent, n, i, tree). n]",
    goal_cases)
  case (5 ls parent n i tree counts values_line p j tree')
  then have "i + 2 \<le> j" using parse_subs_forward by (metis fst_conv)
  moreover from 5 have "i < length ls" by auto
  ultimately have "length ls - j < length ls - i" by linarith
  then show ?case by simp
qed auto

declare parse_subs.simps(2) [simp del]

definition malformed :: "string \<Rightarrow> rstr \<Rightarrow> EwfError" where
  "malformed field val = MalformedLogicalField (lit field) val"

text \<open>
  The values of the error strings that quote no input are left out of the model. Splitting
  never yields an empty list of indicators, so the check for one cannot fail.
\<close>

definition parse_entry_tree :: "rstr \<Rightarrow> LogicalTree ewf_result" where
  "parse_entry_tree text =
    (let ls = map (trim_end_matches 13) (split_on 10 text)
     in case find (\<lambda>i. ls ! i = lit ''entry'') [0..<length ls] of
          None \<Rightarrow> Err (malformed ''ltree category'' [])
        | Some cat \<Rightarrow>
            (case get_at ls (cat + 2) of
               None \<Rightarrow> Err (malformed ''ltree indicators'' [])
             | Some ind_line \<Rightarrow>
                 let indicators = split_on 9 ind_line;
                     tree = \<lparr>lt_entries = [], lt_indicators = indicators, lt_warnings = []\<rparr>;
                     cursor = cat + 3
                 in if indicators = [] then Err (malformed ''ltree indicators'' [])
                    else case Option.bind (get_at ls cursor) sub_count of
                           None \<Rightarrow> Err (malformed ''ltree root sub-count'' (unwrap_or [] (get_at ls cursor)))
                         | Some root_subs \<Rightarrow>
                             Ok (snd (parse_subs ls None root_subs (cursor + 2) tree))))"

section \<open>Paths and segment files\<close>

record path =
  p_parent :: "rstr option"
  p_file :: "rstr option"

text \<open>\<open>Path::file_stem\<close> and \<open>Path::extension\<close>: the final component cut at its last dot.\<close>

definition last_dot :: "rstr \<Rightarrow> nat option" where
  "last_dot name = find (\<lambda>i. name ! i = 46) (rev [0..<length name])"

definition split_name :: "rstr \<Rightarrow> rstr \<times> rstr option" where
  "split_name name =
    (if name = lit ''..'' then (name, None)
     else case last_dot name of
            None \<Rightarrow> (name, None)
          | Some k \<Rightarrow> if k = 0 then (name, None) else (take k name, Some (drop (k + 1) name)))"

definition file_stem :: "path \<Rightarrow> rstr option" where
  "file_stem p = map_option (fst \<circ> split_name) (p_file p)"

definition extension :: "path \<Rightarrow> rstr option" where
  "extension p = Option.bind (p_file p) (snd \<circ> split_name)"

definition segment_ext :: "nat \<Rightarrow> nat \<Rightarrow> rstr option" where
  "segment_ext prefix n =
    (if n = 0 then None
     else if n \<le> 99 then Some [prefix, 48 + n div 10, 48 + n mod 10]
     else let i = n - 100
          in if 26 * 26 \<le> i then None
             else Some [prefix, i div 26 + 65, i mod 26 + 65])"

text \<open>
  The loop over \<open>2..=775\<close>. \<open>is_file\<close> asks the file system; \<open>is_upper\<close> is the Unicode
  property behind \<open>char::is_uppercase\<close>.
\<close>

fun segment_paths_from ::
  "(path \<Rightarrow> bool) \<Rightarrow> path \<Rightarrow> rstr \<Rightarrow> rstr \<Rightarrow> nat \<Rightarrow> nat list \<Rightarrow> path list" where
  "segment_paths_from is_file first dir stem prefix [] = []"
| "segment_paths_from is_file first dir stem prefix (n # ns) =
    (case segment_ext prefix n of
       None \<Rightarrow> []
     | Some ext \<Rightarrow>
         let p = \<lparr>p_parent = Some dir, p_file = Some (stem @ 46 # ext)\<rparr>
         in if \<not> is_file p then []
            else if p \<noteq> first then p # segment_paths_from is_file first dir stem prefix ns
            else segment_paths_from is_file first dir stem prefix ns)"

definition segment_paths :: "(nat \<Rightarrow> bool) \<Rightarrow> (path \<Rightarrow> bool) \<Rightarrow> path \<Rightarrow> path list" where
  "segment_paths is_upper is_file first =
    first # (case file_stem first of
       None \<Rightarrow> []
     | Some stem \<Rightarrow>
         (case extension first of
            None \<Rightarrow> []
          | Some ext0 \<Rightarrow>
              let upper = (case ext0 of [] \<Rightarrow> False | c # _ \<Rightarrow> is_upper c);
                  prefix = (if upper then 76 else 108);
                  dir = unwrap_or (lit ''.'') (p_parent first)
              in segment_paths_from is_file first dir stem prefix [2..<776]))"

section \<open>Finding the ltree section\<close>

text \<open>
  The walk over the sections of one file: the section's header and body, or nothing found.
  An offset that does not fit \<open>off_t\<close> fails the seek. Every step reads a descriptor at an
  offset not seen before, so there are no more steps than offsets.
\<close>

definition read_ltree :: "externals \<Rightarrow> bytes \<Rightarrow> SectionDescriptor \<Rightarrow> (LtreeHeader \<times> bytes) ewf_result" where
  "read_ltree X f desc =
    (let off = sd_offset desc;
         payload_len = sat_sub (unat (sd_size desc)) SECTION_DESCRIPTOR_SIZE
     in if payload_len < LTREE_HEADER_SIZE then Err (BufferTooShort LTREE_HEADER_SIZE payload_len)
        else
          and_then (read_exact (File f) LTREE_HEADER_SIZE (off + SECTION_DESCRIPTOR_SIZE)) (\<lambda>head.
          and_then (ltree_header_parse X head) (\<lambda>header.
            if ISIZE_MAX < payload_len - LTREE_HEADER_SIZE then Panic
            else and_then (read_exact (File f) (payload_len - LTREE_HEADER_SIZE)
                     (off + SECTION_DESCRIPTOR_SIZE + LTREE_HEADER_SIZE)) (\<lambda>body.
              Ok (header, take (unat (lh_data_size header)) body)))))"

function ltree_walk ::
  "externals \<Rightarrow> bytes \<Rightarrow> nat \<Rightarrow> nat list \<Rightarrow> (LtreeHeader \<times> bytes) option ewf_result" where
  "ltree_walk X f off seen =
    (if off \<in> set seen then Ok None
     else if ISIZE_MAX < off then Err (Io InvalidInput)
     else
       case read_exact (File f) SECTION_DESCRIPTOR_SIZE off of
         Ok d \<Rightarrow>
           (case descriptor_parse X d off of
              Ok desc \<Rightarrow>
                if sd_type desc = lit ''ltree'' then map_ok Some (read_ltree X f desc)
                else if unat (sd_next desc) = off \<or> sd_next desc = 0 \<or> sd_type desc = lit ''done''
                then Ok None
                else ltree_walk X f (unat (sd_next desc)) (off # seen)
            | _ \<Rightarrow> Ok None)
       | _ \<Rightarrow> Ok None)"
  by pat_completeness auto
termination
proof (relation "measure (\<lambda>(X, f, off, seen). card ({..<length f} - set seen))", goal_cases)
  case (2 X f off seen d desc)
  from 2(3) have "off + 76 \<le> length f" by (simp add: file_source.read_exact_content split: if_splits)
  then have "off \<in> {..<length f} - set seen" using 2(1) by simp
  then have "card ({..<length f} - set seen - {off}) < card ({..<length f} - set seen)"
    by (intro card_Diff1_less) simp_all
  moreover have "{..<length f} - set seen - {off} = {..<length f} - set (off # seen)" by auto
  ultimately show ?case by simp
qed simp

declare ltree_walk.simps [simp del]

fun find_ltree_in ::
  "externals \<Rightarrow> (path \<Rightarrow> bytes ewf_result) \<Rightarrow> nat \<Rightarrow> path list \<Rightarrow> (LtreeHeader \<times> bytes) ewf_result" where
  "find_ltree_in X FS searched [] = Err (NotLogicalEvidence searched)"
| "find_ltree_in X FS searched (p # ps) =
    and_then (FS p) (\<lambda>f.
      case read_exact (File f) FILE_HEADER_SIZE 0 of
        Ok hdr \<Rightarrow>
          and_then (file_header_parse hdr) (\<lambda>_.
          and_then (ltree_walk X f FILE_HEADER_SIZE []) (\<lambda>found.
            case found of
              Some r \<Rightarrow> Ok r
            | None \<Rightarrow> find_ltree_in X FS (searched + 1) ps))
      | _ \<Rightarrow> find_ltree_in X FS (searched + 1) ps)"

definition find_ltree ::
  "(nat \<Rightarrow> bool) \<Rightarrow> (path \<Rightarrow> bool) \<Rightarrow> externals \<Rightarrow> (path \<Rightarrow> bytes ewf_result) \<Rightarrow> path
    \<Rightarrow> (LtreeHeader \<times> bytes) ewf_result" where
  "find_ltree is_upper is_file X FS first_segment =
    find_ltree_in X FS 0 (segment_paths is_upper is_file first_segment)"

section \<open>Extents\<close>

record Extent =
  ex_offset :: nat
  ex_size :: nat
  ex_sparse :: bool

text \<open>
  The tokens up to the offset of an extent: a leading \<open>s\<close> marks it sparse, any other token
  that is not hexadecimal is skipped.
\<close>

fun extent_flags :: "rstr \<Rightarrow> rstr list \<Rightarrow> bool \<Rightarrow> (nat \<times> bool \<times> rstr list) ewf_result" where
  "extent_flags v [] sparse = Err (malformed ''be'' v)"
| "extent_flags v (tok # toks) sparse =
    (if eq_ignore_ascii_case tok (lit ''s'') then extent_flags v toks True
     else case parse_u64_hex tok of
            None \<Rightarrow> extent_flags v toks sparse
          | Some offset \<Rightarrow> Ok (offset, sparse, toks))"

fun parse_extents :: "rstr \<Rightarrow> nat \<Rightarrow> rstr list \<Rightarrow> Extent list ewf_result" where
  "parse_extents v 0 toks = Ok []"
| "parse_extents v (Suc n) toks =
    and_then (extent_flags v toks False) (\<lambda>(offset, sparse, rest).
      case rest of
        [] \<Rightarrow> Err (malformed ''be size'' v)
      | size_tok # rest' \<Rightarrow>
          (case parse_u64_hex size_tok of
             None \<Rightarrow> Err (malformed ''be size'' size_tok)
           | Some sz \<Rightarrow>
               map_ok (\<lambda>exs. \<lparr>ex_offset = offset, ex_size = sz, ex_sparse = sparse\<rparr> # exs)
                 (parse_extents v n rest')))"

definition parse_binary_extents :: "rstr \<Rightarrow> Extent list ewf_result" where
  "parse_binary_extents v =
    (case split_whitespace v of
       [] \<Rightarrow> Err (malformed ''be extent count'' v)
     | c # toks \<Rightarrow>
         (case parse_u64 c of
            None \<Rightarrow> Err (malformed ''be extent count'' v)
          | Some count \<Rightarrow> parse_extents v count toks))"

definition entry_extents :: "LogicalEntry \<Rightarrow> Extent list ewf_result" where
  "entry_extents e =
    (case le_raw e (lit ''be'') of
       None \<Rightarrow> Ok []
     | Some v \<Rightarrow> if v = [] then Ok [] else parse_binary_extents v)"

text \<open>\<open>Iterator::sum\<close> on \<open>u64\<close> adds plainly.\<close>

fun sum_u64 :: "nat \<Rightarrow> nat list \<Rightarrow> nat ewf_result" where
  "sum_u64 acc [] = Ok acc"
| "sum_u64 acc (n # ns) = and_then (plain_add acc n) (\<lambda>s. sum_u64 s ns)"

text \<open>
  The media stream of the caller: a seek, and a \<open>read_exact\<close> of some bytes at the position
  sought.
\<close>

record media_stream =
  m_seek :: "nat \<Rightarrow> unit ewf_result"
  m_read_exact :: "nat \<Rightarrow> nat \<Rightarrow> bytes ewf_result"

text \<open>\<open>out.resize(out.len() + want, 0)\<close>\<close>

definition resize_by :: "bytes \<Rightarrow> nat \<Rightarrow> bytes ewf_result" where
  "resize_by out want =
    and_then (plain_add (length out) want) (\<lambda>n.
      if ISIZE_MAX < n then Panic else Ok (out @ replicate want 0))"

fun read_extents :: "media_stream \<Rightarrow> Extent list \<Rightarrow> bytes \<Rightarrow> bytes ewf_result" where
  "read_extents media [] out = Ok out"
| "read_extents media (ex # exs) out =
    (if ex_sparse ex then and_then (resize_by out (ex_size ex)) (read_extents media exs)
     else
       and_then (m_seek media (ex_offset ex)) (\<lambda>_.
       and_then (resize_by out (ex_size ex)) (\<lambda>_.
       and_then (m_read_exact media (ex_offset ex) (ex_size ex)) (\<lambda>bs.
         read_extents media exs (out @ bs)))))"

definition duplicate_offset :: "LogicalEntry \<Rightarrow> nat option" where
  "duplicate_offset e =
    (case Option.bind (le_raw e (lit ''du'')) (\<lambda>v. parse_u64 (trim v)) of
       None \<Rightarrow> None
     | Some off \<Rightarrow> if 0 < off then Some off else None)"

definition read_entry ::
  "LogicalTree \<Rightarrow> media_stream \<Rightarrow> nat \<Rightarrow> bytes ewf_result" where
  "read_entry tree media index =
    (case get_at (lt_entries tree) index of
       None \<Rightarrow> Err (malformed ''entry index'' [])
     | Some e \<Rightarrow>
         if le_is_dir e then Ok []
         else
           and_then (entry_extents e) (\<lambda>extents.
           and_then (if 1 < le_size e then map_ok (\<lambda>s. s \<le> 1) (sum_u64 0 (map ex_size extents))
                     else Ok False) (\<lambda>is_placeholder.
             case (if is_placeholder then duplicate_offset e else None) of
               Some off \<Rightarrow>
                 if ISIZE_MAX < le_size e then Panic
                 else and_then (m_seek media off) (\<lambda>_. m_read_exact media off (le_size e))
             | None \<Rightarrow> map_ok (take (le_size e)) (read_extents media extents []))))"

end
