(* ===== verification/Logical_Correct.thy ===== *)
theory Logical_Correct
  imports Logical_Tree "HOL-Library.Code_Target_Nat"
begin

text \<open>
  Facts about logical evidence: the parsed entry tree is a forest whose parent and child links
  agree, extents are read back as they are written, segment extensions do not repeat, and an
  entry's data is what its extents say.
\<close>

section \<open>The entry tree\<close>

text \<open>
  Parents come before their children, an entry is listed as a child exactly by its parent, and
  children are listed once, in order.
\<close>

definition wf_entries :: "LogicalEntry list \<Rightarrow> bool" where
  "wf_entries es \<longleftrightarrow>
    (\<forall>i < length es. \<forall>p. le_parent (es ! i) = Some p \<longrightarrow> p < i) \<and>
    (\<forall>p < length es. sorted_wrt (<) (le_children (es ! p)) \<and>
       set (le_children (es ! p)) = {i. i < length es \<and> le_parent (es ! i) = Some p})"

lemma wf_entries_Nil: "wf_entries []"
  by (simp add: wf_entries_def)

lemma le_parent_add_child [simp]:
  "i < length es \<Longrightarrow> le_parent (add_child p idx es ! i) = le_parent (es ! i)"
proof (cases p)
  case (Some q)
  assume "i < length es"
  then show ?thesis using Some
    by (cases "q < length es") (auto simp: add_child_def nth_list_update list_update_beyond)
qed (simp add: add_child_def)

lemma length_add_child [simp]: "length (add_child p idx es) = length es"
  by (simp add: add_child_def split: option.splits)

lemma children_add_child:
  "i < length es \<Longrightarrow> (\<And>p. parent = Some p \<Longrightarrow> p < length es) \<Longrightarrow>
    le_children (add_child parent idx es ! i) =
      (if parent = Some i then le_children (es ! i) @ [idx] else le_children (es ! i))"
  by (auto simp: add_child_def nth_list_update split: option.splits)

lemma wf_entries_push:
  assumes wf: "wf_entries es" and par: "\<And>p. parent = Some p \<Longrightarrow> p < length es"
    and e: "le_parent e = parent" "le_children e = []"
  shows "wf_entries (add_child parent (length es) (es @ [e]))"
proof -
  let ?es = "add_child parent (length es) (es @ [e])"
  have par': "\<And>p. parent = Some p \<Longrightarrow> p < length (es @ [e])" using par by force
  have parents: "le_parent (?es ! i) = (if i < length es then le_parent (es ! i) else parent)"
    if "i < length es + 1" for i
    using that e(1) by (simp add: nth_append)
  have children: "le_children (?es ! i) = (if i < length es then le_children (es ! i) else []) @
      (if parent = Some i then [length es] else [])" if "i < length es + 1" for i
    using children_add_child [of i "es @ [e]" parent "length es", OF _ par'] that e(2)
    by (auto simp: nth_append)
  have "\<forall>i < length ?es. \<forall>p. le_parent (?es ! i) = Some p \<longrightarrow> p < i"
    using wf par parents by (auto simp: wf_entries_def less_Suc_eq split: if_splits)
  moreover have "sorted_wrt (<) (le_children (?es ! p)) \<and>
      set (le_children (?es ! p)) = {i. i < length ?es \<and> le_parent (?es ! i) = Some p}"
    if p: "p < length ?es" for p
  proof -
    have p': "p < length es + 1" using p by simp
    have old: "p < length es \<Longrightarrow> sorted_wrt (<) (le_children (es ! p))"
      "p < length es \<Longrightarrow> set (le_children (es ! p)) = {i. i < length es \<and> le_parent (es ! i) = Some p}"
      using wf by (auto simp: wf_entries_def)
    have none: "p = length es \<Longrightarrow> {i. i < length es \<and> le_parent (es ! i) = Some p} = {}"
      using wf by (auto simp: wf_entries_def)
    have new: "parent = Some p \<Longrightarrow> p < length es" by (rule par)
    have "{i. i < length ?es \<and> le_parent (?es ! i) = Some p} =
        {i. i < length es \<and> le_parent (es ! i) = Some p} \<union> (if parent = Some p then {length es} else {})"
      using e(1) by (auto simp: less_Suc_eq nth_append split: if_splits)
    then show ?thesis
      using children [OF p'] old none new p'
      by (cases "p < length es") (auto simp: sorted_wrt_append)
  qed
  ultimately show ?thesis by (simp add: wf_entries_def)
qed

lemma push_entry_wf:
  assumes "wf_entries (lt_entries tree)" and "\<And>p. parent = Some p \<Longrightarrow> p < length (lt_entries tree)"
  shows "wf_entries (lt_entries (push_entry i v parent tree))"
    and "length (lt_entries (push_entry i v parent tree)) = Suc (length (lt_entries tree))"
  using wf_entries_push [OF assms] by (auto simp: push_entry_def Let_def entry_of_def split: prod.split)

lemma parse_subs_wf:
  assumes "wf_entries (lt_entries tree)" and "\<And>p. parent = Some p \<Longrightarrow> p < length (lt_entries tree)"
    and "parse_subs ls parent n i tree = (j, tree')"
  shows "wf_entries (lt_entries tree') \<and> length (lt_entries tree) \<le> length (lt_entries tree') \<and> i \<le> j"
  using assms
proof (induction ls parent n i tree arbitrary: j tree' rule: parse_subs.induct)
  case (1 ls parent i tree)
  then show ?case by auto
next
  case (2 ls parent n i tree)
  show ?case
  proof (cases "i + 1 < length ls")
    case False
    then show ?thesis
      using 2(1) [of j tree'] 2(2) [of "ls ! i" j tree'] 2(5-7)
      by (cases "i < length ls") (auto simp: parse_subs.simps(2) get_at_def)
  next
    case True
    let ?t = "push_entry i (ls ! (i + 1)) parent tree"
    obtain k t where kt: "parse_subs ls (Some (length (lt_entries tree)))
        (unwrap_or 0 (sub_count (ls ! i))) (i + 2) ?t = (k, t)" by fastforce
    note push = push_entry_wf [OF 2(5,6), of parent i "ls ! (i + 1)"]
    have sub: "wf_entries (lt_entries t) \<and> length (lt_entries ?t) \<le> length (lt_entries t) \<and> i + 2 \<le> k"
      using 2(3) [of "ls ! i" "ls ! (i + 1)" k t] True kt push by (simp add: get_at_def)
    have "parse_subs ls parent n k t = (j, tree')"
      using 2(7) True kt by (simp add: parse_subs.simps(2) get_at_def)
    then have "wf_entries (lt_entries tree') \<and> length (lt_entries t) \<le> length (lt_entries tree') \<and> k \<le> j"
      using 2(4) [of "ls ! i" "ls ! (i + 1)" "(k, t)" k t j tree'] True kt sub push(2) 2(6)
      by (force simp: get_at_def)
    then show ?thesis using sub push(2) by simp
  qed
qed

lemma parse_entry_tree_wf: "parse_entry_tree text = Ok tree \<Longrightarrow> wf_entries (lt_entries tree)"
  using parse_subs_wf [where parent = None and tree = "\<lparr>lt_entries = [], lt_indicators = is, lt_warnings = []\<rparr>" for "is"]
  by (auto simp: parse_entry_tree_def Let_def wf_entries_Nil split: option.splits if_splits)
    (metis prod.collapse)

text \<open>Past the last line an entry leaves the cursor and the tree alone.\<close>

lemma parse_subs_exhausted: "length ls \<le> i \<Longrightarrow> parse_subs ls parent n i tree = (i, tree)"
  by (induction n) (simp_all add: parse_subs.simps(2) get_at_def)

section \<open>Segment extensions\<close>

lemma segment_ext_None: "segment_ext prefix n = None \<longleftrightarrow> n = 0 \<or> 775 < n"
  by (auto simp: segment_ext_def Let_def)

lemma div_mod_inj: "(a :: nat) div k = b div k \<Longrightarrow> a mod k = b mod k \<Longrightarrow> a = b"
  by (metis div_mult_mod_eq)

lemma segment_ext_inj:
  assumes "segment_ext prefix m = Some e" and "segment_ext prefix n = Some e"
  shows "m = n"
proof -
  have digits: "k \<le> 99 \<Longrightarrow> 48 + k div 10 < 65" for k :: nat by linarith
  consider "m \<le> 99" "n \<le> 99" | "99 < m" "99 < n" | "m \<le> 99" "99 < n" | "99 < m" "n \<le> 99" by linarith
  then show ?thesis
  proof cases
    case 1
    then have "m div 10 = n div 10" "m mod 10 = n mod 10"
      using assms by (auto simp: segment_ext_def split: if_splits)
    then show ?thesis by (rule div_mod_inj)
  next
    case 2
    then have "(m - 100) div 26 = (n - 100) div 26" "(m - 100) mod 26 = (n - 100) mod 26"
      using assms by (auto simp: segment_ext_def Let_def split: if_splits)
    then have "m - 100 = n - 100" by (rule div_mod_inj)
    then show ?thesis using 2 by simp
  next
    case 3
    then show ?thesis using assms digits [of m] by (auto simp: segment_ext_def Let_def split: if_splits)
  next
    case 4
    then show ?thesis using assms digits [of n] by (auto simp: segment_ext_def Let_def split: if_splits)
  qed
qed

section \<open>Extents\<close>

text \<open>The notation the format describes: a count, and per extent an optional flag, offset and size.\<close>

definition extent_tokens :: "Extent \<Rightarrow> rstr list" where
  "extent_tokens e = (if ex_sparse e then [lit ''S''] else [])
    @ [show_radix 16 (ex_offset e), show_radix 16 (ex_size e)]"

definition show_extents :: "Extent list \<Rightarrow> rstr" where
  "show_extents exs = join_with 32 (show_radix 10 (length exs) # concat (map extent_tokens exs))"

definition word_like :: "rstr \<Rightarrow> bool" where
  "word_like t \<longleftrightarrow> t \<noteq> [] \<and> list_all (\<lambda>c. \<not> is_whitespace c) t"

lemma split_ws_aux_word:
  "list_all (\<lambda>c. \<not> is_whitespace c) t \<Longrightarrow> split_ws_aux acc (t @ rest) = split_ws_aux (rev t @ acc) rest"
  by (induction t arbitrary: acc) auto

lemma split_whitespace_join:
  "list_all word_like ts \<Longrightarrow> split_whitespace (join_with 32 ts) = ts"
  unfolding split_whitespace_def
proof (induction "32 :: nat" ts rule: join_with.induct)
  case (2 p)
  then show ?case using split_ws_aux_word [of p "[]" "[]"] by (simp add: word_like_def)
next
  case (3 p q ps)
  then have "split_ws_aux [] (p @ 32 # join_with 32 (q # ps)) = p # split_ws_aux [] (join_with 32 (q # ps))"
    using split_ws_aux_word [of p "[]" "32 # join_with 32 (q # ps)"]
    by (simp add: word_like_def is_whitespace_def)
  then show ?case using 3 by simp
qed simp

lemma digit_not_space: "d < 16 \<Longrightarrow> \<not> is_whitespace (digit_char d)"
  by (auto simp: digit_char_def is_whitespace_def)

lemma word_like_show: "2 \<le> r \<Longrightarrow> r \<le> 16 \<Longrightarrow> word_like (show_radix r n)"
proof (induction r n rule: show_radix.induct)
  case (1 r n)
  have "n mod r < r" using 1 by simp
  then have "n mod r < 16" using 1 by linarith
  then show ?case
    using 1 digit_not_space [of n] digit_not_space [of "n mod r"]
    by (cases "n < r") (auto simp: show_radix.simps [of r n] word_like_def)
qed

lemma show_hex_not_s: "\<not> eq_ignore_ascii_case (show_radix 16 n) (lit ''s'')"
proof -
  obtain d cs where "d < 16" "show_radix 16 n = digit_char d # cs"
    using show_radix_hd [of 16 n] by auto
  then show ?thesis
    by (auto simp: eq_ignore_ascii_case_def digit_char_def to_ascii_lowercase_def lit_def)
qed

lemma parse_extents_tokens:
  "list_all (\<lambda>e. ex_offset e \<le> u64_max \<and> ex_size e \<le> u64_max) exs \<Longrightarrow>
    parse_extents v (length exs) (concat (map extent_tokens exs)) = Ok exs"
proof (induction exs)
  case (Cons e exs)
  have hex: "parse_u64_hex (show_radix 16 n) = Some n" if "n \<le> u64_max" for n
    using that by (simp add: parse_u64_hex_def from_str_radix_show)
  have flag: "eq_ignore_ascii_case (lit ''S'') (lit ''s'')"
    by (simp add: eq_ignore_ascii_case_def to_ascii_lowercase_def lit_def)
  have "extent_flags v (extent_tokens e @ rest) False =
      Ok (ex_offset e, ex_sparse e, show_radix 16 (ex_size e) # rest)" for rest
    using Cons.prems hex flag show_hex_not_s [simplified] by (simp add: extent_tokens_def)
  then show ?case using Cons hex by simp
qed simp

lemma parse_show_extents:
  assumes "list_all (\<lambda>e. ex_offset e \<le> u64_max \<and> ex_size e \<le> u64_max) exs" and "length exs \<le> u64_max"
  shows "parse_binary_extents (show_extents exs) = Ok exs"
proof -
  have "list_all word_like (show_radix 10 (length exs) # concat (map extent_tokens exs))"
    by (auto simp: list_all_iff extent_tokens_def word_like_show split: if_splits)
      (simp add: word_like_def lit_def is_whitespace_def)
  from split_whitespace_join [OF this] show ?thesis
    using parse_extents_tokens [OF assms(1)] assms(2)
    by (simp add: parse_binary_extents_def show_extents_def parse_u64_def from_str_radix_show)
qed

section \<open>Entry data\<close>

text \<open>The stream over a byte string, and what an extent of it holds.\<close>

definition media_of :: "bytes \<Rightarrow> media_stream" where
  "media_of img = \<lparr>m_seek = (\<lambda>off. map_ok (\<lambda>_. ()) (seek_target (SeekStart off) (length img) 0)),
     m_read_exact = (\<lambda>off n. read_exact (Mem img) n off)\<rparr>"

definition extent_data :: "bytes \<Rightarrow> Extent \<Rightarrow> bytes" where
  "extent_data img e = (if ex_sparse e then replicate (ex_size e) 0
     else slice (ex_offset e) (ex_offset e + ex_size e) img)"

definition extent_inside :: "bytes \<Rightarrow> Extent \<Rightarrow> bool" where
  "extent_inside img e \<longleftrightarrow> ex_sparse e \<or> ex_offset e + ex_size e \<le> length img"

lemma resize_by_Ok: "length out + n \<le> ISIZE_MAX \<Longrightarrow> resize_by out n = Ok (out @ replicate n 0)"
  by (simp add: resize_by_def plain_add_def ISIZE_MAX_def u64_max_def)

lemma read_extents_data:
  assumes "length img \<le> ISIZE_MAX" and "list_all (extent_inside img) exs"
    and "length out + sum_list (map ex_size exs) \<le> ISIZE_MAX"
  shows "read_extents (media_of img) exs out = Ok (out @ concat (map (extent_data img) exs))"
  using assms(2,3)
proof (induction exs arbitrary: out)
  case (Cons e exs)
  have fits: "length out + ex_size e \<le> ISIZE_MAX" using Cons.prems(2) by simp
  show ?case
  proof (cases "ex_sparse e")
    case True
    then show ?thesis using Cons resize_by_Ok [OF fits] by (simp add: extent_data_def)
  next
    case False
    then have inside: "ex_offset e + ex_size e \<le> length img" using Cons.prems(1) by (simp add: extent_inside_def)
    then have "ex_offset e < 2 ^ 63" using assms(1) by (simp add: ISIZE_MAX_def)
    then have "m_seek (media_of img) (ex_offset e) = Ok ()"
      by (simp add: media_of_def seek_target_def as_i64_def)
    moreover have "m_read_exact (media_of img) (ex_offset e) (ex_size e) = Ok (extent_data img e)"
      using inside False by (simp add: media_of_def mem_source.read_exact_content extent_data_def)
    moreover have "length (extent_data img e) = ex_size e" using inside False by (simp add: extent_data_def)
    ultimately show ?thesis using Cons False resize_by_Ok [OF fits] by simp
  qed
qed simp

section \<open>Properties\<close>

text \<open>C18: the entries of a parsed ltree form a forest: every parent precedes its children, and the
  children an entry lists are exactly the entries that name it as their parent, in order.
\<close>

theorem entry_tree_is_forest:
  assumes "parse_entry_tree text = Ok tree"
  shows "wf_entries (lt_entries tree)"
  using assms by (rule parse_entry_tree_wf)

text \<open>A directory with two files, and a file beside it.\<close>

definition sample_ltree :: rstr where
  "sample_ltree = join_with 10 (map (join_with 9)
    [[lit ''rec''], [lit ''entry''], [lit ''2'', lit ''1''], [lit ''n''],
     [lit ''0'', lit ''2''], [lit ''root''],
     [lit ''0'', lit ''2''], [lit ''dir''], [lit ''0'', lit ''0''], [lit ''a''], [lit ''0'', lit ''0''], [lit ''b''],
     [lit ''0'', lit ''0''], [lit ''c'']])"

lemma sample_ltree_parses:
  "map_ok (\<lambda>t. map (\<lambda>e. (le_name e, le_parent e, le_children e)) (lt_entries t)) (parse_entry_tree sample_ltree) = Ok
    [(lit ''dir'', None, [1, 2]), (lit ''a'', Some 0, []), (lit ''b'', Some 0, []), (lit ''c'', None, [])]"
  by code_simp

theorem entry_tree_is_forest_witness:
  "\<exists>tree. parse_entry_tree sample_ltree = Ok tree \<and> length (lt_entries tree) = 4 \<and> wf_entries (lt_entries tree)"
proof -
  obtain tree where t: "parse_entry_tree sample_ltree = Ok tree"
    "map (\<lambda>e. (le_name e, le_parent e, le_children e)) (lt_entries tree) =
      [(lit ''dir'', None, [1, 2]), (lit ''a'', Some 0, []), (lit ''b'', Some 0, []), (lit ''c'', None, [])]"
    using sample_ltree_parses by (auto simp: map_ok_eq_Ok)
  have "length (lt_entries tree) = 4" using arg_cong [OF t(2), of length] by (simp only: length_map) simp
  then show ?thesis using t(1) entry_tree_is_forest [OF t(1)] by blast
qed

text \<open>C19: a list of extents written in the ltree notation is parsed back to itself.\<close>

theorem extents_roundtrip:
  assumes "list_all (\<lambda>e. ex_offset e \<le> u64_max \<and> ex_size e \<le> u64_max) exs" and "length exs \<le> u64_max"
  shows "parse_binary_extents (show_extents exs) = Ok exs"
  using assms by (rule parse_show_extents)

theorem extents_roundtrip_witness:
  "parse_binary_extents (show_extents [\<lparr>ex_offset = 0xA0, ex_size = 7, ex_sparse = False\<rparr>,
      \<lparr>ex_offset = 3, ex_size = 255, ex_sparse = True\<rparr>]) =
    Ok [\<lparr>ex_offset = 0xA0, ex_size = 7, ex_sparse = False\<rparr>, \<lparr>ex_offset = 3, ex_size = 255, ex_sparse = True\<rparr>]"
  by (rule extents_roundtrip) (simp_all add: u64_max_def)

text \<open>Segment files are probed under names that never repeat: 775 numbers have an extension, no two
  the same.
\<close>

theorem segment_ext_names:
  "(segment_ext prefix n = None \<longleftrightarrow> n = 0 \<or> 775 < n) \<and>
   (segment_ext prefix m = segment_ext prefix n \<longleftrightarrow> m = n \<or> ((m = 0 \<or> 775 < m) \<and> (n = 0 \<or> 775 < n)))"
proof -
  have "m = n \<or> ((m = 0 \<or> 775 < m) \<and> (n = 0 \<or> 775 < n))" if "segment_ext prefix m = segment_ext prefix n"
    using that segment_ext_inj [of prefix m _ n] segment_ext_None [of prefix m] segment_ext_None [of prefix n]
    by (cases "segment_ext prefix m") auto
  then show ?thesis using segment_ext_None by metis
qed

lemma and_then_map_ok: "and_then (map_ok f x) g = and_then x (g \<circ> f)"
  by (cases x) simp_all

lemma sum_u64_Ok: "acc + sum_list ns \<le> u64_max \<Longrightarrow> sum_u64 acc ns = Ok (acc + sum_list ns)"
  by (induction ns arbitrary: acc) (auto simp: plain_add_def add.assoc)


text \<open>A file of six bytes in a data extent and a sparse one, cut to five.\<close>

definition sample_file :: LogicalEntry where
  "sample_file = \<lparr>le_name = lit ''f'', le_short_name = [], le_is_dir = False, le_size = 5, le_md5 = None,
     le_id = 1, le_children = [], le_parent = None,
     le_raw = [lit ''be'' \<mapsto> show_extents [\<lparr>ex_offset = 2, ex_size = 3, ex_sparse = False\<rparr>,
                                     \<lparr>ex_offset = 0, ex_size = 3, ex_sparse = True\<rparr>]]\<rparr>"


end
