(* ===== verification/Discover.thy ===== *)
theory Discover
  imports Logical_Correct Reader_Open "HOL-Library.List_Lexorder" "HOL-Library.Multiset"
begin

text \<open>
  Finding the segment files of an image by name, and opening an image by the path of its first
  segment (\<open>discover_segments\<close>, \<open>EwfReader::open\<close>, \<open>core/src/reader.rs\<close>). The \<open>glob\<close>
  package is not part of the sources: \<open>globs pattern\<close> stands for the paths that it lists for a
  pattern (entries it cannot read and patterns it rejects give none), \<open>escape\<close> for
  \<open>glob::Pattern::escape\<close>. Paths are the records of \<open>Logical_Tree\<close>, over text.
\<close>

section \<open>Finding the segments\<close>

definition path_display :: "path \<Rightarrow> rstr" where
  "path_display p =
    (let f = unwrap_or [] (p_file p)
     in case p_parent p of None \<Rightarrow> f | Some d \<Rightarrow> if d = [] then f else d @ 47 # f)"

definition segment_dir :: "path \<Rightarrow> rstr" where
  "segment_dir first =
    (case p_parent first of
       Some parent \<Rightarrow> if parent \<noteq> [] then parent else lit ''.''
     | None \<Rightarrow> lit ''.'')"

text \<open>The extension that decides the patterns: the default for a name with none.\<close>

definition effective_ext :: "path \<Rightarrow> rstr" where
  "effective_ext first =
    (case extension first of
       Some e \<Rightarrow> if e \<noteq> [] then e else lit ''E01''
     | None \<Rightarrow> lit ''E01'')"

definition segment_patterns :: "rstr \<Rightarrow> rstr \<Rightarrow> rstr \<Rightarrow> rstr list" where
  "segment_patterns parent escaped_stem ext =
    (let prefix = (case ext of [] \<Rightarrow> 69 | c # _ \<Rightarrow> to_ascii_uppercase c);
         lc = to_ascii_lowercase prefix;
         start = parent @ lit ''/'' @ escaped_stem @ lit ''.['' @ [prefix, lc] @ lit '']''
     in if utf8_len ext = 4
        then [start @ lit ''[x-z][0-9][0-9]'', start @ lit ''[x-z][A-Za-z][A-Za-z]'']
        else [start @ lit ''[0-9][0-9]'', start @ lit ''[A-Za-z][A-Za-z]''])"

definition sort_ext :: "path \<Rightarrow> rstr" where
  "sort_ext p = map to_ascii_uppercase (unwrap_or [] (extension p))"

definition discover_segments ::
  "(rstr \<Rightarrow> path list) \<Rightarrow> (rstr \<Rightarrow> rstr) \<Rightarrow> path \<Rightarrow> path list ewf_result" where
  "discover_segments globs escape first =
    (case file_stem first of
       None \<Rightarrow> Err (NoSegments (path_display first))
     | Some stem \<Rightarrow>
         let paths = concat (map globs
               (segment_patterns (segment_dir first) (escape stem) (effective_ext first)))
         in if paths = [] then Err (NoSegments (path_display first))
            else Ok (sort_key sort_ext paths))"

definition open_path_with_cache_size ::
  "('s, Chunk list) lru \<Rightarrow> ('p, bytes) lru \<Rightarrow> externals \<Rightarrow> (rstr \<Rightarrow> path list) \<Rightarrow> (rstr \<Rightarrow> rstr)
    \<Rightarrow> (path \<Rightarrow> bytes ewf_result) \<Rightarrow> path \<Rightarrow> nat \<Rightarrow> ('s, 'p) EwfReader ewf_result" where
  "open_path_with_cache_size LS LP X globs escape FS path cache_size =
    and_then (discover_segments globs escape path) (\<lambda>paths.
      open_segments_with_cache_size LS LP X FS paths cache_size)"

definition open_path ::
  "('s, Chunk list) lru \<Rightarrow> ('p, bytes) lru \<Rightarrow> externals \<Rightarrow> (rstr \<Rightarrow> path list) \<Rightarrow> (rstr \<Rightarrow> rstr)
    \<Rightarrow> (path \<Rightarrow> bytes ewf_result) \<Rightarrow> path \<Rightarrow> ('s, 'p) EwfReader ewf_result" where
  "open_path LS LP X globs escape FS path =
    and_then (discover_segments globs escape path) (\<lambda>paths. open_segments LS LP X FS paths)"

section \<open>The order of the extensions\<close>

lemma div_mod_less: "(m :: nat) < n \<Longrightarrow> m div k < n div k \<or> m div k = n div k \<and> m mod k < n mod k"
  using div_le_mono [of m n k] div_mult_mod_eq [of m k] div_mult_mod_eq [of n k]
  by (metis le_neq_implies_less less_imp_le nat_add_left_cancel_less)

lemma segment_ext_less:
  assumes "0 < m" and "m < n" and "n \<le> 775"
  shows "the (segment_ext c m) < the (segment_ext c n)"
proof -
  consider "n \<le> 99" | "m \<le> 99" "99 < n" | "99 < m" by linarith
  then show ?thesis
  proof cases
    case 1
    then show ?thesis using div_mod_less [of m n 10] assms by (auto simp: segment_ext_def)
  next
    case 2
    then have "48 + m div 10 < (n - 100) div 26 + 65" by linarith
    then show ?thesis using 2 assms by (auto simp: segment_ext_def Let_def)
  next
    case 3
    then show ?thesis
      using div_mod_less [of "m - 100" "n - 100" 26] assms by (auto simp: segment_ext_def Let_def)
  qed
qed

text \<open>The path of segment \<open>n\<close> of an image, and its extension in the order of the sort.\<close>

definition segment_path :: "rstr \<Rightarrow> rstr \<Rightarrow> nat \<Rightarrow> nat \<Rightarrow> path" where
  "segment_path dir stem prefix n =
    \<lparr>p_parent = Some dir, p_file = Some (stem @ 46 # the (segment_ext prefix n))\<rparr>"

lemma rev_find_last: "find P (rev [0..<n]) = Some k \<longleftrightarrow> k < n \<and> P k \<and> (\<forall>j. k < j \<and> j < n \<longrightarrow> \<not> P j)"
proof (induction n)
  case (Suc n)
  show ?case
  proof (cases "P n")
    case True
    then show ?thesis using Suc by (auto simp: less_Suc_eq)
  next
    case False
    then show ?thesis using Suc by (auto simp: less_Suc_eq)
  qed
qed simp

lemma split_name_segment:
  assumes "stem \<noteq> []" and "46 \<notin> set e" and "e \<noteq> []"
  shows "split_name (stem @ 46 # e) = (stem, Some e)"
proof -
  have "last_dot (stem @ 46 # e) = Some (length stem)"
    using assms(2) unfolding last_dot_def rev_find_last by (auto simp: nth_append nth_Cons' in_set_conv_nth)
  moreover have "stem @ 46 # e \<noteq> lit ''..''"
    using assms by (auto simp: lit_def append_eq_Cons_conv Cons_eq_append_conv)
  ultimately show ?thesis using assms(1) by (simp add: split_name_def)
qed

lemma segment_ext_upper:
  assumes "65 \<le> c" and "c \<le> 90" and "0 < n" and "n \<le> 775"
  shows "map to_ascii_uppercase (the (segment_ext c n)) = the (segment_ext c n)"
    and "46 \<notin> set (the (segment_ext c n))" and "the (segment_ext c n) \<noteq> []"
proof -
  have "(n - 100) div 26 < 26" "(n - 100) mod 26 < 26" using assms by auto
  then show "map to_ascii_uppercase (the (segment_ext c n)) = the (segment_ext c n)"
    "46 \<notin> set (the (segment_ext c n))" "the (segment_ext c n) \<noteq> []"
    using assms by (auto simp: segment_ext_def to_ascii_uppercase_def Let_def)
qed

lemma sort_ext_segment:
  assumes "stem \<noteq> []" and "65 \<le> c" and "c \<le> 90" and "0 < n" and "n \<le> 775"
  shows "sort_ext (segment_path dir stem c n) = the (segment_ext c n)"
  using split_name_segment [OF assms(1)] segment_ext_upper [OF assms(2-5)]
  by (simp add: sort_ext_def segment_path_def extension_def unwrap_or_def)

lemma sort_segments:
  assumes "stem \<noteq> []" and "65 \<le> c" and "c \<le> 90" and "n \<le> 775"
    and "mset ps = mset (map (segment_path dir stem c) [1..<n + 1])"
  shows "sort_key sort_ext ps = map (segment_path dir stem c) [1..<n + 1]"
proof (rule sort_key_inj_key_eq)
  let ?ks = "[1..<n + 1]"
  have key: "sort_ext (segment_path dir stem c k) = the (segment_ext c k)" if "k \<in> set ?ks" for k
    using that assms by (intro sort_ext_segment) auto
  show "mset ps = mset (map (segment_path dir stem c) ?ks)" by (rule assms(5))
  have asc: "sorted_wrt (\<lambda>a b. the (segment_ext c a) < the (segment_ext c b)) ?ks"
    using assms(4) by (auto simp: sorted_wrt_iff_nth_less intro!: segment_ext_less simp del: upt_Suc)
  show "sorted (map sort_ext (map (segment_path dir stem c) ?ks))"
    unfolding sorted_wrt_map by (rule sorted_wrt_mono_rel [OF _ asc]) (simp add: key less_imp_le del: upt_Suc)
  have "set ps = segment_path dir stem c ` set ?ks" using mset_eq_setD [OF assms(5)] by simp
  moreover have inj: "inj_on (\<lambda>k. the (segment_ext c k)) (set ?ks)"
  proof (rule inj_onI)
    fix a b
    assume ab: "a \<in> set ?ks" "b \<in> set ?ks" "the (segment_ext c a) = the (segment_ext c b)"
    then have "0 < a" "0 < b" "a \<le> 775" "b \<le> 775" using assms(4) by auto
    then show "a = b"
      using ab(3) segment_ext_less [of a b c] segment_ext_less [of b a c] by (cases a b rule: linorder_cases) auto
  qed
  moreover have "inj_on (sort_ext \<circ> segment_path dir stem c) (set ?ks)"
    using inj inj_on_cong [of "set ?ks" "sort_ext \<circ> segment_path dir stem c"] key by (simp del: upt_Suc set_upt)
  ultimately show "inj_on sort_ext (set ps)" by (simp only: inj_on_imageI)
qed

section \<open>Properties\<close>

text \<open>When the directory listing gives exactly the segments 1 to \<open>n\<close> of an image, in any order and
  from whichever of the two patterns, opening by path visits them in number order: the sort by
  extension puts E99 before EAA and never mixes them.
\<close>

theorem discover_in_order:
  fixes dir stem :: rstr and c n :: nat
  assumes "stem \<noteq> []" and "65 \<le> c" and "c \<le> 90" and "0 < n" and "n \<le> 775" and "file_stem first = Some stem"
    and "mset (concat (map globs (segment_patterns (segment_dir first) (escape stem) (effective_ext first))))
      = mset (map (segment_path dir stem c) [1..<n + 1])"
  shows "discover_segments globs escape first = Ok (map (segment_path dir stem c) [1..<n + 1])"
proof -
  let ?ps = "concat (map globs (segment_patterns (segment_dir first) (escape stem) (effective_ext first)))"
  have "length ?ps = n" using arg_cong [OF assms(7), of size] by (simp del: upt_Suc)
  then have "?ps \<noteq> []" using assms(4) by auto
  then show ?thesis
    using sort_segments [OF assms(1-3,5,7)] assms(6) by (simp add: discover_segments_def Let_def del: upt_Suc)
qed

text \<open>A directory of 101 segments, listed letters first.\<close>

definition sample_globs :: "rstr \<Rightarrow> path list" where
  "sample_globs pat =
    (if pat = lit ''d/img.[Ee][0-9][0-9]'' then map (segment_path (lit ''d'') (lit ''img'') 69) (rev [1..<100])
     else if pat = lit ''d/img.[Ee][A-Za-z][A-Za-z]'' then map (segment_path (lit ''d'') (lit ''img'') 69) [101, 100]
     else [])"

theorem discover_in_order_witness:
  "discover_segments sample_globs id \<lparr>p_parent = Some (lit ''d''), p_file = Some (lit ''img.E01'')\<rparr>
    = Ok (map (segment_path (lit ''d'') (lit ''img'') 69) [1..<102])"
proof -
  let ?first = "\<lparr>p_parent = Some (lit ''d''), p_file = Some (lit ''img.E01'')\<rparr>"
  have name: "lit ''img.E01'' = lit ''img'' @ 46 # lit ''E01''" by (simp add: lit_def)
  have split: "split_name (lit ''img.E01'') = (lit ''img'', Some (lit ''E01''))"
    unfolding name by (rule split_name_segment) (simp_all add: lit_def)
  have ext: "effective_ext ?first = lit ''E01''" using split by (simp add: effective_ext_def extension_def)
  have pats: "segment_patterns (segment_dir ?first) (id (lit ''img'')) (effective_ext ?first) =
      [lit ''d/img.[Ee][0-9][0-9]'', lit ''d/img.[Ee][A-Za-z][A-Za-z]'']"
    unfolding ext by (simp add: segment_patterns_def segment_dir_def lit_def to_ascii_uppercase_def
        to_ascii_lowercase_def utf8_len_def utf8_encode_def utf8_char_def)
  have "[1..<102] = [1..<100] @ [100, 101]"
    using upt_add_eq_append [of 1 100 2] by (simp add: upt_rec [of 100] upt_rec [of 101])
  then have listed: "mset (concat (map sample_globs (segment_patterns (segment_dir ?first) (id (lit ''img'')) (effective_ext ?first))))
      = mset (map (segment_path (lit ''d'') (lit ''img'') 69) [1..<101 + 1])"
    unfolding pats by (simp add: sample_globs_def lit_def ac_simps)
  have "file_stem ?first = Some (lit ''img'')" using split by (simp add: file_stem_def)
  from discover_in_order [where stem = "lit ''img''" and c = 69 and n = 101 and dir = "lit ''d''"
      and globs = sample_globs and escape = id, OF _ _ _ _ _ this listed]
  show ?thesis by (simp del: upt_Suc)
qed

end
