(* ===== verification/Cli_Handlers.thy ===== *)
theory Cli_Handlers
  imports Discover Reader_Sessions Sample_Image
begin

text \<open>
  The tool handlers of the command line program and the MCP server (\<open>cli/src/handlers.rs\<close>): image
  information, verification, sector reads, the section listing, the byte pattern search and the
  extraction to a file. A handler opens the image itself; \<open>opened\<close> is what
  \<open>EwfReader::open(path)\<close> returned, for instance \<open>open_path\<close> of \<open>Discover\<close>. The messages of
  the error strings are the constructors of \<open>handler_error\<close>, and the JSON value is built as
  \<open>json!\<close> builds it, the members of an object in source order.
\<close>

section \<open>Values and errors\<close>

text \<open>
  \<open>JNum\<close> is a number that fits \<open>u64\<close>; every other number is \<open>JOtherNum\<close> with its text.
\<close>

datatype json =
    JNull
  | JBool bool
  | JNum nat
  | JOtherNum rstr
  | JStr rstr
  | JArr "json list"
  | JObj "(rstr \<times> json) list"

datatype handler_error =
    ReaderError EwfError
  | OffsetExceeds nat nat
  | CannotExtractStem rstr
  | NoSegmentsFor rstr
  | HexOddLength
  | HexInvalid
  | HexEmpty
  | OutputError

type_synonym 'a handled = "(handler_error, 'a) result"

text \<open>\<open>map_err(|e| format!("{e}"))\<close>.\<close>

primrec report :: "'a ewf_result \<Rightarrow> 'a handled" where
  "report (Ok x) = Ok x"
| "report (Err e) = Err (ReaderError e)"
| "report Panic = Panic"

definition json_opt :: "('a \<Rightarrow> json) \<Rightarrow> 'a option \<Rightarrow> json" where
  "json_opt f x = (case x of None \<Rightarrow> JNull | Some y \<Rightarrow> f y)"

abbreviation json_hex :: "bytes \<Rightarrow> json" where
  "json_hex bs \<equiv> JStr (hex_string bs)"

section \<open>Information and verification\<close>

definition json_metadata :: "EwfMetadata \<Rightarrow> json" where
  "json_metadata meta =
    JObj [(lit ''case_number'', json_opt JStr (md_case_number meta)),
          (lit ''evidence_number'', json_opt JStr (md_evidence_number meta)),
          (lit ''description'', json_opt JStr (md_description meta)),
          (lit ''examiner'', json_opt JStr (md_examiner meta)),
          (lit ''notes'', json_opt JStr (md_notes meta)),
          (lit ''acquiry_software'', json_opt JStr (md_acquiry_software meta)),
          (lit ''os_version'', json_opt JStr (md_os_version meta)),
          (lit ''acquiry_date'', json_opt JStr (md_acquiry_date meta)),
          (lit ''system_date'', json_opt JStr (md_system_date meta))]"

definition handle_ewf_info :: "('s, 'p) EwfReader ewf_result \<Rightarrow> json handled" where
  "handle_ewf_info opened =
    map_ok (\<lambda>reader.
      JObj [(lit ''media_size'', JNum (rd_total_size reader)),
            (lit ''chunk_size'', JNum (rd_chunk_size reader)),
            (lit ''chunk_count'', JNum (chunk_count reader)),
            (lit ''stored_hashes'',
              JObj [(lit ''md5'', json_opt json_hex (sh_md5 (stored_hashes reader))),
                    (lit ''sha1'', json_opt json_hex (sh_sha1 (stored_hashes reader)))]),
            (lit ''metadata'', json_metadata (rd_metadata reader)),
            (lit ''acquisition_errors'',
              JArr (map (\<lambda>e. JObj [(lit ''first_sector'', JNum (unat (ae_first_sector e))),
                                   (lit ''sector_count'', JNum (unat (ae_sector_count e)))])
                     (rd_acquisition_errors reader)))]) (report opened)"

definition handle_ewf_verify ::
  "('s, Chunk list) lru \<Rightarrow> externals \<Rightarrow> nat \<Rightarrow> ('s, 'p) EwfReader ewf_result \<Rightarrow> json handled" where
  "handle_ewf_verify LS X threads opened =
    and_then (report opened) (\<lambda>reader.
      map_ok (\<lambda>v.
        JObj [(lit ''computed_md5'', json_hex (vr_computed_md5 v)),
              (lit ''computed_sha1'', json_opt json_hex (vr_computed_sha1 v)),
              (lit ''md5_match'', json_opt JBool (vr_md5_match v)),
              (lit ''sha1_match'', json_opt JBool (vr_sha1_match v)),
              (lit ''complete'', JBool (is_complete v)),
              (lit ''addressable_bytes'', JNum (vr_addressable_bytes v)),
              (lit ''declared_bytes'', JNum (vr_declared_bytes v)),
              (lit ''missing_bytes'', JNum (missing_bytes v))])
        (report (fst (verify LS X threads reader))))"

section \<open>Sector reads\<close>

text \<open>A loop that reads at least one byte comes closer to its end.\<close>

lemma less_after_read: "bs \<noteq> [] \<Longrightarrow> off < n \<Longrightarrow> n - (off + length bs) < n - off" for off n :: nat
  by (cases bs) auto

text \<open>
  \<open>Read::read_exact\<close> of the standard library over the reader: \<open>acc\<close> is the part of the buffer
  already filled, an empty read before it is full is an error.
\<close>

function reader_read_exact ::
  "('s, Chunk list) lru \<Rightarrow> ('p, bytes) lru \<Rightarrow> externals \<Rightarrow> ('s, 'p) EwfReader \<Rightarrow> nat \<Rightarrow> bytes
    \<Rightarrow> bytes ewf_result" where
  "reader_read_exact LS LP X r n acc =
    (if n \<le> length acc then Ok acc
     else case reader_read LS LP X r (n - length acc) of
       (Ok bs, r') \<Rightarrow>
         if bs = [] then Err (Io UnexpectedEof)
         else reader_read_exact LS LP X r' n (acc @ bs)
     | (Err e, r') \<Rightarrow> Err e
     | (Panic, r') \<Rightarrow> Panic)"
  by pat_completeness (elim Pair_inject, simp only:)
termination reader_read_exact
  by (relation "measure (\<lambda>(LS, LP, X, r, n, acc). n - length acc)") (auto intro: less_after_read)

declare reader_read_exact.simps [simp del]

definition handle_ewf_read_sectors ::
  "('s, Chunk list) lru \<Rightarrow> ('p, bytes) lru \<Rightarrow> externals \<Rightarrow> ('s, 'p) EwfReader ewf_result
    \<Rightarrow> nat \<Rightarrow> nat \<Rightarrow> json handled" where
  "handle_ewf_read_sectors LS LP X opened offset len =
    and_then (report opened) (\<lambda>reader.
      let total_size = rd_total_size reader
      in if total_size \<le> offset then Err (OffsetExceeds offset total_size)
         else
           let actual_len = min len (total_size - offset)
           in and_then (report (reader_seek reader (SeekStart offset))) (\<lambda>(_, reader').
                if ISIZE_MAX < actual_len then Panic
                else map_ok (\<lambda>buf. JObj [(lit ''offset'', JNum offset), (lit ''length'', JNum actual_len),
                                          (lit ''hex'', json_hex buf)])
                       (report (reader_read_exact LS LP X reader' actual_len []))))"

section \<open>The section listing\<close>

definition section_row :: "nat \<Rightarrow> SectionDescriptor \<Rightarrow> json" where
  "section_row seg_idx desc =
    JObj [(lit ''segment'', JNum seg_idx), (lit ''type'', JStr (sd_type desc)),
          (lit ''offset'', JNum (sd_offset desc)), (lit ''size'', JNum (unat (sd_size desc)))]"

text \<open>
  The loop over one segment file; the bound is a plain addition to an offset that the file
  provides. Between two reads the chain moves forward, so the loop ends.
\<close>

function list_segment_sections ::
  "externals \<Rightarrow> bytes \<Rightarrow> nat \<Rightarrow> nat \<Rightarrow> json list \<Rightarrow> json list handled" where
  "list_segment_sections X content seg_idx offset rows =
    (if u64_max < offset + 76 then Panic
     else if length content < offset + 76 then Ok rows
     else case seek_read_exact (File content) offset 76 of
       Err e \<Rightarrow> Err (ReaderError e)
     | Panic \<Rightarrow> Panic
     | Ok buf \<Rightarrow>
         (case descriptor_parse X buf offset of
            Err e \<Rightarrow> Err (ReaderError e)
          | Panic \<Rightarrow> Panic
          | Ok desc \<Rightarrow>
              let rows' = rows @ [section_row seg_idx desc]
              in if unat (sd_next desc) = 0 \<or> unat (sd_next desc) \<le> offset then Ok rows'
                 else list_segment_sections X content seg_idx (unat (sd_next desc)) rows'))"
  by pat_completeness auto
termination list_segment_sections
  by (relation "measure (\<lambda>(X, content, i, off, rows). length content - off)") auto

declare list_segment_sections.simps [simp del]

fun list_segments ::
  "externals \<Rightarrow> (path \<Rightarrow> bytes ewf_result) \<Rightarrow> nat \<Rightarrow> path list \<Rightarrow> json list \<Rightarrow> json list handled" where
  "list_segments X FS seg_idx [] rows = Ok rows"
| "list_segments X FS seg_idx (p # ps) rows =
    and_then (report (FS p)) (\<lambda>content.
    and_then (list_segment_sections X content seg_idx 13 rows) (\<lambda>rows'.
      list_segments X FS (seg_idx + 1) ps rows'))"

text \<open>The handler has its own copy of the segment search, for E01 names only.\<close>

definition list_patterns :: "rstr \<Rightarrow> rstr \<Rightarrow> rstr list" where
  "list_patterns parent escaped_stem =
    [parent @ lit ''/'' @ escaped_stem @ lit ''.[Ee][0-9][0-9]'',
     parent @ lit ''/'' @ escaped_stem @ lit ''.[Ee][A-Za-z][A-Za-z]'']"

definition handle_ewf_list_sections ::
  "externals \<Rightarrow> (rstr \<Rightarrow> path list) \<Rightarrow> (rstr \<Rightarrow> rstr) \<Rightarrow> (path \<Rightarrow> bytes ewf_result) \<Rightarrow> path \<Rightarrow> json handled" where
  "handle_ewf_list_sections X globs escape FS first =
    (case file_stem first of
       None \<Rightarrow> Err (CannotExtractStem (path_display first))
     | Some stem \<Rightarrow>
         let parent = unwrap_or (lit ''.'') (p_parent first);
             seg_paths = concat (map globs (list_patterns parent (escape stem)))
         in if seg_paths = [] then Err (NoSegmentsFor (path_display first))
            else map_ok (\<lambda>rows. JObj [(lit ''sections'', JArr rows)])
                   (list_segments X FS 0 (sort_key sort_ext seg_paths) []))"

section \<open>The pattern search\<close>

text \<open>\<open>str::is_char_boundary\<close> at the start of a run of UTF-8 bytes.\<close>

definition char_boundary :: "nat list \<Rightarrow> bool" where
  "char_boundary bs = (case bs of [] \<Rightarrow> True | b # _ \<Rightarrow> \<not> is_cont b)"

text \<open>The pairs of the pattern in order, up to the first that is no byte; a slice inside a
  character panics.\<close>

fun hex_pairs :: "nat list \<Rightarrow> bytes handled" where
  "hex_pairs (a # b # rest) =
    (if char_boundary (a # b # rest) \<and> char_boundary rest then
       (case from_str_radix 255 16 (utf8_lossy_nat [a, b]) of
          None \<Rightarrow> Err HexInvalid
        | Some n \<Rightarrow> map_ok ((#) (of_nat n)) (hex_pairs rest))
     else Panic)"
| "hex_pairs _ = Ok []"

text \<open>
  The scan of one window, whose byte 0 is at \<open>start\<close> in the image: the loop over \<open>i\<close> with its
  break.
\<close>

fun scan_window :: "bytes \<Rightarrow> nat \<Rightarrow> bytes \<Rightarrow> nat \<Rightarrow> nat list \<Rightarrow> nat list \<Rightarrow> nat list" where
  "scan_window pattern max_results window start [] found = found"
| "scan_window pattern max_results window start (i # is) found =
    (if slice i (i + length pattern) window = pattern then
       (let found' = found @ [start + i]
        in if max_results \<le> length found' then found'
           else scan_window pattern max_results window start is found')
     else scan_window pattern max_results window start is found)"

definition SEARCH_BUF :: nat where
  "SEARCH_BUF = 64 * 1024"

text \<open>
  The loop over the image. \<open>carried\<close> is the front of the buffer, the tail of the window before:
  \<open>buf[..search_len]\<close> is \<open>carried\<close> followed by what was read. It never exceeds
  \<open>file_offset\<close>, so the subtraction in the match offset does not wrap.
\<close>

function search_loop ::
  "('s, Chunk list) lru \<Rightarrow> ('p, bytes) lru \<Rightarrow> externals \<Rightarrow> bytes \<Rightarrow> nat \<Rightarrow> nat
    \<Rightarrow> ('s, 'p) EwfReader \<Rightarrow> nat \<Rightarrow> bytes \<Rightarrow> nat list \<Rightarrow> nat list ewf_result" where
  "search_loop LS LP X pattern max_results total_size r file_offset carried found =
    (if file_offset < total_size \<and> length found < max_results then
       let to_read = min SEARCH_BUF (total_size - file_offset)
       in (case reader_read LS LP X r to_read of
             (Ok bs, r') \<Rightarrow>
               if bs = [] then Ok found
               else
                 let window = carried @ bs;
                     search_len = length window;
                     last_start = (if length pattern \<le> search_len then search_len - length pattern + 1 else 0);
                     found' = scan_window pattern max_results window (file_offset - length carried)
                                [0..<last_start] found;
                     overlap = length pattern - 1;
                     carried' = (if 1 < length pattern \<and> overlap \<le> search_len
                                 then drop (search_len - overlap) window else [])
                 in if u64_max < file_offset + length bs then Panic
                    else search_loop LS LP X pattern max_results total_size r'
                           (file_offset + length bs) carried' found'
           | (Err e, r') \<Rightarrow> Err e
           | (Panic, r') \<Rightarrow> Panic)
     else Ok found)"
  by pat_completeness (elim Pair_inject, simp only:)
termination search_loop
  by (relation "measure (\<lambda>(LS, LP, X, p, m, total_size, r, off, c, f). total_size - off)")
    (auto simp: Let_def intro: less_after_read)

declare search_loop.simps [simp del]

definition handle_ewf_search ::
  "('s, Chunk list) lru \<Rightarrow> ('p, bytes) lru \<Rightarrow> externals \<Rightarrow> ('s, 'p) EwfReader ewf_result
    \<Rightarrow> rstr \<Rightarrow> nat \<Rightarrow> json handled" where
  "handle_ewf_search LS LP X opened pattern_hex max_results =
    (if odd (utf8_len pattern_hex) then Err HexOddLength
     else and_then (hex_pairs (utf8_encode pattern_hex)) (\<lambda>pattern.
       if pattern = [] then Err HexEmpty
       else and_then (report opened) (\<lambda>reader.
            and_then (report (reader_seek reader (SeekStart 0))) (\<lambda>(_, reader').
              map_ok (\<lambda>found.
                JObj [(lit ''pattern'', JStr pattern_hex),
                      (lit ''matches'', JArr (map (\<lambda>off. JObj [(lit ''offset'', JNum off)]) found)),
                      (lit ''total_found'', JNum (length found))])
                (report (search_loop LS LP X pattern max_results (rd_total_size reader) reader' 0 [] []))))))"

section \<open>Extraction\<close>

text \<open>
  The copy loop, with what has been written. \<open>write_ok written bs\<close> says whether the operating
  system takes \<open>bs\<close> after \<open>written\<close>.
\<close>

function extract_loop ::
  "('s, Chunk list) lru \<Rightarrow> ('p, bytes) lru \<Rightarrow> externals \<Rightarrow> (bytes \<Rightarrow> bytes \<Rightarrow> bool)
    \<Rightarrow> ('s, 'p) EwfReader \<Rightarrow> nat \<Rightarrow> bytes \<Rightarrow> (nat \<times> bytes) handled" where
  "extract_loop LS LP X write_ok r remaining written =
    (if 0 < remaining then
       (case reader_read LS LP X r (min remaining (64 * 1024)) of
          (Ok bs, r') \<Rightarrow>
            if bs = [] then Ok (remaining, written)
            else if \<not> write_ok written bs then Err OutputError
            else if remaining < length bs then Panic
            else extract_loop LS LP X write_ok r' (remaining - length bs) (written @ bs)
        | (Err e, r') \<Rightarrow> Err (ReaderError e)
        | (Panic, r') \<Rightarrow> Panic)
     else Ok (remaining, written))"
  by pat_completeness (elim Pair_inject, simp only:)
termination extract_loop
proof (relation "measure (\<lambda>(LS, LP, X, w, r, remaining, written). remaining)", goal_cases)
  case (2 LS LP X w r remaining written y bs r')
  then show ?case by (cases bs) auto
qed simp

declare extract_loop.simps [simp del]

text \<open>
  The handler with the content of the output file when it succeeds; \<open>created\<close> says whether
  \<open>File::create(output)\<close> does. After an error the output file may exist with a part of the data.
\<close>

definition handle_ewf_extract ::
  "('s, Chunk list) lru \<Rightarrow> ('p, bytes) lru \<Rightarrow> externals \<Rightarrow> (bytes \<Rightarrow> bytes \<Rightarrow> bool) \<Rightarrow> bool
    \<Rightarrow> ('s, 'p) EwfReader ewf_result \<Rightarrow> nat \<Rightarrow> nat \<Rightarrow> rstr \<Rightarrow> (json \<times> bytes) handled" where
  "handle_ewf_extract LS LP X write_ok created opened offset len output =
    and_then (report opened) (\<lambda>reader.
      let total_size = rd_total_size reader
      in if total_size \<le> offset then Err (OffsetExceeds offset total_size)
         else
           let actual_len = min len (total_size - offset)
           in and_then (report (reader_seek reader (SeekStart offset))) (\<lambda>(_, reader').
                if \<not> created then Err OutputError
                else map_ok (\<lambda>(remaining, written).
                       (JObj [(lit ''offset'', JNum offset),
                              (lit ''bytes_written'', JNum (actual_len - remaining)),
                              (lit ''output'', JStr output)], written))
                     (extract_loop LS LP X write_ok reader' actual_len [])))"

end
