(* ===== verification/Cli_Format.thy ===== *)
theory Cli_Format
  imports Cli_Handlers
begin

text \<open>
  The texts that the command prints for people, the \<open>format_\<close> functions of \<open>cli/src/main.rs\<close>,
  from the JSON values of the handlers. \<open>show spec v\<close> stands for the \<open>Display\<close> of
  \<open>serde_json::Value\<close> under a format specification, \<open>pretty v\<close> for its
  \<open>to_string_pretty\<close>.
\<close>

section \<open>Access to JSON values\<close>

definition jmember :: "rstr \<Rightarrow> json \<Rightarrow> json option" where
  "jmember k v = (case v of JObj kvs \<Rightarrow> map_of kvs k | _ \<Rightarrow> None)"

text \<open>\<open>v["key"]\<close>: null where there is no such member.\<close>

definition jindex :: "json \<Rightarrow> string \<Rightarrow> json" where
  "jindex v k = unwrap_or JNull (jmember (lit k) v)"

definition as_u64 :: "json \<Rightarrow> nat option" where
  "as_u64 v = (case v of JNum n \<Rightarrow> Some n | _ \<Rightarrow> None)"

definition as_str :: "json \<Rightarrow> rstr option" where
  "as_str v = (case v of JStr s \<Rightarrow> Some s | _ \<Rightarrow> None)"

definition as_bool :: "json \<Rightarrow> bool option" where
  "as_bool v = (case v of JBool b \<Rightarrow> Some b | _ \<Rightarrow> None)"

definition as_array :: "json \<Rightarrow> json list option" where
  "as_array v = (case v of JArr vs \<Rightarrow> Some vs | _ \<Rightarrow> None)"

section \<open>Numbers and columns\<close>

text \<open>Alignment: \<open>{:<n}\<close> and \<open>{:>n}\<close>.\<close>

definition pad_right :: "nat \<Rightarrow> rstr \<Rightarrow> rstr" where
  "pad_right w s = s @ replicate (w - length s) 32"

definition pad_left :: "nat \<Rightarrow> rstr \<Rightarrow> rstr" where
  "pad_left w s = replicate (w - length s) 32 @ s"

text \<open>
  \<open>n as f64\<close> keeps 53 bits and rounds to even, a division by a power of two is exact, and
  \<open>{:.d}\<close> rounds the exact quotient to even.
\<close>

definition round_half_even :: "nat \<Rightarrow> nat \<Rightarrow> nat" where
  "round_half_even a b =
    (let q = a div b; r = a mod b
     in if 2 * r < b \<or> 2 * r = b \<and> even q then q else q + 1)"

fun bit_length :: "nat \<Rightarrow> nat" where
  "bit_length n = (if n = 0 then 0 else 1 + bit_length (n div 2))"

declare bit_length.simps [simp del]

definition f64_of_u64 :: "nat \<Rightarrow> nat" where
  "f64_of_u64 n = (let k = bit_length n - 53 in round_half_even n (2 ^ k) * 2 ^ k)"

definition fmt_fixed :: "nat \<Rightarrow> nat \<Rightarrow> nat \<Rightarrow> rstr" where
  "fmt_fixed d num den =
    (let s = round_half_even (num * 10 ^ d) den
     in show_radix 10 (s div 10 ^ d) @ [46] @ pad_zero d (show_radix 10 (s mod 10 ^ d)))"

section \<open>Reports\<close>

definition info_fields :: "(rstr \<times> string) list" where
  "info_fields =
    [(lit ''Case number'', ''case_number''), (lit ''Evidence #'', ''evidence_number''),
     (lit ''Description'', ''description''), (lit ''Examiner'', ''examiner''), (lit ''Notes'', ''notes''),
     (lit ''Software'', ''acquiry_software''), (lit ''OS version'', ''os_version''),
     (lit ''Acquired'', ''acquiry_date''), (lit ''System date'', ''system_date'')]"

text \<open>The loop over the fields; the first one present is preceded by an empty line.\<close>

fun format_meta :: "json \<Rightarrow> (rstr \<times> string) list \<Rightarrow> bool \<Rightarrow> rstr" where
  "format_meta meta [] has_meta = []"
| "format_meta meta ((label, key) # fs) has_meta =
    (case as_str (jindex meta key) of
       None \<Rightarrow> format_meta meta fs has_meta
     | Some val \<Rightarrow> (if has_meta then [] else [10]) @ pad_right 12 label @ [32] @ val @ [10]
                     @ format_meta meta fs True)"

definition format_info :: "(string \<Rightarrow> json \<Rightarrow> rstr) \<Rightarrow> json \<Rightarrow> rstr" where
  "format_info show v =
    (let n = unwrap_or 0 (as_u64 (jindex v ''media_size''));
         GiB = 1024 * 1024 * 1024; MiB = 1024 * 1024
     in lit ''Media size:  '' @ show '''' (jindex v ''media_size'') @ lit '' bytes''
        @ (if GiB \<le> n then lit '' ('' @ fmt_fixed 1 (f64_of_u64 n) GiB @ lit '' GiB)''
           else if MiB \<le> n then lit '' ('' @ fmt_fixed 1 (f64_of_u64 n) MiB @ lit '' MiB)'' else [])
        @ [10]
        @ lit ''Chunk size:  '' @ show '''' (jindex v ''chunk_size'') @ lit '' bytes'' @ [10]
        @ lit ''Chunk count: '' @ show '''' (jindex v ''chunk_count'') @ [10]
        @ (case as_str (jindex (jindex v ''stored_hashes'') ''md5'') of
             Some md5 \<Rightarrow> lit ''Stored MD5:  '' @ md5 @ [10] | None \<Rightarrow> [])
        @ (case as_str (jindex (jindex v ''stored_hashes'') ''sha1'') of
             Some sha1 \<Rightarrow> lit ''Stored SHA1: '' @ sha1 @ [10] | None \<Rightarrow> [])
        @ format_meta (jindex v ''metadata'') info_fields False
        @ (case as_array (jindex v ''acquisition_errors'') of
             None \<Rightarrow> []
           | Some errors \<Rightarrow>
               if errors = [] then []
               else [10] @ lit ''Acquisition errors: '' @ show_radix 10 (length errors) @ [10]
                 @ concat (map (\<lambda>e. lit ''  sector '' @ show '''' (jindex e ''first_sector'') @ lit '' (''
                     @ show '''' (jindex e ''sector_count'') @ lit '' sectors)'' @ [10]) errors)))"

definition match_line :: "rstr \<Rightarrow> bool option \<Rightarrow> rstr" where
  "match_line label m =
    label @ (case m of Some True \<Rightarrow> lit ''PASS'' | Some False \<Rightarrow> lit ''FAIL''
             | None \<Rightarrow> lit ''n/a (no stored hash)'') @ [10]"

definition incomplete_note :: "json \<Rightarrow> rstr" where
  "incomplete_note v =
    (let missing = unwrap_or 0 (as_u64 (jindex v ''missing_bytes''))
     in lit ''INCOMPLETE READ -- the chunk table addresses ''
        @ show_radix 10 (unwrap_or 0 (as_u64 (jindex v ''addressable_bytes''))) @ lit '' of ''
        @ show_radix 10 (unwrap_or 0 (as_u64 (jindex v ''declared_bytes''))) @ lit '' bytes; ''
        @ show_radix 10 missing @ lit '' bytes (''
        @ fmt_fixed 2 (f64_of_u64 missing) 1073741824 @ lit '' GiB) are unreachable.'' @ [10]
        @ lit ''A segment, or its trailing '' @ [96] @ lit ''table'' @ [96]
        @ lit '' section, is missing or truncated. EWF stores each segment'' @ [39]
        @ lit ''s chunk table at the END of that segment, so a truncated segment ''
        @ lit ''loses the index for ALL of its chunks -- not just the bytes lost to truncation.'' @ [10]
        @ lit ''The digests below are computed over a PARTIAL image and must NOT be compared ''
        @ lit ''with the acquisition digest.'' @ [10, 10])"

definition format_verify :: "json \<Rightarrow> rstr" where
  "format_verify v =
    (if as_bool (jindex v ''complete'') = Some False then incomplete_note v else [])
    @ lit ''Computed MD5:  '' @ unwrap_or (lit ''n/a'') (as_str (jindex v ''computed_md5'')) @ [10]
    @ (case as_str (jindex v ''computed_sha1'') of
         Some sha1 \<Rightarrow> lit ''Computed SHA1: '' @ sha1 @ [10] | None \<Rightarrow> [])
    @ match_line (lit ''MD5 match:     '') (as_bool (jindex v ''md5_match''))
    @ match_line (lit ''SHA1 match:    '') (as_bool (jindex v ''sha1_match''))"

definition format_sections :: "(string \<Rightarrow> json \<Rightarrow> rstr) \<Rightarrow> json \<Rightarrow> rstr" where
  "format_sections show v =
    pad_right 4 (lit ''Seg'') @ [32] @ pad_right 12 (lit ''Type'') @ [32]
    @ pad_left 12 (lit ''Offset'') @ [32] @ pad_left 12 (lit ''Size'') @ [10]
    @ replicate 44 45 @ [10]
    @ (case as_array (jindex v ''sections'') of
         None \<Rightarrow> []
       | Some sections \<Rightarrow>
           concat (map (\<lambda>s. show ''<4'' (jindex s ''segment'') @ [32]
             @ pad_right 12 (unwrap_or (lit ''?'') (as_str (jindex s ''type''))) @ [32]
             @ show ''>12'' (jindex s ''offset'') @ [32] @ show ''>12'' (jindex s ''size'') @ [10]) sections))"

definition format_search :: "json \<Rightarrow> rstr" where
  "format_search v =
    lit ''Pattern: '' @ unwrap_or [] (as_str (jindex v ''pattern'')) @ [10]
    @ lit ''Matches: '' @ show_radix 10 (unwrap_or 0 (as_u64 (jindex v ''total_found''))) @ [10]
    @ (case as_array (jindex v ''matches'') of
         None \<Rightarrow> []
       | Some ms \<Rightarrow>
           concat (map (\<lambda>m. let offset = unwrap_or 0 (as_u64 (jindex m ''offset''))
             in lit ''  0x'' @ pad_zero 8 (show_radix 16 offset) @ lit '' ('' @ show_radix 10 offset @ lit '')''
                @ [10]) ms))"

definition format_extract :: "(string \<Rightarrow> json \<Rightarrow> rstr) \<Rightarrow> json \<Rightarrow> rstr" where
  "format_extract show v =
    lit ''Extracted '' @ show '''' (jindex v ''bytes_written'') @ lit '' bytes at offset ''
    @ show '''' (jindex v ''offset'') @ lit '' to '' @ unwrap_or (lit ''?'') (as_str (jindex v ''output'')) @ [10]"

definition format_output ::
  "(json \<Rightarrow> rstr) \<Rightarrow> json \<Rightarrow> bool \<Rightarrow> (json \<Rightarrow> rstr) \<Rightarrow> rstr" where
  "format_output pretty v json human_fn = (if json then pretty v @ [10] else human_fn v)"

section \<open>The hex dump\<close>

text \<open>
  The bytes back from the hex text: a pair that is no byte is left out, a slice past the end or
  inside a character panics.
\<close>

fun dump_bytes :: "nat list \<Rightarrow> bytes handled" where
  "dump_bytes [] = Ok []"
| "dump_bytes [a] = Panic"
| "dump_bytes (a # b # rest) =
    (if char_boundary (a # b # rest) \<and> char_boundary rest then
       (case from_str_radix 255 16 (utf8_lossy_nat [a, b]) of
          None \<Rightarrow> dump_bytes rest
        | Some n \<Rightarrow> map_ok ((#) (of_nat n)) (dump_bytes rest))
     else Panic)"

fun dump_hex :: "nat \<Rightarrow> bytes \<Rightarrow> rstr" where
  "dump_hex j [] = []"
| "dump_hex j (b # bs) = hex_byte b @ [32] @ (if j = 7 then [32] else []) @ dump_hex (j + 1) bs"

definition dump_pad :: "nat \<Rightarrow> rstr" where
  "dump_pad n = concat (map (\<lambda>j. [32, 32, 32] @ (if n + j = 7 then [32] else [])) [0..<16 - n])"

definition is_ascii_graphic :: "u8 \<Rightarrow> bool" where
  "is_ascii_graphic b \<longleftrightarrow> 33 \<le> unat b \<and> unat b \<le> 126"

definition dump_ascii :: "bytes \<Rightarrow> rstr" where
  "dump_ascii chunk = map (\<lambda>b. if is_ascii_graphic b \<or> b = 32 then unat b else 46) chunk"

definition dump_line :: "nat \<Rightarrow> bytes \<Rightarrow> rstr" where
  "dump_line addr chunk =
    pad_zero 8 (show_radix 16 addr) @ [32, 32] @ dump_hex 0 chunk @ dump_pad (length chunk)
    @ [32, 124] @ dump_ascii chunk @ [124, 10]"

text \<open>The loop over \<open>chunks(16)\<close>; the address is a plain addition.\<close>

function dump_lines :: "nat \<Rightarrow> nat \<Rightarrow> bytes \<Rightarrow> rstr handled" where
  "dump_lines offset i bs =
    (if bs = [] then Ok []
     else if u64_max < offset + i * 16 then Panic
     else map_ok ((@) (dump_line (offset + i * 16) (take 16 bs))) (dump_lines offset (i + 1) (drop 16 bs)))"
  by pat_completeness auto
termination dump_lines
  by (relation "measure (\<lambda>(offset, i, bs). length bs)") auto

declare dump_lines.simps [simp del]

definition format_hex_dump :: "json \<Rightarrow> rstr handled" where
  "format_hex_dump v =
    and_then (dump_bytes (utf8_encode (unwrap_or [] (as_str (jindex v ''hex''))))) (\<lambda>bs.
      dump_lines (unwrap_or 0 (as_u64 (jindex v ''offset''))) 0 bs)"

end
