(* ===== verification/Cli_Server.thy ===== *)
theory Cli_Server
  imports Cli_Format
begin

text \<open>
  The MCP server, \<open>cli/src/mcp.rs\<close>: one JSON-RPC request per line of standard input, one
  response per line of standard output. Its surroundings are a record: the caches, the external
  functions, the file system, the texts of third-party formatting. An environment is what the
  operating system answers while one request is served; it may be another one for the next
  request, for instance after an extraction has written a file.
\<close>

section \<open>The environment of the tools\<close>

record ('s, 'p) env =
  ev_tables :: "('s, Chunk list) lru"
  ev_pages :: "('p, bytes) lru"
  ev_externals :: externals
  ev_threads :: nat
  ev_path :: "rstr \<Rightarrow> path"
  ev_files :: "path \<Rightarrow> bytes ewf_result"
  ev_is_file :: "path \<Rightarrow> bool"
  ev_globs :: "rstr \<Rightarrow> path list"
  ev_escape :: "rstr \<Rightarrow> rstr"
  ev_is_upper :: "nat \<Rightarrow> bool"
  ev_create :: "rstr \<Rightarrow> bool"
  ev_write :: "rstr \<Rightarrow> bytes \<Rightarrow> bytes \<Rightarrow> bool"
  ev_error :: "handler_error \<Rightarrow> rstr"
  ev_show :: "string \<Rightarrow> json \<Rightarrow> rstr"
  ev_pretty :: "json \<Rightarrow> rstr"

text \<open>\<open>EwfReader::open(path)\<close>.\<close>

definition ev_open :: "('s, 'p) env \<Rightarrow> rstr \<Rightarrow> ('s, 'p) EwfReader ewf_result" where
  "ev_open ev path =
    open_path (ev_tables ev) (ev_pages ev) (ev_externals ev) (ev_globs ev) (ev_escape ev) (ev_files ev)
      (ev_path ev path)"

text \<open>What a tool wrote: the path and the content of the output file.\<close>

type_synonym written = "(rstr \<times> bytes) option"

definition run_info :: "('s, 'p) env \<Rightarrow> rstr \<Rightarrow> json handled" where
  "run_info ev path = handle_ewf_info (ev_open ev path)"

definition run_verify :: "('s, 'p) env \<Rightarrow> rstr \<Rightarrow> json handled" where
  "run_verify ev path = handle_ewf_verify (ev_tables ev) (ev_externals ev) (ev_threads ev) (ev_open ev path)"

definition run_read_sectors :: "('s, 'p) env \<Rightarrow> rstr \<Rightarrow> nat \<Rightarrow> nat \<Rightarrow> json handled" where
  "run_read_sectors ev path offset len =
    handle_ewf_read_sectors (ev_tables ev) (ev_pages ev) (ev_externals ev) (ev_open ev path) offset len"

definition run_list_sections :: "('s, 'p) env \<Rightarrow> rstr \<Rightarrow> json handled" where
  "run_list_sections ev path =
    handle_ewf_list_sections (ev_externals ev) (ev_globs ev) (ev_escape ev) (ev_files ev) (ev_path ev path)"

definition run_search :: "('s, 'p) env \<Rightarrow> rstr \<Rightarrow> rstr \<Rightarrow> nat \<Rightarrow> json handled" where
  "run_search ev path pattern max_results =
    handle_ewf_search (ev_tables ev) (ev_pages ev) (ev_externals ev) (ev_open ev path) pattern max_results"

definition run_extract :: "('s, 'p) env \<Rightarrow> rstr \<Rightarrow> nat \<Rightarrow> nat \<Rightarrow> rstr \<Rightarrow> (json \<times> bytes) handled" where
  "run_extract ev path offset len output =
    handle_ewf_extract (ev_tables ev) (ev_pages ev) (ev_externals ev) (ev_write ev output) (ev_create ev output)
      (ev_open ev path) offset len output"

section \<open>The tools\<close>

definition json_text :: "string \<Rightarrow> json" where
  "json_text s = JStr (lit s)"

definition tool_property :: "string \<Rightarrow> string \<Rightarrow> string \<Rightarrow> rstr \<times> json" where
  "tool_property name ty description =
    (lit name, JObj [(lit ''type'', json_text ty), (lit ''description'', json_text description)])"

definition tool_definition :: "string \<Rightarrow> string \<Rightarrow> (rstr \<times> json) list \<Rightarrow> string list \<Rightarrow> json" where
  "tool_definition name description properties required =
    JObj [(lit ''name'', json_text name), (lit ''description'', json_text description),
          (lit ''inputSchema'',
            JObj [(lit ''type'', json_text ''object''), (lit ''properties'', JObj properties),
                  (lit ''required'', JArr (map json_text required))])]"

definition path_property :: "rstr \<times> json" where
  "path_property = tool_property ''path'' ''string'' ''Path to the first segment file (e.g. image.E01)''"

text \<open>A string literal's apostrophe is the character 39.\<close>

definition tool_definitions :: json where
  "tool_definitions = JArr
    [tool_definition ''ewf_info''
       ''Open an E01 image and return metadata: media size, chunk geometry, stored hashes, case info, and acquisition errors.''
       [path_property] [''path''],
     tool_definition ''ewf_verify''
       ''Verify E01 image integrity by recomputing MD5/SHA-1 and comparing against stored hashes.''
       [path_property] [''path''],
     tool_definition ''ewf_read_sectors''
       ''Read raw bytes from the disk image at a given offset. Returns hex dump.''
       [path_property,
        tool_property ''offset'' ''integer'' ''Byte offset to start reading from (default: 0)'',
        tool_property ''length'' ''integer'' ''Number of bytes to read (default: 512, max: 4096)'']
       [''path''],
     tool_definition ''ewf_list_sections''
       ''List all section descriptors in the E01 image. Shows the internal structure: headers, volume, tables, sectors, hash, digest, done sections with their offsets and sizes.''
       [path_property] [''path''],
     tool_definition ''ewf_search''
       ''Search for a byte pattern (hex string) in the disk image. Returns up to max_results matching offsets.''
       [path_property,
        tool_property ''pattern'' ''string''
          (''Hex string to search for (e.g. '' @ [CHR 0x27] @ ''55aa'' @ [CHR 0x27] @ '' for MBR signature)''),
        tool_property ''max_results'' ''integer'' ''Maximum number of matches to return (default: 10, max: 100)'']
       [''path'', ''pattern''],
     tool_definition ''ewf_extract''
       ''Extract a byte range from the disk image and write it to a file.''
       [path_property,
        tool_property ''offset'' ''integer'' ''Byte offset to start extracting from'',
        tool_property ''length'' ''integer'' ''Number of bytes to extract'',
        tool_property ''output'' ''string'' ''Path to write the extracted bytes to'']
       [''path'', ''offset'', ''length'', ''output'']]"

section \<open>Dispatch\<close>

datatype tool_error = HandlerError handler_error | MissingParameter string | UnknownTool rstr

type_synonym 'a dispatched = "(tool_error, 'a) result"

primrec tool_error_text :: "(handler_error \<Rightarrow> rstr) \<Rightarrow> tool_error \<Rightarrow> rstr" where
  "tool_error_text text_of (HandlerError e) = text_of e"
| "tool_error_text text_of (MissingParameter p) = lit ''missing required parameter: '' @ lit p"
| "tool_error_text text_of (UnknownTool n) = lit ''unknown tool: '' @ n"

primrec dispatched :: "'a handled \<Rightarrow> 'a dispatched" where
  "dispatched (Ok x) = Ok x"
| "dispatched (Err e) = Err (HandlerError e)"
| "dispatched Panic = Panic"

text \<open>\<open>args.get(p).and_then(|v| v.as_str()).ok_or(...)\<close> and the same for a number.\<close>

definition arg_str :: "json \<Rightarrow> string \<Rightarrow> rstr dispatched" where
  "arg_str args p = (case Option.bind (jmember (lit p) args) as_str of
     Some s \<Rightarrow> Ok s | None \<Rightarrow> Err (MissingParameter p))"

definition arg_u64 :: "json \<Rightarrow> string \<Rightarrow> nat dispatched" where
  "arg_u64 args p = (case Option.bind (jmember (lit p) args) as_u64 of
     Some n \<Rightarrow> Ok n | None \<Rightarrow> Err (MissingParameter p))"

definition arg_default :: "json \<Rightarrow> string \<Rightarrow> nat \<Rightarrow> nat" where
  "arg_default args p d = unwrap_or d (Option.bind (jmember (lit p) args) as_u64)"

definition plain_answer :: "json handled \<Rightarrow> (json \<times> written) dispatched" where
  "plain_answer r = map_ok (\<lambda>v. (v, None)) (dispatched r)"

definition dispatch_tool :: "('s, 'p) env \<Rightarrow> rstr \<Rightarrow> json \<Rightarrow> (json \<times> written) dispatched" where
  "dispatch_tool ev name args =
    (if name = lit ''ewf_info'' then
       and_then (arg_str args ''path'') (\<lambda>path. plain_answer (run_info ev path))
     else if name = lit ''ewf_verify'' then
       and_then (arg_str args ''path'') (\<lambda>path. plain_answer (run_verify ev path))
     else if name = lit ''ewf_read_sectors'' then
       and_then (arg_str args ''path'') (\<lambda>path.
         let offset = arg_default args ''offset'' 0;
             len = min (arg_default args ''length'' 512) 4096
         in plain_answer (run_read_sectors ev path offset len))
     else if name = lit ''ewf_list_sections'' then
       and_then (arg_str args ''path'') (\<lambda>path. plain_answer (run_list_sections ev path))
     else if name = lit ''ewf_search'' then
       and_then (arg_str args ''path'') (\<lambda>path.
       and_then (arg_str args ''pattern'') (\<lambda>pattern.
         let m = min (arg_default args ''max_results'' 10) 100
         in plain_answer (run_search ev path pattern m)))
     else if name = lit ''ewf_extract'' then
       and_then (arg_str args ''path'') (\<lambda>path.
       and_then (arg_u64 args ''offset'') (\<lambda>offset.
       and_then (arg_u64 args ''length'') (\<lambda>len.
       and_then (arg_str args ''output'') (\<lambda>output.
         map_ok (\<lambda>(v, bs). (v, Some (output, bs)))
           (dispatched (run_extract ev path offset len output))))))
     else Err (UnknownTool name))"

section \<open>Requests\<close>

text \<open>The member order of the responses is the one of the source.\<close>

definition rpc_result :: "json \<Rightarrow> json \<Rightarrow> json" where
  "rpc_result v rid = JObj [(lit ''jsonrpc'', json_text ''2.0''), (lit ''result'', v), (lit ''id'', rid)]"

definition rpc_error :: "string \<Rightarrow> rstr \<Rightarrow> json \<Rightarrow> json" where
  "rpc_error code message rid =
    JObj [(lit ''jsonrpc'', json_text ''2.0''),
          (lit ''error'', JObj [(lit ''code'', JOtherNum (lit code)), (lit ''message'', JStr message)]),
          (lit ''id'', rid)]"

definition text_content :: "rstr \<Rightarrow> json" where
  "text_content s = JArr [JObj [(lit ''type'', json_text ''text''), (lit ''text'', JStr s)]]"

definition initialize_result :: "string \<Rightarrow> json" where
  "initialize_result version =
    JObj [(lit ''protocolVersion'', json_text ''2024-11-05''),
          (lit ''capabilities'', JObj [(lit ''tools'', JObj [])]),
          (lit ''serverInfo'', JObj [(lit ''name'', json_text ''ewf''), (lit ''version'', json_text version)])]"

definition call_result :: "('s, 'p) env \<Rightarrow> json \<Rightarrow> (json \<times> written) dispatched \<Rightarrow> (json \<times> written) option" where
  "call_result ev rid r =
    (case r of
       Ok (v, w) \<Rightarrow> Some (rpc_result (JObj [(lit ''content'', text_content (ev_pretty ev v))]) rid, w)
     | Err e \<Rightarrow> Some (rpc_result (JObj [(lit ''content'', text_content (tool_error_text (ev_error ev) e)),
                                        (lit ''isError'', JBool True)]) rid, None)
     | Panic \<Rightarrow> None)"

definition request_id :: "json \<Rightarrow> json" where
  "request_id req = unwrap_or JNull (jmember (lit ''id'') req)"

definition request_method :: "json \<Rightarrow> rstr" where
  "request_method req = unwrap_or [] (Option.bind (jmember (lit ''method'') req) as_str)"

definition request_tool :: "json \<Rightarrow> rstr \<times> json" where
  "request_tool req =
    (let params = unwrap_or (JObj []) (jmember (lit ''params'') req)
     in (unwrap_or [] (Option.bind (jmember (lit ''name'') params) as_str),
         unwrap_or (JObj []) (jmember (lit ''arguments'') params)))"

text \<open>
  One parsed request: no reply, a reply with what was written, or a panic of the handler, which
  ends the process.
\<close>

datatype reaction = Silent | Reply json written | Died

definition react :: "string \<Rightarrow> ('s, 'p) env \<Rightarrow> json \<Rightarrow> reaction" where
  "react version ev req =
    (let rid = request_id req; meth = request_method req
     in if meth = lit ''initialize'' then Reply (rpc_result (initialize_result version) rid) None
        else if meth = lit ''notifications/initialized'' then Silent
        else if meth = lit ''tools/list'' then
          Reply (rpc_result (JObj [(lit ''tools'', tool_definitions)]) rid) None
        else if meth = lit ''tools/call'' then
          (let (tool_name, args) = request_tool req
           in case call_result ev rid (dispatch_tool ev tool_name args) of
                None \<Rightarrow> Died
              | Some (v, w) \<Rightarrow> Reply v w)
        else Reply (rpc_error ''-32601'' (lit ''Method not found: '' @ meth) rid) None)"

text \<open>
  One line: an empty line is skipped, text that is no JSON is answered with the parser's message.
\<close>

definition react_line ::
  "string \<Rightarrow> (rstr \<Rightarrow> rstr + json) \<Rightarrow> ('s, 'p) env \<Rightarrow> rstr \<Rightarrow> reaction" where
  "react_line version parse ev line =
    (if line = [] then Silent
     else case parse line of
            Inl e \<Rightarrow> Reply (rpc_error ''-32700'' (lit ''Parse error: '' @ e) JNull) None
          | Inr req \<Rightarrow> react version ev req)"

text \<open>
  The loop over the lines of standard input, each with the environment of its time; \<open>None\<close> is a
  read error (a line that is not UTF-8, for instance), after which the loop is left. The result is
  the responses, the files written, and whether the process ended without a panic.
\<close>

fun run ::
  "string \<Rightarrow> (rstr \<Rightarrow> rstr + json) \<Rightarrow> (rstr option \<times> ('s, 'p) env) list
    \<Rightarrow> json list \<times> (rstr \<times> bytes) list \<times> bool" where
  "run version parse [] = ([], [], True)"
| "run version parse ((None, ev) # rest) = ([], [], True)"
| "run version parse ((Some line, ev) # rest) =
    (case react_line version parse ev line of
       Silent \<Rightarrow> run version parse rest
     | Died \<Rightarrow> ([], [], False)
     | Reply v w \<Rightarrow>
         (let (out, ws, alive) = run version parse rest
          in (v # out, (case w of None \<Rightarrow> ws | Some f \<Rightarrow> f # ws), alive)))"

end
