(* ===== verification/Cli_Main.thy ===== *)
theory Cli_Main
  imports Cli_Server
begin

text \<open>
  The command line program, \<open>cli/src/main.rs\<close>: the listing of a logical evidence file, the
  subcommands and the exit codes. \<open>clap\<close> has parsed the arguments into a \<open>Command\<close>; standard
  error is left out. A value of the option type is \<open>None\<close> where a loop does not end.
\<close>

section \<open>Debug formatting of strings\<close>

text \<open>
  \<open>{:?}\<close> of a string. \<open>plain c\<close> says that the Unicode tables call \<open>c\<close> printable and not a
  grapheme extension.
\<close>

definition debug_char :: "(nat \<Rightarrow> bool) \<Rightarrow> nat \<Rightarrow> rstr" where
  "debug_char plain c =
    (if c = 0 then lit [CHR 0x5C, CHR ''0'']
     else if c = 9 then lit [CHR 0x5C, CHR ''t'']
     else if c = 13 then lit [CHR 0x5C, CHR ''r'']
     else if c = 10 then lit [CHR 0x5C, CHR ''n'']
     else if c = 34 \<or> c = 92 then [92, c]
     else if plain c then [c]
     else lit [CHR 0x5C, CHR ''u'', CHR 0x7B] @ show_radix 16 c @ [125])"

definition str_debug :: "(nat \<Rightarrow> bool) \<Rightarrow> rstr \<Rightarrow> rstr" where
  "str_debug plain s = [34] @ concat (map (debug_char plain) s) @ [34]"

primrec warning_text :: "(nat \<Rightarrow> bool) \<Rightarrow> ltree_warning \<Rightarrow> rstr" where
  "warning_text plain (ValueCount i values indicators) =
    lit ''entry at line '' @ show_radix 10 i @ lit '': '' @ show_radix 10 values @ lit '' values for ''
    @ show_radix 10 indicators @ lit '' declared indicators''"
| "warning_text plain (ShortNameSize i declared) =
    lit ''entry at line '' @ show_radix 10 i @ lit '': short-name size '' @ str_debug plain declared
    @ lit '' disagrees with its name length''"

section \<open>The listing of a logical evidence file\<close>

text \<open>The walk over the parents, with the names collected so far.\<close>

partial_function (option) path_parts ::
  "LogicalEntry list \<Rightarrow> nat option \<Rightarrow> rstr list \<Rightarrow> rstr list handled option" where
  "path_parts es cur parts =
    (case cur of
       None \<Rightarrow> Some (Ok parts)
     | Some k \<Rightarrow>
         (case get_at es k of
            None \<Rightarrow> Some Panic
          | Some e \<Rightarrow>
              path_parts es (le_parent e) (if le_name e \<noteq> [] then parts @ [le_name e] else parts)))"

definition full_path :: "LogicalEntry list \<Rightarrow> nat \<Rightarrow> rstr handled option" where
  "full_path es i = map_option (map_ok (\<lambda>parts. join_with 47 (rev parts))) (path_parts es (Some i) [])"

definition show_bool :: "bool \<Rightarrow> rstr" where
  "show_bool b = (if b then lit ''true'' else lit ''false'')"

definition row_key :: "string \<Rightarrow> rstr" where
  "row_key k = [34] @ lit k @ [34, 58]"

definition ls_row :: "(nat \<Rightarrow> bool) \<Rightarrow> bool \<Rightarrow> LogicalEntry \<Rightarrow> rstr \<Rightarrow> rstr" where
  "ls_row plain json e path =
    (if json then
       lit [CHR 0x7B] @ row_key ''path'' @ str_debug plain path @ lit '',''
       @ row_key ''dir'' @ show_bool (le_is_dir e) @ lit '',''
       @ row_key ''size'' @ show_radix 10 (le_size e) @ lit '',''
       @ row_key ''md5'' @ str_debug plain (unwrap_or [] (le_md5 e)) @ lit '',''
       @ row_key ''id'' @ show_radix 10 (le_id e) @ lit [CHR 0x7D] @ [10]
     else
       (if le_is_dir e then lit ''d'' else lit ''-'') @ pad_left 12 (show_radix 10 (le_size e)) @ lit ''  ''
       @ unwrap_or (replicate 32 45) (le_md5 e) @ lit ''  '' @ path @ [10])"

fun ls_rows :: "(nat \<Rightarrow> bool) \<Rightarrow> bool \<Rightarrow> LogicalEntry list \<Rightarrow> nat list \<Rightarrow> rstr handled option" where
  "ls_rows plain json es [] = Some (Ok [])"
| "ls_rows plain json es (i # is) =
    Option.bind (full_path es i) (\<lambda>path.
    Option.bind (ls_rows plain json es is) (\<lambda>rows.
      Some (and_then path (\<lambda>p. map_ok ((@) (ls_row plain json (es ! i) p)) rows))))"

definition ls_footer :: "(nat \<Rightarrow> bool) \<Rightarrow> LogicalTree \<Rightarrow> nat \<Rightarrow> rstr \<Rightarrow> nat \<Rightarrow> rstr" where
  "ls_footer plain tree total_bytes integrity replaced =
    (let n = length (lt_entries tree); n_files = length (filter (\<lambda>e. \<not> le_is_dir e) (lt_entries tree))
     in [10] @ lit ''  entries: '' @ show_radix 10 n @ lit ''  ('' @ show_radix 10 n_files @ lit '' files, ''
        @ show_radix 10 (n - n_files) @ lit '' directories)'' @ [10]
        @ lit ''  logical size: '' @ show_radix 10 total_bytes @ lit '' bytes'' @ [10]
        @ lit ''  indicators declared by the file: '' @ show_radix 10 (length (lt_indicators tree)) @ [10]
        @ lit ''  ltree integrity: '' @ integrity @ [10]
        @ lit ''  unpaired UTF-16 units replaced: '' @ show_radix 10 replaced @ [10]
        @ lit ''  parse warnings: '' @ show_radix 10 (length (lt_warnings tree)) @ [10]
        @ concat (map (\<lambda>w. lit ''    warning: '' @ warning_text plain w @ [10]) (take 10 (lt_warnings tree))))"

definition integrity_text :: "externals \<Rightarrow> LtreeHeader \<Rightarrow> bytes \<Rightarrow> rstr" where
  "integrity_text X header body =
    (if x_md5 X body = lh_data_md5 header then lit ''VERIFIED (ltree matches its stored MD5)''
     else lit ''FAILED '' @ [0x2014] @ lit '' the file tree does not match the MD5 stored with it'')"

definition list_tree ::
  "(nat \<Rightarrow> bool) \<Rightarrow> externals \<Rightarrow> LtreeHeader \<Rightarrow> bytes \<Rightarrow> bool \<Rightarrow> bool \<Rightarrow> rstr handled option" where
  "list_tree plain X header body json summary =
    (let (text', replaced) = decode_ltree_text body
     in case report (parse_entry_tree text') of
          Err e \<Rightarrow> Some (Err e)
        | Panic \<Rightarrow> Some Panic
        | Ok tree \<Rightarrow>
            (case report (sum_u64 0 (map le_size (filter (\<lambda>e. \<not> le_is_dir e) (lt_entries tree)))) of
               Err e \<Rightarrow> Some (Err e)
             | Panic \<Rightarrow> Some Panic
             | Ok total_bytes \<Rightarrow>
                 Option.bind
                   (if summary then Some (Ok [])
                    else ls_rows plain json (lt_entries tree) [0..<length (lt_entries tree)])
                   (\<lambda>rows. Some (map_ok (\<lambda>rs.
                      rs @ ls_footer plain tree total_bytes (integrity_text X header body) replaced) rows))))"

definition handle_ls :: "(nat \<Rightarrow> bool) \<Rightarrow> ('s, 'p) env \<Rightarrow> rstr \<Rightarrow> bool \<Rightarrow> bool \<Rightarrow> rstr handled option" where
  "handle_ls plain ev path json summary =
    (case report (find_ltree (ev_is_upper ev) (ev_is_file ev) (ev_externals ev) (ev_files ev) (ev_path ev path)) of
       Err e \<Rightarrow> Some (Err e)
     | Panic \<Rightarrow> Some Panic
     | Ok (header, body) \<Rightarrow> list_tree plain (ev_externals ev) header body json summary)"

section \<open>The subcommands\<close>

datatype Command =
    Info rstr bool
  | Verify rstr bool
  | Read rstr nat nat
  | Ls rstr bool bool
  | Sections rstr bool
  | Search rstr rstr nat
  | Extract rstr nat nat rstr
  | Mcp

text \<open>
  How the process ends: exit code, standard output, the files written. A panic has the exit
  code 101; the output of a subcommand is printed at its end.
\<close>

record outcome =
  oc_exit :: nat
  oc_stdout :: rstr
  oc_written :: "(rstr \<times> bytes) list"

definition crashed :: outcome where
  "crashed = \<lparr>oc_exit = 101, oc_stdout = [], oc_written = []\<rparr>"

definition finish :: "(nat \<times> rstr \<times> (rstr \<times> bytes) list) handled \<Rightarrow> outcome" where
  "finish r = (case r of
     Ok (code, out, ws) \<Rightarrow> \<lparr>oc_exit = code, oc_stdout = out, oc_written = ws\<rparr>
   | Err e \<Rightarrow> \<lparr>oc_exit = 1, oc_stdout = [], oc_written = []\<rparr>
   | Panic \<Rightarrow> crashed)"

definition printed :: "rstr handled \<Rightarrow> outcome" where
  "printed r = finish (map_ok (\<lambda>out. (0, out, [])) r)"

definition bad_report :: "json \<Rightarrow> bool" where
  "bad_report v \<longleftrightarrow>
    as_bool (jindex v ''md5_match'') = Some False \<or> as_bool (jindex v ''sha1_match'') = Some False
    \<or> as_bool (jindex v ''complete'') = Some False"

text \<open>
  The server prints the compact text of each response on a line; a handler's panic ends the
  process with what it has printed.
\<close>

definition serve ::
  "string \<Rightarrow> (rstr \<Rightarrow> rstr + json) \<Rightarrow> ('s, 'p) env \<Rightarrow> (rstr option \<times> ('s, 'p) env) list \<Rightarrow> outcome" where
  "serve version parse ev input =
    (let (out, ws, alive) = run version parse input
     in \<lparr>oc_exit = if alive then 0 else 101,
         oc_stdout = concat (map (\<lambda>v. ev_show ev '''' v @ [10]) out), oc_written = ws\<rparr>)"

definition main ::
  "string \<Rightarrow> (rstr \<Rightarrow> rstr + json) \<Rightarrow> (nat \<Rightarrow> bool) \<Rightarrow> ('s, 'p) env \<Rightarrow> (rstr option \<times> ('s, 'p) env) list
    \<Rightarrow> Command \<Rightarrow> outcome option" where
  "main version parse plain ev input command =
    (case command of
       Info path json \<Rightarrow>
         Some (printed (map_ok (\<lambda>v. format_output (ev_pretty ev) v json (format_info (ev_show ev)))
           (run_info ev path)))
     | Verify path json \<Rightarrow>
         Some (finish (map_ok (\<lambda>v.
           (if bad_report v then 2 else 0, format_output (ev_pretty ev) v json format_verify, []))
           (run_verify ev path)))
     | Read path offset len \<Rightarrow>
         Some (printed (and_then (run_read_sectors ev path offset (min len 4096)) format_hex_dump))
     | Ls path json summary \<Rightarrow> map_option printed (handle_ls plain ev path json summary)
     | Sections path json \<Rightarrow>
         Some (printed (map_ok (\<lambda>v. format_output (ev_pretty ev) v json (format_sections (ev_show ev)))
           (run_list_sections ev path)))
     | Search path pattern max_results \<Rightarrow>
         Some (printed (map_ok format_search (run_search ev path pattern (min max_results 100))))
     | Extract path offset len output \<Rightarrow>
         Some (finish (map_ok (\<lambda>(v, bs). (0, format_extract (ev_show ev) v, [(output, bs)]))
           (run_extract ev path offset len output)))
     | Mcp \<Rightarrow> Some (serve version parse ev input))"

end
