(* ===== verification/Cli_Correct.thy ===== *)
theory Cli_Correct
  imports Cli_Handlers
begin

text \<open>
  The handlers on an intact image: sector reads and extractions return the slice of the image that
  was asked for, the search returns the first occurrences of the pattern in ascending order however
  they fall across the 64 KiB windows, and the section listing shows the descriptors the reader
  itself walks.
\<close>

section \<open>Reading forward\<close>

context reader_caches
begin

text \<open>A reader of the session that started with \<open>r0\<close>, its cursor at \<open>p\<close>.\<close>

definition sought :: "externals \<Rightarrow> ('s, 'p) EwfReader \<Rightarrow> nat \<Rightarrow> ('s, 'p) EwfReader \<Rightarrow> bool" where
  "sought X r0 p r \<longleftrightarrow> session_inv X r0 r \<and> rd_position r = p"

lemma sought_seek:
  assumes "fresh_reader r0" and "p < 2 ^ 63"
  shows "\<exists>r. reader_seek r0 (SeekStart p) = Ok (p, r) \<and> sought X r0 p r"
proof -
  have "session_inv X r0 r0" by (rule reachable_session_inv [OF reach_start assms(1)])
  moreover have seek: "reader_seek r0 (SeekStart p) = Ok (p, r0\<lparr>rd_position := p\<rparr>)"
    using assms(2) by (simp add: reader_seek_def seek_target_def as_i64_def)
  ultimately have "session_inv X r0 (r0\<lparr>rd_position := p\<rparr>)"
    using step_session_inv [OF _ step_seek [OF seek]] assms(2) by (simp add: u64_max_def)
  then show ?thesis using seek by (simp add: sought_def)
qed

lemma sought_read:
  fixes n :: nat
  assumes "sought X r0 p r" and "intact X r0 pages"
  defines "bs \<equiv> take n (drop p (media_image r0 pages))"
  shows "\<exists>r'. reader_read LS LP X r n = (Ok bs, r') \<and> sought X r0 (p + length bs) r'"
proof -
  obtain res r' where rd: "reader_read LS LP X r n = (res, r')" by fastforce
  have inv: "same_image r0 r" "reader_coherent X r" "rd_position r = p" "p \<le> u64_max"
    using assms(1) by (auto simp: sought_def session_inv_def)
  have "intact X r pages" using assms(2) same_image_intact [OF inv(1)] by blast
  from read_image [OF inv(2) this _ rd] inv same_image_image [OF inv(1)]
  have step: "res = Ok bs" "same_reader (r\<lparr>rd_position := p + length bs\<rparr>) r'" by (simp_all add: bs_def)
  have "reader_step LS LP X r r'" using rd step(1) by (auto intro: step_read)
  then have "session_inv X r0 r'" using assms(1) step_session_inv by (auto simp: sought_def)
  then show ?thesis using rd step same_reader_sel(4) [OF step(2)] by (simp add: sought_def)
qed

lemma read_exact_image:
  assumes "sought X r0 (p + length acc) r" and "intact X r0 pages"
    and "acc = take (length acc) (drop p (media_image r0 pages))" and "length acc \<le> n"
    and "p + n \<le> length (media_image r0 pages)"
  shows "reader_read_exact LS LP X r n acc = Ok (take n (drop p (media_image r0 pages)))"
  using assms
proof (induction "n - length acc" arbitrary: r acc rule: less_induct)
  case less
  let ?img = "media_image r0 pages"
  show ?case
  proof (cases "n \<le> length acc")
    case True
    then show ?thesis using less.prems by (simp add: reader_read_exact.simps [of LS LP X r])
  next
    case False
    let ?bs = "take (n - length acc) (drop (p + length acc) ?img)"
    obtain r' where rd: "reader_read LS LP X r (n - length acc) = (Ok ?bs, r')"
      "sought X r0 (p + length acc + length ?bs) r'"
      using sought_read [OF less.prems(1,2)] by blast
    have len: "length ?bs = n - length acc" using less.prems(5) by simp
    have all: "acc @ ?bs = take n (drop p ?img)"
      using less.prems(3,4) take_add [of "length acc" "n - length acc" "drop p ?img"]
      by (simp add: add.commute)
    have "reader_read_exact LS LP X r' n (acc @ ?bs) = Ok (acc @ ?bs)"
      using len False by (simp add: reader_read_exact.simps [of LS LP X r'])
    moreover have "?bs \<noteq> []" using len False by (metis list.size(3) not_le zero_less_diff less_numeral_extra(3))
    ultimately show ?thesis
      using False rd(1) all by (simp add: reader_read_exact.simps [of LS LP X r])
  qed
qed

lemma extract_image:
  assumes "sought X r0 p r" and "intact X r0 pages"
    and "p + remaining \<le> length (media_image r0 pages)" and "\<And>w bs. write_ok w bs"
  shows "extract_loop LS LP X write_ok r remaining written =
    Ok (0, written @ take remaining (drop p (media_image r0 pages)))"
  using assms(1,3)
proof (induction remaining arbitrary: r p written rule: less_induct)
  case (less remaining)
  let ?img = "media_image r0 pages"
  show ?case
  proof (cases "remaining = 0")
    case False
    let ?n = "min remaining (64 * 1024)"
    let ?bs = "take ?n (drop p ?img)"
    obtain r' where rd: "reader_read LS LP X r ?n = (Ok ?bs, r')" "sought X r0 (p + length ?bs) r'"
      using sought_read [OF less.prems(1) assms(2)] by blast
    have len: "length ?bs = ?n" using less.prems(2) by simp
    then have ne: "?bs \<noteq> []" using False by (metis list.size(3) min_less_iff_conj neq0_conv less_irrefl zero_less_numeral mult_pos_pos)
    have "take remaining (drop p ?img) = ?bs @ take (remaining - ?n) (drop (p + ?n) ?img)"
      using take_add [of ?n "remaining - ?n" "drop p ?img"] by (simp add: add.commute)
    moreover have "extract_loop LS LP X write_ok r' (remaining - ?n) (written @ ?bs) =
        Ok (0, (written @ ?bs) @ take (remaining - ?n) (drop (p + ?n) ?img))"
      using less.IH [of "remaining - ?n" "p + ?n" r' "written @ ?bs"] rd(2) len less.prems(2) False by simp
    ultimately show ?thesis
      using rd(1) len ne assms(4) [of written ?bs] False by (simp add: extract_loop.simps [of LS LP X write_ok r])
  qed (simp add: extract_loop.simps)
qed

end

section \<open>Searching\<close>

text \<open>The offsets at which \<open>pattern\<close> occurs in the first \<open>k\<close> bytes of \<open>img\<close>, ascending.\<close>

definition occurrences_upto :: "bytes \<Rightarrow> bytes \<Rightarrow> nat \<Rightarrow> nat list" where
  "occurrences_upto pattern img k =
    filter (\<lambda>j. slice j (j + length pattern) img = pattern) [0..<k + 1 - length pattern]"

definition occurrences :: "bytes \<Rightarrow> bytes \<Rightarrow> nat list" where
  "occurrences pattern img = occurrences_upto pattern img (length img)"

lemma upt_cut: "a \<le> c \<Longrightarrow> [0..<c] = [0..<a] @ [a..<c]"
  using upt_add_eq_append [of 0 a "c - a"] by simp

lemma occurrences_split:
  assumes "j \<le> k"
  shows "occurrences_upto pattern img k = occurrences_upto pattern img j
    @ filter (\<lambda>i. slice i (i + length pattern) img = pattern) [j + 1 - length pattern..<k + 1 - length pattern]"
proof -
  have "[0..<k + 1 - length pattern] =
      [0..<j + 1 - length pattern] @ [j + 1 - length pattern..<k + 1 - length pattern]"
    by (rule upt_cut) (use assms in simp)
  then show ?thesis by (simp add: occurrences_upto_def)
qed

lemma take_prefix_full: "m \<le> length (take m xs) \<Longrightarrow> take m (xs @ ys) = take m xs"
  by (cases "m \<le> length xs") auto

lemma scan_window_matches:
  assumes "length found < max_results"
  shows "scan_window pattern max_results window start is found =
    take max_results (found @ map ((+) start) (filter (\<lambda>i. slice i (i + length pattern) window = pattern) is))"
  using assms by (induction "is" arbitrary: found) (auto simp: Let_def take_Cons')

lemma upt_shift: "map ((+) b) [0..<n] = [b..<b + n]"
  by (rule nth_equalityI) auto

lemma filter_shift: "map ((+) b) (filter P [0..<n]) = filter (\<lambda>j. P (j - b)) [b..<b + n]"
  by (simp flip: upt_shift add: filter_map comp_def)

text \<open>One window: from the start of the overlap to the new end of what was read.\<close>

lemma scan_window_image:
  fixes img pattern :: bytes and off n :: nat
  defines "b \<equiv> off + 1 - length pattern"
  defines "window \<equiv> drop b (take (off + n) img)"
  assumes "pattern \<noteq> []" and "length found < max_results"
    and "found = take max_results (occurrences_upto pattern img off)"
    and "off + n \<le> length img"
  shows "scan_window pattern max_results window b
      [0..<if length pattern \<le> length window then length window - length pattern + 1 else 0] found
    = take max_results (occurrences_upto pattern img (off + n))"
proof -
  let ?p = "length pattern"
  let ?stop = "if ?p \<le> length window then length window - ?p + 1 else 0"
  have p: "0 < ?p" using assms(3) by simp
  have len: "length window = off + n - b" using assms(6) by (simp add: window_def)
  have e: "b + ?stop = max b (off + n + 1 - ?p)" using len p unfolding b_def
    by (cases "?p \<le> length window") (simp_all only: if_True if_False, linarith+)
  have here: "slice (j - b) (j - b + ?p) window = slice j (j + ?p) img" if "j \<in> set [b..<b + ?stop]" for j
  proof -
    have "b \<le> j" "j + ?p \<le> off + n" using that e p by (auto simp: b_def split: if_splits)
    then show ?thesis using assms(6) by (simp add: slice_def window_def drop_take)
  qed
  have "map ((+) b) (filter (\<lambda>i. slice i (i + ?p) window = pattern) [0..<?stop]) =
      filter (\<lambda>j. slice j (j + ?p) img = pattern) [b..<b + ?stop]"
    unfolding filter_shift by (rule filter_cong) (use here in auto)
  moreover have "[b..<b + ?stop] = [b..<off + n + 1 - ?p]" unfolding e by (simp add: max_def)
  moreover have "occurrences_upto pattern img off = found" using assms(4,5) by simp
  ultimately show ?thesis
    unfolding scan_window_matches [OF assms(4)]
    using occurrences_split [of off "off + n" pattern img] by (simp add: b_def)
qed

text \<open>What is carried over from the window that ends at \<open>off\<close>: an overlap one byte short of the pattern.\<close>

lemma carried_over:
  fixes img pattern :: bytes and off n :: nat
  defines "window \<equiv> drop (off + 1 - length pattern) (take (off + n) img)"
  assumes "pattern \<noteq> []" and "off + n \<le> length img"
    and "length pattern - 1 \<le> length window"
  shows "(if 1 < length pattern \<and> length pattern - 1 \<le> length window
      then drop (length window - (length pattern - 1)) window else [])
    = drop (off + n + 1 - length pattern) (take (off + n) img)"
proof (cases "1 < length pattern")
  case True
  have "length window = off + n - (off + 1 - length pattern)" using assms(3) by (simp add: window_def)
  then have "length window - (length pattern - 1) + (off + 1 - length pattern) = off + n + 1 - length pattern"
    using assms(4) True by linarith
  then show ?thesis using True assms(4) by (simp only: window_def drop_drop simp_thms if_True)
next
  case False
  then have "length pattern = 1" using assms(2) by (cases pattern) auto
  then show ?thesis using assms(3) by simp
qed

context reader_caches
begin

lemma search_image:
  assumes "sought X r0 off r" and "intact X r0 pages" and "pattern \<noteq> []"
    and "length pattern \<le> SEARCH_BUF + 1"
  defines "img \<equiv> media_image r0 pages"
  assumes "off \<le> length img"
    and "off < length img \<Longrightarrow> carried = drop (off + 1 - length pattern) (take off img)"
    and "off = 0 \<or> length pattern - 1 \<le> off \<or> off = length img"
    and "found = take max_results (occurrences_upto pattern img off)"
  shows "search_loop LS LP X pattern max_results (length img) r off carried found =
    Ok (take max_results (occurrences pattern img))"
  using assms(1,6-)
proof (induction "length img - off" arbitrary: r off carried found rule: less_induct)
  case less
  show ?case
  proof (cases "off < length img \<and> length found < max_results")
    case False
    have "take max_results (occurrences pattern img) = found"
      using False less.prems(2,5) occurrences_split [of off "length img" pattern img]
        take_prefix_full [of max_results "occurrences_upto pattern img off"]
      by (auto simp: occurrences_def)
    then show ?thesis by (subst search_loop.simps) (simp only: False if_False)
  next
    case True
    let ?n = "min SEARCH_BUF (length img - off)"
    let ?bs = "take ?n (drop off img)"
    let ?b = "off + 1 - length pattern"
    let ?w = "drop ?b (take (off + ?n) img)"
    have buf: "0 < SEARCH_BUF" by (simp add: SEARCH_BUF_def)
    obtain r' where rd: "reader_read LS LP X r ?n = (Ok ?bs, r')" "sought X r0 (off + length ?bs) r'"
      using sought_read [OF less.prems(1) assms(2), of ?n] unfolding img_def by blast
    have len: "length ?bs = ?n" by simp
    have ne: "?bs \<noteq> []" using len True buf by (metis list.size(3) min_less_iff_conj less_irrefl zero_less_diff)
    obtain q where p: "length pattern = Suc q" using assms(3) by (cases pattern) auto
    have w: "carried @ ?bs = ?w" and c: "off - length carried = ?b"
      using less.prems(3) True by (auto simp: p take_add drop_append min_def)
    have end_le: "off + ?n \<le> length img" using True by linarith
    have found': "scan_window pattern max_results ?w ?b
        [0..<if length pattern \<le> length ?w then length ?w - length pattern + 1 else 0] found =
        take max_results (occurrences_upto pattern img (off + ?n))"
      using scan_window_image [OF assms(3) _ less.prems(5) end_le] True by blast
    have carry: "(if 1 < length pattern \<and> length pattern - 1 \<le> length ?w
        then drop (length ?w - (length pattern - 1)) ?w else []) =
        drop (off + ?n + 1 - length pattern) (take (off + ?n) img)" if "off + ?n < length img"
      using that less.prems(4) assms(4) by (intro carried_over [OF assms(3) end_le]) auto
    have small: "\<not> u64_max < off + ?n"
      using end_le length_image [OF assms(2)] assms(2) by (simp add: img_def intact_def)
    have dec: "length img - (off + ?n) < length img - off" using True buf by auto
    have pos: "off + ?n = 0 \<or> length pattern - 1 \<le> off + ?n \<or> off + ?n = length img"
      using assms(4) less.prems(4) by auto
    let ?carry = "if 1 < length pattern \<and> length pattern - 1 \<le> length ?w
      then drop (length ?w - (length pattern - 1)) ?w else []"
    have "search_loop LS LP X pattern max_results (length img) r off carried found =
        search_loop LS LP X pattern max_results (length img) r' (off + ?n) ?carry
          (take max_results (occurrences_upto pattern img (off + ?n)))"
      by (subst search_loop.simps)
        (simp only: True rd(1) ne w c len small found' Let_def prod.case result.case simp_thms if_True if_False)
    also have "\<dots> = Ok (take max_results (occurrences pattern img))"
      using less.hyps [OF dec _ end_le carry pos refl] rd(2) unfolding len by blast
    finally show ?thesis .
  qed
qed

end

section \<open>Patterns\<close>

lemma hex_pairs_hex_string: "hex_pairs (hex_string bs) = Ok bs"
proof (induction bs)
  case (Cons b bs)
  have ascii: "list_all (\<lambda>c. c < 128) (hex_string (b # bs))" by (rule hex_string_ascii)
  obtain u v where h: "hex_byte b = [u, v]" by (simp add: hex_byte_def)
  then have str: "hex_string (b # bs) = u # v # hex_string bs" by (simp add: hex_string_def)
  have "utf8_lossy_nat [u, v] = hex_byte b" using ascii unfolding str h by (intro utf8_lossy_ascii) auto
  moreover have "char_boundary (u # v # hex_string bs)" "char_boundary (hex_string bs)"
    using ascii unfolding str by (auto simp: char_boundary_def is_cont_def split: list.splits)
  ultimately show ?case using Cons by (simp add: str from_str_radix_hex_byte)
qed (simp add: hex_string_def)

lemma encode_hex_string: "utf8_encode (hex_string bs) = hex_string bs"
  by (rule utf8_encode_ascii) (use hex_string_ascii in \<open>auto simp: list_all_iff\<close>)

section \<open>The listing and the reader's walk\<close>

lemma list_walk:
  assumes "length content < 2 ^ 63"
  shows "\<exists>new. walk_v1 X (File content) (length content) off ds = Ok (ds @ new) \<and>
    list_segment_sections X content i off rows =
      (if u64_max < (if new = [] then off else unat (sd_next (last new))) + 76 then Panic
       else Ok (rows @ map (section_row i) new))"
proof (induction "length content - off" arbitrary: off ds rows rule: less_induct)
  case less
  have big: "length content + 76 \<le> u64_max" using assms by (simp add: u64_max_def)
  show ?case
  proof (cases "off + 76 \<le> length content")
    case False
    then have "walk_v1 X (File content) (length content) off ds = Ok ds"
      by (simp add: walk_v1.simps [of X "File content"] checked_add_def)
    then show ?thesis
      using False by (intro exI [of _ "[]"]) (simp add: list_segment_sections.simps [of X content i off])
  next
    case True
    let ?buf = "slice off (off + 76) content"
    let ?d = "\<lparr>sd_type = from_utf8_lossy (type_bytes ?buf), sd_next = x_le_u64 X ?buf 16,
      sd_size = x_le_u64 X ?buf 24, sd_offset = off, sd_stored_crc = x_le_u32 X ?buf SECTION_DESCRIPTOR_CRC_OFFSET\<rparr>"
    let ?nxt = "unat (sd_next ?d)"
    have rd: "seek_read_exact (File content) off 76 = Ok ?buf"
      using True assms by (simp add: file_source.seek_read_exact_content)
    have d: "descriptor_parse X ?buf off = Ok ?d"
      using True by (intro descriptor_parse_eq) (simp add: slice_def)
    have fits: "\<not> u64_max < off + 76" using True big by simp
    have walk: "walk_v1 X (File content) (length content) off ds =
        (if ?nxt = 0 \<or> ?nxt \<le> off then Ok (ds @ [?d])
         else walk_v1 X (File content) (length content) ?nxt (ds @ [?d]))"
      using True fits rd d
      by (simp add: walk_v1.simps [of X "File content" _ off] checked_add_def Let_def)
    have lst: "list_segment_sections X content i off rows =
        (if ?nxt = 0 \<or> ?nxt \<le> off then Ok (rows @ [section_row i ?d])
         else list_segment_sections X content i ?nxt (rows @ [section_row i ?d]))"
      using True fits rd d by (simp add: list_segment_sections.simps [of X content i off] Let_def)
    show ?thesis
    proof (cases "?nxt = 0 \<or> ?nxt \<le> off")
      case stop: True
      have "\<not> u64_max < ?nxt + 76" using stop fits by linarith
      then show ?thesis using stop unfolding walk lst by (intro exI [of _ "[?d]"]) simp
    next
      case False
      then have "length content - ?nxt < length content - off" using True by linarith
      from less [OF this, of "ds @ [?d]" "rows @ [section_row i ?d]"] obtain new where
        "walk_v1 X (File content) (length content) ?nxt (ds @ [?d]) = Ok ((ds @ [?d]) @ new)"
        "list_segment_sections X content i ?nxt (rows @ [section_row i ?d]) =
          (if u64_max < (if new = [] then ?nxt else unat (sd_next (last new))) + 76 then Panic
           else Ok ((rows @ [section_row i ?d]) @ map (section_row i) new))" by blast
      then show ?thesis using False unfolding walk lst by (intro exI [of _ "?d # new"]) simp
    qed
  qed
qed

section \<open>Properties\<close>

text \<open>C27: on an intact image the search for a pattern of at most 64 KiB and one byte, given as hex
  digits, returns the offsets of its first \<open>max_results\<close> occurrences in ascending order, those
  across a window border and overlapping ones included, and their number.
\<close>

theorem search_finds_first:
  fixes max_results :: nat
  assumes "lru_laws LS viewS" and "lru_laws LP viewP"
    and "open_v1 LS LP X sources cache_size k = Ok r0" and "intact X r0 pages" and "pattern \<noteq> []" and "length pattern \<le> SEARCH_BUF + 1"
  defines "offsets \<equiv> take max_results (occurrences pattern (media_image r0 pages))"
  shows "handle_ewf_search LS LP X (Ok r0) (hex_string pattern) max_results =
    Ok (JObj [(lit ''pattern'', JStr (hex_string pattern)),
              (lit ''matches'', JArr (map (\<lambda>off. JObj [(lit ''offset'', JNum off)]) offsets)),
              (lit ''total_found'', JNum (length offsets))])"
proof -
  note rc = reader_caches_laws [OF assms(1,2)]
  obtain r where seek: "reader_seek r0 (SeekStart 0) = Ok (0, r)"
    and r: "reader_caches.sought viewS viewP X r0 0 r"
    using reader_caches.sought_seek [OF rc reader_caches.open_v1_fresh [OF rc assms(3)], of 0 X] by auto
  have "search_loop LS LP X pattern max_results (rd_total_size r0) r 0 [] [] = Ok offsets"
    using reader_caches.search_image [OF rc r assms(4-6), of "[]" "[]" max_results] assms(5)
    by (simp add: length_image [OF assms(4)] occurrences_upto_def offsets_def Suc_le_eq)
  then show ?thesis
    using seek assms(5)
    by (simp add: handle_ewf_search_def utf8_len_def encode_hex_string hex_pairs_hex_string)
qed

text \<open>The eight byte sample image, its second chunk entered by the match.\<close>

definition sample_eager_reader :: "(Chunk list lru_list, bytes lru_list) EwfReader" where
  "sample_eager_reader = sample_reader (Eager sample_chunks) (lru_new lru_list_ops 100)"

lemma sample_eager_open:
  "open_v1 lru_list_ops lru_list_ops ref_externals [Mem sample_image] 100 None = Ok sample_eager_reader"
  using sample_open [of lru_list_ops 100 None] by (simp add: sample_eager_reader_def)

lemma sample_eager_intact: "intact ref_externals sample_eager_reader sample_pages"
  by (simp add: sample_eager_reader_def sample_intact)

lemma sample_eager_image:
  "media_image sample_eager_reader sample_pages = [10, 11, 12, 13, 14, 15, 16, 17]"
  by (simp add: media_image_def sample_eager_reader_def sample_reader_def)

theorem search_finds_first_witness:
  "handle_ewf_search lru_list_ops lru_list_ops ref_externals (Ok sample_eager_reader) (lit ''0d0e'') 5 =
    Ok (JObj [(lit ''pattern'', JStr (lit ''0d0e'')),
              (lit ''matches'', JArr [JObj [(lit ''offset'', JNum 3)]]), (lit ''total_found'', JNum 1)])"
proof -
  have hex: "hex_string [13, 14] = lit ''0d0e''"
    by (simp add: hex_string_def hex_byte_def digit_char_def lit_def)
  have occ: "occurrences [13, 14] (media_image sample_eager_reader sample_pages) = [3]"
    unfolding sample_eager_image by (simp add: occurrences_def occurrences_upto_def slice_def upt_rec)
  show ?thesis
    using search_finds_first [OF lru_list_laws lru_list_laws sample_eager_open sample_eager_intact,
        of "[13, 14]" 5] unfolding occ hex by (simp add: SEARCH_BUF_def)
qed

text \<open>Both loops on an intact image, from the offset to the end of the range or of the image.\<close>

lemma sector_loops:
  fixes offset len :: nat
  assumes "lru_laws LS viewS" and "lru_laws LP viewP"
    and "open_v1 LS LP X sources cache_size k = Ok r0" and "intact X r0 pages" and "rd_total_size r0 < 2 ^ 63"
    and "\<forall>w bs. write_ok w bs" and "offset < rd_total_size r0"
  defines "part \<equiv> take len (drop offset (media_image r0 pages))"
  shows "\<exists>r. reader_seek r0 (SeekStart offset) = Ok (offset, r)
      \<and> reader_read_exact LS LP X r (min len (rd_total_size r0 - offset)) [] = Ok part
      \<and> extract_loop LS LP X write_ok r (min len (rd_total_size r0 - offset)) [] = Ok (0, part)
      \<and> length part = min len (rd_total_size r0 - offset) \<and> length part \<le> ISIZE_MAX"
proof -
  let ?img = "media_image r0 pages" and ?n = "min len (rd_total_size r0 - offset)"
  note rc = reader_caches_laws [OF assms(1,2)] and il = length_image [OF assms(4)]
  obtain r where seek: "reader_seek r0 (SeekStart offset) = Ok (offset, r)"
    and r: "reader_caches.sought viewS viewP X r0 offset r"
    using reader_caches.sought_seek [OF rc reader_caches.open_v1_fresh [OF rc assms(3)], of offset X] assms(5,7) by auto
  have part: "take ?n (drop offset ?img) = part" "length part = ?n"
    using il by (auto simp: part_def min_def)
  have fits: "offset + ?n \<le> length ?img" using assms(7) il by linarith
  have "reader_read_exact LS LP X r ?n [] = Ok part"
    using reader_caches.read_exact_image [OF rc, of X r0 offset "[]" r pages ?n] r assms(4) fits part by simp
  moreover have "extract_loop LS LP X write_ok r ?n [] = Ok (0, part)"
    using reader_caches.extract_image [OF rc r assms(4) fits assms(6) [rule_format]] part by simp
  moreover have "?n \<le> ISIZE_MAX" using assms(5) unfolding ISIZE_MAX_def by auto
  ultimately show ?thesis using seek part(2) by (intro exI [of _ r]) simp
qed

lemma read_sectors_image:
  fixes offset len :: nat
  assumes "lru_laws LS viewS" and "lru_laws LP viewP"
    and "open_v1 LS LP X sources cache_size k = Ok r0" and "intact X r0 pages" and "rd_total_size r0 < 2 ^ 63"
    and "offset < rd_total_size r0"
  defines "part \<equiv> take len (drop offset (media_image r0 pages))"
  shows "handle_ewf_read_sectors LS LP X (Ok r0) offset len =
      Ok (JObj [(lit ''offset'', JNum offset), (lit ''length'', JNum (length part)), (lit ''hex'', json_hex part)])"
  using sector_loops [OF assms(1-5) _ assms(6), of "\<lambda>_ _. True" len] assms(6)
  by (auto simp: handle_ewf_read_sectors_def Let_def part_def)

text \<open>C28: a sector read and an extraction that start inside an intact image return exactly the bytes of
  the image from that offset, cut at its end, and report how many they are; past the end both fail
  with the same error.
\<close>

theorem sector_slice:
  fixes offset len :: nat
  assumes "lru_laws LS viewS" and "lru_laws LP viewP"
    and "open_v1 LS LP X sources cache_size k = Ok r0" and "intact X r0 pages" and "rd_total_size r0 < 2 ^ 63" and "\<And>w bs. write_ok w bs"
  defines "part \<equiv> take len (drop offset (media_image r0 pages))"
  shows "handle_ewf_read_sectors LS LP X (Ok r0) offset len =
      (if rd_total_size r0 \<le> offset then Err (OffsetExceeds offset (rd_total_size r0))
       else Ok (JObj [(lit ''offset'', JNum offset), (lit ''length'', JNum (length part)),
                      (lit ''hex'', json_hex part)]))
    \<and> handle_ewf_extract LS LP X write_ok True (Ok r0) offset len output =
      (if rd_total_size r0 \<le> offset then Err (OffsetExceeds offset (rd_total_size r0))
       else Ok (JObj [(lit ''offset'', JNum offset), (lit ''bytes_written'', JNum (length part)),
                      (lit ''output'', JStr output)], part))"
proof (cases "rd_total_size r0 \<le> offset")
  case False
  then show ?thesis
    using sector_loops [OF assms(1-5), of write_ok offset len] assms(6) read_sectors_image [OF assms(1-5), of offset len]
    by (auto simp: handle_ewf_extract_def Let_def part_def)
qed (simp add: handle_ewf_read_sectors_def handle_ewf_extract_def Let_def)

theorem sector_slice_witness:
  "handle_ewf_read_sectors lru_list_ops lru_list_ops ref_externals (Ok sample_eager_reader) 6 100 =
      Ok (JObj [(lit ''offset'', JNum 6), (lit ''length'', JNum 2), (lit ''hex'', json_hex [16, 17])])
    \<and> handle_ewf_extract lru_list_ops lru_list_ops ref_externals (\<lambda>_ _. True) True (Ok sample_eager_reader) 6 100 (lit ''out'') =
      Ok (JObj [(lit ''offset'', JNum 6), (lit ''bytes_written'', JNum 2), (lit ''output'', JStr (lit ''out''))], [16, 17])"
proof -
  have size: "rd_total_size sample_eager_reader = 8" by (simp add: sample_eager_reader_def sample_reader_def)
  show ?thesis
    using sector_slice [OF lru_list_laws lru_list_laws sample_eager_open sample_eager_intact,
        of "\<lambda>_ _. True" 6 100 "lit ''out''"] unfolding size sample_eager_image by simp
qed

text \<open>C39: the section listing of a segment file shows exactly the descriptors that the reader walks when
  it opens the segment, in that order, except that it panics where the last of them points so far
  that adding the size of a descriptor overflows.
\<close>

theorem listing_is_the_walk:
  assumes "length content < 2 ^ 63"
  shows "\<exists>ds. walk_segment X (File content) = Ok ds \<and>
    list_segment_sections X content seg_idx 13 rows =
      (if ds \<noteq> [] \<and> u64_max < unat (sd_next (last ds)) + 76 then Panic
       else Ok (rows @ map (section_row seg_idx) ds))"
proof -
  have "seek_target (SeekEnd 0) (segment_len (File content)) 0 = Ok (length content)"
    using assms by (simp add: seek_target_def as_i64_def i64_add_def)
  moreover obtain ds where "walk_v1 X (File content) (length content) 13 [] = Ok ds"
    "list_segment_sections X content seg_idx 13 rows =
      (if u64_max < (if ds = [] then 13 else unat (sd_next (last ds))) + 76 then Panic
       else Ok (rows @ map (section_row seg_idx) ds))"
    using list_walk [OF assms, of X 13 "[]" seg_idx rows] by auto
  ultimately show ?thesis by (intro exI [of _ ds]) (simp add: walk_segment_def u64_max_def)
qed

text \<open>A segment whose one descriptor points to the last byte of the 64-bit range.\<close>

theorem listing_is_the_walk_witness:
  "list_segment_sections ref_externals
      (replicate 13 0 @ encode_descriptor [100] 0xFFFFFFFFFFFFFFFF 0 0) 0 13 [] = Panic"
proof -
  let ?c = "replicate 13 0 @ encode_descriptor [100] 0xFFFFFFFFFFFFFFFF 0 0"
  have "length ?c < 2 ^ 63" by code_simp
  from listing_is_the_walk [OF this, of ref_externals 0 "[]"] obtain ds where
    ds: "walk_segment ref_externals (File ?c) = Ok ds"
    and lst: "list_segment_sections ref_externals ?c 0 13 [] =
      (if ds \<noteq> [] \<and> u64_max < unat (sd_next (last ds)) + 76 then Panic else Ok ([] @ map (section_row 0) ds))"
    by blast
  have "map_ok (\<lambda>ds. ds \<noteq> [] \<and> u64_max < unat (sd_next (last ds)) + 76) (walk_segment ref_externals (File ?c)) = Ok True"
    by code_simp
  then show ?thesis using ds lst by simp
qed

text \<open>
  The listing looks for the siblings of a bare file name in the root directory: its pattern starts
  with the empty parent and a slash. Opening the same name uses the current directory.
\<close>

definition current_dir :: "rstr \<Rightarrow> path list" where
  "current_dir pat =
    (if pat = lit ''./img.[Ee][0-9][0-9]'' then [\<lparr>p_parent = Some (lit ''.''), p_file = Some (lit ''img.E01'')\<rparr>] else [])"

lemma listing_misses_bare_name:
  "handle_ewf_list_sections X current_dir id FS \<lparr>p_parent = Some [], p_file = Some (lit ''img.E01'')\<rparr>
      = Err (NoSegmentsFor (lit ''img.E01''))"
  "discover_segments current_dir id \<lparr>p_parent = Some [], p_file = Some (lit ''img.E01'')\<rparr>
      = Ok [\<lparr>p_parent = Some (lit ''.''), p_file = Some (lit ''img.E01'')\<rparr>]"
  by code_simp+

text \<open>A pattern of even byte length with a character across two pairs: a, e acute, b.\<close>

lemma search_panics_inside_character: "handle_ewf_search LS LP X opened [97, 233, 98] max_results = Panic"
proof -
  have "utf8_encode [97, 233, 98] = [97, 195, 169, 98]" "utf8_len [97, 233, 98] = 4"
    "hex_pairs [97, 195, 169, 98] = Panic" by code_simp+
  then show ?thesis by (simp add: handle_ewf_search_def)
qed

text \<open>A window as long as the buffer never holds a longer pattern, and nothing is carried over.\<close>

lemma long_pattern_not_carried:
  assumes "SEARCH_BUF + 1 < length pattern" and "length window \<le> SEARCH_BUF"
  shows "scan_window pattern max_results window start
      [0..<if length pattern \<le> length window then length window - length pattern + 1 else 0] found = found
    \<and> \<not> length pattern - 1 \<le> length window"
  using assms by simp

end
