(* ===== verification/Integrity.thy ===== *)
theory Integrity
  imports Header_Parse Segment_Source
begin

text \<open>
  The integrity analyser, \<open>forensic/src/integrity.rs\<close>: the anomalies with their severities and
  codes, the structural checks of EWF v1 segments, the hash checks over all segments, the
  checks of EWF v2 and the computed hashes. A check returns the
  anomalies it pushes, in order; a progress callback is the list of the snapshots it is given.
  A slice expression that is out of range is a panic of the run.
\<close>

unbundle bit_operations_syntax

type_synonym 'a run = "(unit, 'a) result"

section \<open>Constants\<close>

definition DVF_SIGNATURE :: bytes where
  "DVF_SIGNATURE = [0x64, 0x76, 0x66, 0x09, 0x0d, 0x0a, 0xff, 0x00]"

definition IN_EVF2_SIGNATURE :: bytes where
  "IN_EVF2_SIGNATURE = [0x45, 0x56, 0x46, 0x32, 0x0d, 0x0a, 0x81, 0x00]"

definition IN_LEF2_SIGNATURE :: bytes where
  "IN_LEF2_SIGNATURE = [0x4c, 0x45, 0x46, 0x32, 0x0d, 0x0a, 0x81, 0x00]"

abbreviation (input) VOLUME_DATA_MIN :: nat where "VOLUME_DATA_MIN \<equiv> 24"
abbreviation (input) EVF2_FILE_HEADER_SIZE :: nat where "EVF2_FILE_HEADER_SIZE \<equiv> 32"
abbreviation (input) EVF2_SECTION_DESCRIPTOR_SIZE :: nat where "EVF2_SECTION_DESCRIPTOR_SIZE \<equiv> 64"
abbreviation (input) EVF2_CHUNK_TABLE_HEADER_SIZE :: nat where "EVF2_CHUNK_TABLE_HEADER_SIZE \<equiv> 32"
abbreviation (input) EVF2_CHUNK_TABLE_ENTRY_SIZE :: nat where "EVF2_CHUNK_TABLE_ENTRY_SIZE \<equiv> 16"

definition VALID_MEDIA_TYPES :: bytes where
  "VALID_MEDIA_TYPES = [0x00, 0x01, 0x03, 0x0e, 0x10]"

definition KNOWN_TYPES :: "rstr list" where
  "KNOWN_TYPES = map lit [''header'', ''header2'', ''volume'', ''disk'', ''table'', ''table2'',
     ''sectors'', ''hash'', ''digest'', ''error2'', ''session'', ''done'', ''next'', ''data'',
     ''ltree'', ''ltreedata'']"

section \<open>Anomalies\<close>

text \<open>The five levels of the scale that the crate re-exports.\<close>

datatype Severity = Info | Low | Medium | High | Critical

datatype (plugins only: code) EwfIntegrityAnomaly =
    InvalidSignature
  | SegmentNumberZero
  | SectionDescriptorCrcMismatch nat rstr u32 u32
  | SectionChainBroken nat nat
  | SectionGapNonZero nat nat
  | VolumeSectionMissing
  | UnknownSectionType nat rstr
  | DoneSectionMissing
  | SectorsSectionMissing
  | TableSectionMissing
  | ChunkSizeInvalid u32 u32
  | SectorCountMismatch nat nat
  | BytesPerSectorInvalid u32
  | TableChunkCountMismatch nat nat
  | TableHeaderAdler32Mismatch u32 u32
  | TableEntryOutOfBounds nat nat nat
  | TableEntryOutsideSectorsRange nat nat nat nat
  | SectionGapZero nat nat
  | HashMismatch bytes bytes
  | HashSectionMissing
  | Table2Mismatch nat
  | BadSectorsPresent nat
  | SegmentOutOfOrder nat nat
  | DigestSha1Mismatch bytes bytes
  | DigestSha256Mismatch bytes bytes
  | ExternalMd5Mismatch bytes bytes
  | ExternalSha1Mismatch bytes bytes
  | Ewf2SectionDataHashMismatch nat u32 bytes bytes
  | Ewf2EncryptedSection nat
  | Ewf2HashSectionMissing
  | VolumeBodyCrcMismatch u32 u32
  | MediaTypeUnknown u8
  | SetIdentifierMismatch nat
  | Ewf2MediaInfoMissing
  | Ewf2ChunkTableChecksumMismatch u32 u32
  | ChunkChecksumMismatch nat u32 u32
  | ChunkDecompressionError nat
  | UnsupportedCompressionAlgorithm u16
  | ExternalSha256Mismatch bytes bytes
  | Ewf2MediaInfoParseFailed

primrec severity :: "EwfIntegrityAnomaly \<Rightarrow> Severity" where
  "severity InvalidSignature = Critical"
| "severity SegmentNumberZero = High"
| "severity (SectionDescriptorCrcMismatch _ _ _ _) = High"
| "severity (SectionChainBroken _ _) = Critical"
| "severity (SectionGapNonZero _ _) = Medium"
| "severity VolumeSectionMissing = Critical"
| "severity (UnknownSectionType _ _) = Medium"
| "severity DoneSectionMissing = Medium"
| "severity SectorsSectionMissing = High"
| "severity TableSectionMissing = High"
| "severity (ChunkSizeInvalid _ _) = High"
| "severity (SectorCountMismatch _ _) = High"
| "severity (BytesPerSectorInvalid _) = High"
| "severity (TableChunkCountMismatch _ _) = High"
| "severity (TableHeaderAdler32Mismatch _ _) = High"
| "severity (TableEntryOutOfBounds _ _ _) = High"
| "severity (TableEntryOutsideSectorsRange _ _ _ _) = High"
| "severity (SectionGapZero _ _) = Info"
| "severity (HashMismatch _ _) = High"
| "severity HashSectionMissing = Medium"
| "severity (Table2Mismatch _) = High"
| "severity (BadSectorsPresent _) = Medium"
| "severity (SegmentOutOfOrder _ _) = High"
| "severity (DigestSha1Mismatch _ _) = High"
| "severity (DigestSha256Mismatch _ _) = High"
| "severity (ExternalMd5Mismatch _ _) = Critical"
| "severity (ExternalSha1Mismatch _ _) = Critical"
| "severity (VolumeBodyCrcMismatch _ _) = High"
| "severity (MediaTypeUnknown _) = Medium"
| "severity (SetIdentifierMismatch _) = High"
| "severity (Ewf2SectionDataHashMismatch _ _ _ _) = High"
| "severity (Ewf2EncryptedSection _) = Medium"
| "severity Ewf2HashSectionMissing = Medium"
| "severity Ewf2MediaInfoMissing = Medium"
| "severity (Ewf2ChunkTableChecksumMismatch _ _) = High"
| "severity (ChunkChecksumMismatch _ _ _) = High"
| "severity (ChunkDecompressionError _) = High"
| "severity (UnsupportedCompressionAlgorithm _) = High"
| "severity (ExternalSha256Mismatch _ _) = Critical"
| "severity Ewf2MediaInfoParseFailed = High"

primrec code :: "EwfIntegrityAnomaly \<Rightarrow> string" where
  "code InvalidSignature = ''EWF-INVALID-SIGNATURE''"
| "code SegmentNumberZero = ''EWF-SEGMENT-NUMBER-ZERO''"
| "code (SectionDescriptorCrcMismatch _ _ _ _) = ''EWF-SECTION-DESCRIPTOR-CRC-MISMATCH''"
| "code (SectionChainBroken _ _) = ''EWF-SECTION-CHAIN-BROKEN''"
| "code (SectionGapNonZero _ _) = ''EWF-SECTION-GAP-NON-ZERO''"
| "code VolumeSectionMissing = ''EWF-VOLUME-SECTION-MISSING''"
| "code (UnknownSectionType _ _) = ''EWF-UNKNOWN-SECTION-TYPE''"
| "code DoneSectionMissing = ''EWF-DONE-SECTION-MISSING''"
| "code SectorsSectionMissing = ''EWF-SECTORS-SECTION-MISSING''"
| "code TableSectionMissing = ''EWF-TABLE-SECTION-MISSING''"
| "code (ChunkSizeInvalid _ _) = ''EWF-CHUNK-SIZE-INVALID''"
| "code (SectorCountMismatch _ _) = ''EWF-SECTOR-COUNT-MISMATCH''"
| "code (BytesPerSectorInvalid _) = ''EWF-BYTES-PER-SECTOR-INVALID''"
| "code (TableChunkCountMismatch _ _) = ''EWF-TABLE-CHUNK-COUNT-MISMATCH''"
| "code (TableHeaderAdler32Mismatch _ _) = ''EWF-TABLE-HEADER-ADLER32-MISMATCH''"
| "code (TableEntryOutOfBounds _ _ _) = ''EWF-TABLE-ENTRY-OUT-OF-BOUNDS''"
| "code (TableEntryOutsideSectorsRange _ _ _ _) = ''EWF-TABLE-ENTRY-OUTSIDE-SECTORS-RANGE''"
| "code (SectionGapZero _ _) = ''EWF-SECTION-GAP-ZERO''"
| "code (HashMismatch _ _) = ''EWF-HASH-MISMATCH''"
| "code HashSectionMissing = ''EWF-HASH-SECTION-MISSING''"
| "code (Table2Mismatch _) = ''EWF-TABLE2-MISMATCH''"
| "code (BadSectorsPresent _) = ''EWF-BAD-SECTORS-PRESENT''"
| "code (SegmentOutOfOrder _ _) = ''EWF-SEGMENT-OUT-OF-ORDER''"
| "code (DigestSha1Mismatch _ _) = ''EWF-DIGEST-SHA1-MISMATCH''"
| "code (DigestSha256Mismatch _ _) = ''EWF-DIGEST-SHA256-MISMATCH''"
| "code (ExternalMd5Mismatch _ _) = ''EWF-EXTERNAL-MD5-MISMATCH''"
| "code (ExternalSha1Mismatch _ _) = ''EWF-EXTERNAL-SHA1-MISMATCH''"
| "code (Ewf2SectionDataHashMismatch _ _ _ _) = ''EWF-EWF2-SECTION-DATA-HASH-MISMATCH''"
| "code (Ewf2EncryptedSection _) = ''EWF-EWF2-ENCRYPTED-SECTION''"
| "code Ewf2HashSectionMissing = ''EWF-EWF2-HASH-SECTION-MISSING''"
| "code (VolumeBodyCrcMismatch _ _) = ''EWF-VOLUME-BODY-CRC-MISMATCH''"
| "code (MediaTypeUnknown _) = ''EWF-MEDIA-TYPE-UNKNOWN''"
| "code (SetIdentifierMismatch _) = ''EWF-SET-IDENTIFIER-MISMATCH''"
| "code Ewf2MediaInfoMissing = ''EWF-EWF2-MEDIA-INFO-MISSING''"
| "code (Ewf2ChunkTableChecksumMismatch _ _) = ''EWF-EWF2-CHUNK-TABLE-CHECKSUM-MISMATCH''"
| "code (ChunkChecksumMismatch _ _ _) = ''EWF-CHUNK-CHECKSUM-MISMATCH''"
| "code (ChunkDecompressionError _) = ''EWF-CHUNK-DECOMPRESSION-ERROR''"
| "code (UnsupportedCompressionAlgorithm _) = ''EWF-UNSUPPORTED-COMPRESSION-ALGORITHM''"
| "code (ExternalSha256Mismatch _ _) = ''EWF-EXTERNAL-SHA256-MISMATCH''"
| "code Ewf2MediaInfoParseFailed = ''EWF-EWF2-MEDIA-INFO-PARSE-FAILED''"

section \<open>Bounded readers\<close>

text \<open>Bytes at an offset, zeros when they are not all there.\<close>

definition array_at :: "nat \<Rightarrow> bytes \<Rightarrow> nat \<Rightarrow> bytes" where
  "array_at n data off =
    (case get_range data off (sat_add off n) of Some s \<Rightarrow> fill_buf n s | None \<Rightarrow> replicate n 0)"

definition le_u16 :: "bytes \<Rightarrow> nat \<Rightarrow> u16" where
  "le_u16 data off = u16_from_le (array_at 2 data off)"

definition le_u32 :: "bytes \<Rightarrow> nat \<Rightarrow> u32" where
  "le_u32 data off = u32_from_le (array_at 4 data off)"

definition le_u64 :: "bytes \<Rightarrow> nat \<Rightarrow> u64" where
  "le_u64 data off = u64_from_le (array_at 8 data off)"

section \<open>Results\<close>

record AnalysisProgress =
  ap_chunks_done :: nat
  ap_chunks_total :: "nat option"
  ap_bytes_done :: nat

record ComputedHashes =
  ch_md5 :: bytes
  ch_sha1 :: bytes
  ch_sha256 :: bytes

record EwfHeaderMetadata =
  hm_description :: rstr
  hm_case_number :: rstr
  hm_evidence_number :: rstr
  hm_examiner_name :: rstr
  hm_acquisition_date :: rstr
  hm_system_date :: rstr
  hm_password_hash :: rstr
  hm_acquisition_software :: rstr

record EwfIntegrity =
  in_segments :: "bytes list"
  in_expected_md5 :: "bytes option"
  in_expected_sha1 :: "bytes option"
  in_expected_sha256 :: "bytes option"

definition integrity_new :: "bytes \<Rightarrow> EwfIntegrity" where
  "integrity_new data = \<lparr>in_segments = [data], in_expected_md5 = None, in_expected_sha1 = None,
     in_expected_sha256 = None\<rparr>"

definition from_segments :: "bytes list \<Rightarrow> EwfIntegrity" where
  "from_segments segs = \<lparr>in_segments = segs, in_expected_md5 = None, in_expected_sha1 = None,
     in_expected_sha256 = None\<rparr>"

definition with_expected_md5 :: "bytes \<Rightarrow> EwfIntegrity \<Rightarrow> EwfIntegrity" where
  "with_expected_md5 h s = s\<lparr>in_expected_md5 := Some h\<rparr>"

definition with_expected_sha1 :: "bytes \<Rightarrow> EwfIntegrity \<Rightarrow> EwfIntegrity" where
  "with_expected_sha1 h s = s\<lparr>in_expected_sha1 := Some h\<rparr>"

definition with_expected_sha256 :: "bytes \<Rightarrow> EwfIntegrity \<Rightarrow> EwfIntegrity" where
  "with_expected_sha256 h s = s\<lparr>in_expected_sha256 := Some h\<rparr>"

definition hashes_of :: "externals \<Rightarrow> bytes \<Rightarrow> ComputedHashes" where
  "hashes_of X fed = \<lparr>ch_md5 = x_md5 X fed, ch_sha1 = x_sha1 X fed, ch_sha256 = x_sha256 X fed\<rparr>"

section \<open>EWF v1: sections\<close>

record SectionEntry =
  se_type_name :: rstr
  se_offset :: nat
  se_size :: nat

record VolumeGeometry =
  vg_chunk_count :: u32
  vg_sectors_per_chunk :: u32
  vg_bytes_per_sector :: u32
  vg_sector_count :: u64
  vg_set_identifier :: bytes

definition find_section :: "string \<Rightarrow> SectionEntry list \<Rightarrow> SectionEntry option" where
  "find_section name sections = find (\<lambda>s. se_type_name s = lit name) sections"

definition find_volume :: "SectionEntry list \<Rightarrow> SectionEntry option" where
  "find_volume sections =
    find (\<lambda>s. se_type_name s = lit ''volume'' \<or> se_type_name s = lit ''disk'') sections"

text \<open>The gap between the end of a section and the next one.\<close>

definition gap_issues :: "bytes \<Rightarrow> nat \<Rightarrow> nat \<Rightarrow> EwfIntegrityAnomaly list" where
  "gap_issues data section_end nxt =
    (if section_end < nxt then
       (let gap_size = sat_sub nxt section_end;
            non_zero = (case get_range data section_end nxt of
                          Some s \<Rightarrow> list_ex (\<lambda>b. b \<noteq> 0) s
                        | None \<Rightarrow> False)
        in [if non_zero then SectionGapNonZero section_end gap_size
            else SectionGapZero section_end gap_size])
     else [])"

text \<open>The sections of a segment, and the anomalies of the walk.\<close>

function walk_sections_v1_from ::
  "externals \<Rightarrow> bytes \<Rightarrow> nat \<Rightarrow> SectionEntry list \<Rightarrow> EwfIntegrityAnomaly list
    \<Rightarrow> (SectionEntry list \<times> EwfIntegrityAnomaly list) run" where
  "walk_sections_v1_from X data pos sections issues =
    (if length data < sat_add pos SECTION_DESCRIPTOR_SIZE then Ok (sections, issues)
     else
       case index_range data pos (sat_add pos SECTION_DESCRIPTOR_SIZE) of
         Ok raw \<Rightarrow>
           (case descriptor_parse X raw pos of
              Ok desc \<Rightarrow>
                (let type_name = sd_type desc;
                     nxt = unat (sd_next desc);
                     section_size = unat (sd_size desc);
                     section_end = sat_add pos section_size;
                     sections' = sections @ [\<lparr>se_type_name = type_name, se_offset = pos,
                                              se_size = section_size\<rparr>];
                     issues' = issues
                       @ (if descriptor_verify_crc X desc raw then []
                          else [SectionDescriptorCrcMismatch pos type_name
                                  (adler32 X (slice 0 SECTION_DESCRIPTOR_CRC_OFFSET raw))
                                  (sd_stored_crc desc)])
                       @ (if type_name \<in> set KNOWN_TYPES then [] else [UnknownSectionType pos type_name])
                 in if type_name = lit ''done'' \<or> type_name = lit ''next'' then Ok (sections', issues')
                    else if nxt = 0 \<or> length data < nxt \<or> nxt \<le> pos
                    then Ok (sections', issues' @ [SectionChainBroken pos nxt])
                    else walk_sections_v1_from X data nxt sections'
                           (issues' @ gap_issues data section_end nxt))
            | _ \<Rightarrow> Ok (sections, issues))
       | Err e \<Rightarrow> Err e
       | Panic \<Rightarrow> Panic)"
  by pat_completeness auto
termination
  by (relation "measure (\<lambda>(X, data, pos, s, i). length data - pos)") auto

declare walk_sections_v1_from.simps [simp del]

definition walk_sections_v1 ::
  "externals \<Rightarrow> bytes \<Rightarrow> (SectionEntry list \<times> EwfIntegrityAnomaly list) run" where
  "walk_sections_v1 X data = walk_sections_v1_from X data FILE_HEADER_SIZE [] []"

section \<open>EWF v1: volume\<close>

definition is_power_of_two :: "u32 \<Rightarrow> bool" where
  "is_power_of_two w \<longleftrightarrow> list_ex (\<lambda>k. unat w = 2 ^ k) [0..<32]"

definition volume_issues :: "externals \<Rightarrow> bytes \<Rightarrow> EwfVolume \<Rightarrow> EwfIntegrityAnomaly list" where
  "volume_issues X vol parsed =
    (let spc = vol_sectors_per_chunk parsed;
         bps = vol_bytes_per_sector parsed;
         chunk_count = unat (vol_chunk_count parsed);
         sector_count = unat (vol_sector_count parsed);
         max_sectors = sat_mul chunk_count (unat spc);
         min_sectors = sat_sub max_sectors (unat spc)
     in (if vol_media_type parsed \<in> set VALID_MEDIA_TYPES then []
         else [MediaTypeUnknown (vol_media_type parsed)])
        @ (if bps \<noteq> 512 \<and> bps \<noteq> 4096 then [BytesPerSectorInvalid bps] else [])
        @ (if spc = 0 \<or> \<not> is_power_of_two spc then [ChunkSizeInvalid spc bps] else [])
        @ (if is_power_of_two spc
              \<and> (max_sectors < sector_count \<or> (0 < chunk_count \<and> sector_count \<le> min_sectors))
           then [SectorCountMismatch sector_count max_sectors] else [])
        @ (if volume_verify_crc X parsed vol = Some False
           then [VolumeBodyCrcMismatch (adler32 X (slice 0 VOLUME_BODY_CRC_OFFSET vol))
                   (case vol_stored_crc parsed of Some c \<Rightarrow> c | None \<Rightarrow> 0)]
           else []))"

definition check_volume_v1 ::
  "externals \<Rightarrow> bytes \<Rightarrow> nat \<Rightarrow> nat \<Rightarrow> (VolumeGeometry option \<times> EwfIntegrityAnomaly list) run" where
  "check_volume_v1 X data desc_offset section_size =
    (let data_start = sat_add desc_offset SECTION_DESCRIPTOR_SIZE
     in if length data < sat_add data_start VOLUME_DATA_MIN then Ok (None, [])
        else
          let body_len = sat_sub section_size SECTION_DESCRIPTOR_SIZE;
              vol_end = min (sat_add data_start body_len) (length data)
          in and_then (index_range data data_start vol_end) (\<lambda>vol.
               case volume_parse X vol of
                 Ok parsed \<Rightarrow>
                   Ok (Some \<lparr>vg_chunk_count = vol_chunk_count parsed,
                             vg_sectors_per_chunk = vol_sectors_per_chunk parsed,
                             vg_bytes_per_sector = vol_bytes_per_sector parsed,
                             vg_sector_count = vol_sector_count parsed,
                             vg_set_identifier = vol_set_identifier parsed\<rparr>,
                       volume_issues X vol parsed)
               | _ \<Rightarrow> Ok (None, [])))"

section \<open>EWF v1: tables\<close>

text \<open>The loop of \<open>check_table_v1\<close> over the entry indices.\<close>

fun table_entry_issues ::
  "externals \<Rightarrow> bytes \<Rightarrow> nat \<Rightarrow> nat \<Rightarrow> nat \<Rightarrow> (nat \<times> nat) option \<Rightarrow> nat list
    \<Rightarrow> EwfIntegrityAnomaly list" where
  "table_entry_issues X data entries_start base_offset file_size sectors_range [] = []"
| "table_entry_issues X data entries_start base_offset file_size sectors_range (i # is) =
    (let entry_off = sat_add entries_start (sat_mul i 4)
     in case get_range data entry_off (sat_add entry_off 4) of
          None \<Rightarrow> []
        | Some entry_bytes \<Rightarrow>
            (case table_entry_parse X entry_bytes of
               Ok entry \<Rightarrow>
                 (let absolute = sat_add base_offset (unat (te_chunk_offset entry))
                  in (if file_size \<le> absolute then [TableEntryOutOfBounds i absolute file_size]
                      else case sectors_range of
                             None \<Rightarrow> []
                           | Some (sec_start, sec_end) \<Rightarrow>
                               if absolute < sec_start \<or> sec_end \<le> absolute
                               then [TableEntryOutsideSectorsRange i absolute sec_start sec_end]
                               else [])
                     @ table_entry_issues X data entries_start base_offset file_size sectors_range is)
             | _ \<Rightarrow> []))"

definition check_table_v1 ::
  "externals \<Rightarrow> bytes \<Rightarrow> nat \<Rightarrow> u32 option \<Rightarrow> nat \<Rightarrow> (nat \<times> nat) option
    \<Rightarrow> EwfIntegrityAnomaly list run" where
  "check_table_v1 X data desc_offset volume_chunk_count file_size sectors_range =
    (let data_start = sat_add desc_offset SECTION_DESCRIPTOR_SIZE
     in if length data < sat_add data_start TABLE_HEADER_SIZE then Ok []
        else
          and_then (index_range data data_start (length data)) (\<lambda>tbl.
            case table_header_parse X tbl of
              Ok header \<Rightarrow>
                Ok ((if table_header_verify_crc X header tbl = Some False
                     then [TableHeaderAdler32Mismatch (adler32 X (slice 0 TABLE_HEADER_CRC_OFFSET tbl))
                             (th_stored_crc header)]
                     else [])
                    @ (case volume_chunk_count of
                         Some vol_count \<Rightarrow>
                           if th_entry_count header \<noteq> vol_count
                           then [TableChunkCountMismatch (unat vol_count) (unat (th_entry_count header))]
                           else []
                       | None \<Rightarrow> [])
                    @ table_entry_issues X data (sat_add data_start TABLE_HEADER_SIZE)
                        (unat (th_base_offset header)) file_size sectors_range
                        [0..<unat (th_entry_count header)])
            | _ \<Rightarrow> Ok []))"

text \<open>The closure \<open>entry_at\<close> and the loop of \<open>iter_segment_chunks\<close>.\<close>

definition seg_entry_at :: "externals \<Rightarrow> bytes \<Rightarrow> nat \<Rightarrow> nat \<Rightarrow> (bool \<times> nat) option" where
  "seg_entry_at X data entries_start idx =
    (let off = sat_add entries_start (sat_mul idx 4)
     in Option.bind (get_range data off (sat_add off 4)) (\<lambda>bs.
        Option.bind (ok (table_entry_parse X bs)) (\<lambda>e.
          Some (te_compressed e, unat (te_chunk_offset e)))))"

fun segment_chunks_loop ::
  "externals \<Rightarrow> bytes \<Rightarrow> nat \<Rightarrow> nat \<Rightarrow> nat \<Rightarrow> nat \<Rightarrow> nat list \<Rightarrow> (nat \<times> nat \<times> bool) list" where
  "segment_chunks_loop X data entries_start base_offset entry_count body_end [] = []"
| "segment_chunks_loop X data entries_start base_offset entry_count body_end (i # is) =
    (case seg_entry_at X data entries_start i of
       None \<Rightarrow> []
     | Some (compressed, rel) \<Rightarrow>
         let start = sat_add base_offset rel
         in (case (if sat_add i 1 < entry_count
                   then map_option (\<lambda>(_, next_rel). sat_add base_offset next_rel)
                          (seg_entry_at X data entries_start (sat_add i 1))
                   else Some (min body_end (length data))) of
               None \<Rightarrow> []
             | Some en \<Rightarrow>
                 if en \<le> start \<or> length data < en then []
                 else (start, en, compressed)
                        # segment_chunks_loop X data entries_start base_offset entry_count body_end is))"

definition iter_segment_chunks ::
  "externals \<Rightarrow> bytes \<Rightarrow> SectionEntry list \<Rightarrow> (nat \<times> nat \<times> bool) list run" where
  "iter_segment_chunks X data sections =
    (case find_section ''table'' sections of
       None \<Rightarrow> Ok []
     | Some table \<Rightarrow>
         (case find_section ''sectors'' sections of
            None \<Rightarrow> Ok []
          | Some sectors \<Rightarrow>
              let tbl_data_start = sat_add (se_offset table) SECTION_DESCRIPTOR_SIZE
              in if length data < sat_add tbl_data_start TABLE_HEADER_SIZE then Ok []
                 else and_then (index_range data tbl_data_start (length data)) (\<lambda>tbl.
                   case table_header_parse X tbl of
                     Ok header \<Rightarrow>
                       Ok (segment_chunks_loop X data (sat_add tbl_data_start TABLE_HEADER_SIZE)
                             (unat (th_base_offset header)) (unat (th_entry_count header))
                             (sat_add (se_offset sectors) (se_size sectors))
                             [0..<unat (th_entry_count header)])
                   | _ \<Rightarrow> Ok [])))"

section \<open>EWF v1: hashes\<close>

text \<open>What the hashing loop carries: the bytes fed to the hashers, and its counters.\<close>

record hash_state =
  hs_fed :: bytes
  hs_remaining :: nat
  hs_chunk_idx :: nat
  hs_issues :: "EwfIntegrityAnomaly list"
  hs_progress :: "AnalysisProgress list"

text \<open>One chunk. The checksum slice lies inside \<open>raw\<close> by the length test before it.\<close>

definition hash_chunk ::
  "externals \<Rightarrow> nat \<Rightarrow> nat \<Rightarrow> bytes \<Rightarrow> bool \<Rightarrow> hash_state \<Rightarrow> hash_state" where
  "hash_chunk X chunk_size total_bytes raw compressed st =
    (let to_hash = min (hs_remaining st) chunk_size;
         this_idx = hs_chunk_idx st;
         idx' = sat_add this_idx 1;
         stored = le_u32 raw chunk_size;
         computed = adler32 X (take chunk_size raw);
         crc_issues = (if \<not> compressed \<and> chunk_size < length raw \<and> sat_add chunk_size 4 \<le> length raw
                          \<and> computed \<noteq> stored
                       then [ChunkChecksumMismatch this_idx computed stored] else []);
         remaining' = sat_sub (hs_remaining st) to_hash;
         event = \<lparr>ap_chunks_done = idx', ap_chunks_total = None,
                  ap_bytes_done = sat_sub total_bytes remaining'\<rparr>
     in if compressed then
          (case x_zlib_read_to_end X raw (Some (sat_add to_hash 1)) of
             None \<Rightarrow>
               st\<lparr>hs_chunk_idx := idx', hs_remaining := remaining',
                  hs_issues := hs_issues st @ crc_issues @ [ChunkDecompressionError this_idx]\<rparr>
           | Some decompressed \<Rightarrow>
               st\<lparr>hs_chunk_idx := idx', hs_remaining := remaining',
                  hs_issues := hs_issues st @ crc_issues,
                  hs_fed := hs_fed st @ take (min (length decompressed) to_hash) decompressed,
                  hs_progress := hs_progress st @ [event]\<rparr>)
        else
          st\<lparr>hs_chunk_idx := idx', hs_remaining := remaining',
             hs_issues := hs_issues st @ crc_issues,
             hs_fed := hs_fed st @ take (min (length raw) to_hash) raw,
             hs_progress := hs_progress st @ [event]\<rparr>)"

text \<open>The chunks of one segment; the flag tells that the outer loop is left.\<close>

fun hash_chunks ::
  "externals \<Rightarrow> nat \<Rightarrow> nat \<Rightarrow> bytes \<Rightarrow> (nat \<times> nat \<times> bool) list \<Rightarrow> hash_state
    \<Rightarrow> (hash_state \<times> bool) run" where
  "hash_chunks X chunk_size total_bytes data [] st = Ok (st, False)"
| "hash_chunks X chunk_size total_bytes data ((start, en, compressed) # chunks) st =
    (if hs_remaining st = 0 then Ok (st, True)
     else and_then (index_range data start en) (\<lambda>raw.
       hash_chunks X chunk_size total_bytes data chunks
         (hash_chunk X chunk_size total_bytes raw compressed st)))"

fun hash_segments ::
  "externals \<Rightarrow> nat \<Rightarrow> nat \<Rightarrow> (bytes \<times> SectionEntry list) list \<Rightarrow> hash_state \<Rightarrow> hash_state run" where
  "hash_segments X chunk_size total_bytes [] st = Ok st"
| "hash_segments X chunk_size total_bytes ((data, sections) # segs) st =
    and_then (iter_segment_chunks X data sections) (\<lambda>chunks.
    and_then (hash_chunks X chunk_size total_bytes data chunks st) (\<lambda>(st', stop).
      if stop then Ok st' else hash_segments X chunk_size total_bytes segs st'))"

definition geometry_chunk_size :: "VolumeGeometry \<Rightarrow> nat" where
  "geometry_chunk_size g = sat_mul (unat (vg_sectors_per_chunk g)) (unat (vg_bytes_per_sector g))"

definition geometry_total_bytes :: "VolumeGeometry \<Rightarrow> nat" where
  "geometry_total_bytes g = sat_mul (unat (vg_sector_count g)) (unat (vg_bytes_per_sector g))"

text \<open>The comparison of a computed hash with a reference that may be absent.\<close>

definition mismatch ::
  "(bytes \<Rightarrow> bytes \<Rightarrow> EwfIntegrityAnomaly) \<Rightarrow> bytes \<Rightarrow> bytes option \<Rightarrow> EwfIntegrityAnomaly list" where
  "mismatch anomaly computed reference =
    (case reference of
       None \<Rightarrow> []
     | Some r \<Rightarrow> if computed \<noteq> r then [anomaly computed r] else [])"

definition stored_md5_issues ::
  "bytes \<Rightarrow> SectionEntry list \<Rightarrow> bytes \<Rightarrow> EwfIntegrityAnomaly list" where
  "stored_md5_issues last_data last_sections computed_md5 =
    (case find_section ''hash'' last_sections of
       None \<Rightarrow> [HashSectionMissing]
     | Some hash_sec \<Rightarrow>
         let body_start = sat_add (se_offset hash_sec) SECTION_DESCRIPTOR_SIZE
         in mismatch HashMismatch computed_md5
              (get_range last_data body_start (sat_add body_start 16)))"

definition stored_sha1_issues ::
  "bytes \<Rightarrow> SectionEntry list \<Rightarrow> bytes \<Rightarrow> EwfIntegrityAnomaly list" where
  "stored_sha1_issues last_data last_sections computed_sha1 =
    (case find_section ''digest'' last_sections of
       None \<Rightarrow> []
     | Some digest_sec \<Rightarrow>
         let body_start = sat_add (se_offset digest_sec) SECTION_DESCRIPTOR_SIZE
         in (case get_range last_data (sat_add body_start 16) (sat_add body_start 36) of
               None \<Rightarrow> []
             | Some stored \<Rightarrow>
                 if stored \<noteq> replicate 20 0 \<and> computed_sha1 \<noteq> stored
                 then [DigestSha1Mismatch computed_sha1 stored] else []))"

definition external_issues :: "EwfIntegrity \<Rightarrow> ComputedHashes \<Rightarrow> EwfIntegrityAnomaly list" where
  "external_issues s h =
    mismatch ExternalMd5Mismatch (ch_md5 h) (in_expected_md5 s)
    @ mismatch ExternalSha1Mismatch (ch_sha1 h) (in_expected_sha1 s)
    @ mismatch ExternalSha256Mismatch (ch_sha256 h) (in_expected_sha256 s)"

text \<open>The anomalies of the hash check and the progress snapshots.\<close>

definition check_hash_all_segments ::
  "externals \<Rightarrow> EwfIntegrity \<Rightarrow> SectionEntry list list \<Rightarrow> VolumeGeometry
    \<Rightarrow> (EwfIntegrityAnomaly list \<times> AnalysisProgress list) run" where
  "check_hash_all_segments X s all_sections geom =
    (let chunk_size = geometry_chunk_size geom;
         total_bytes = geometry_total_bytes geom
     in and_then (hash_segments X chunk_size total_bytes (zip (in_segments s) all_sections)
            \<lparr>hs_fed = [], hs_remaining = total_bytes, hs_chunk_idx = 0, hs_issues = [], hs_progress = []\<rparr>) (\<lambda>st.
          let h = hashes_of X (hs_fed st)
          in Ok (if all_sections = [] \<or> in_segments s = [] then (hs_issues st, hs_progress st)
                 else (hs_issues st
                         @ stored_md5_issues (last (in_segments s)) (last all_sections) (ch_md5 h)
                         @ stored_sha1_issues (last (in_segments s)) (last all_sections) (ch_sha1 h)
                         @ external_issues s h, hs_progress st))))"

section \<open>EWF v1: analysis\<close>

record ewf1_state =
  e1_geometry :: "VolumeGeometry option"
  e1_all_sections :: "SectionEntry list list"
  e1_total_entries :: nat
  e1_issues :: "EwfIntegrityAnomaly list"

definition signature_issues_v1 :: "bytes \<Rightarrow> EwfIntegrityAnomaly list" where
  "signature_issues_v1 data =
    (let sig = slice 0 8 data
     in if sig \<noteq> EVF_SIGNATURE \<and> sig \<noteq> DVF_SIGNATURE \<and> sig \<noteq> LVF_SIGNATURE
        then [InvalidSignature] else [])"

definition segment_number_issues :: "nat \<Rightarrow> nat \<Rightarrow> EwfIntegrityAnomaly list" where
  "segment_number_issues seg_num expected =
    (if seg_num = 0 then [SegmentNumberZero]
     else if seg_num \<noteq> expected then [SegmentOutOfOrder seg_num expected] else [])"

text \<open>The first place where two byte strings differ.\<close>

definition first_difference :: "bytes \<Rightarrow> bytes \<Rightarrow> nat option" where
  "first_difference a b = find (\<lambda>i. a ! i \<noteq> b ! i) [0..<min (length a) (length b)]"

definition table2_issues :: "bytes \<Rightarrow> SectionEntry list \<Rightarrow> EwfIntegrityAnomaly list" where
  "table2_issues data sections =
    (case (find_section ''table'' sections, find_section ''table2'' sections) of
       (Some t1, Some t2) \<Rightarrow>
         (case (get_range data (sat_add (se_offset t1) SECTION_DESCRIPTOR_SIZE) (sat_add (se_offset t1) (se_size t1)),
                get_range data (sat_add (se_offset t2) SECTION_DESCRIPTOR_SIZE) (sat_add (se_offset t2) (se_size t2))) of
            (Some body1, Some body2) \<Rightarrow>
              if length body1 = length body2
              then (case first_difference body1 body2 of Some off \<Rightarrow> [Table2Mismatch off] | None \<Rightarrow> [])
              else [Table2Mismatch 0]
          | _ \<Rightarrow> [])
     | _ \<Rightarrow> [])"

definition error2_issues :: "bytes \<Rightarrow> SectionEntry list \<Rightarrow> EwfIntegrityAnomaly list" where
  "error2_issues data sections =
    (case find_section ''error2'' sections of
       None \<Rightarrow> []
     | Some e2 \<Rightarrow>
         let body_start = sat_add (se_offset e2) SECTION_DESCRIPTOR_SIZE
         in if sat_add body_start 4 \<le> length data \<and> 0 < unat (le_u32 data body_start)
            then [BadSectorsPresent (unat (le_u32 data body_start))] else [])"

text \<open>
  The volume of a segment: the geometry of the first one, and the GUID of later ones against
  it. The result is the geometry kept from here on.
\<close>

definition volume_check ::
  "externals \<Rightarrow> nat \<Rightarrow> bytes \<Rightarrow> SectionEntry list \<Rightarrow> VolumeGeometry option
    \<Rightarrow> (VolumeGeometry option \<times> EwfIntegrityAnomaly list) run" where
  "volume_check X idx data sections geometry =
    (case find_volume sections of
       None \<Rightarrow> Ok (geometry, if idx = 0 then [VolumeSectionMissing] else [])
     | Some vol_sec \<Rightarrow>
         and_then (check_volume_v1 X data (se_offset vol_sec) (se_size vol_sec)) (\<lambda>(g, iss).
           if idx = 0 then Ok (g, iss)
           else Ok (geometry, iss @
             (case (geometry, g) of
                (Some base, Some later) \<Rightarrow>
                  let neither_zero = (vg_set_identifier base \<noteq> replicate 16 0
                                        \<and> vg_set_identifier later \<noteq> replicate 16 0)
                  in if neither_zero \<and> vg_set_identifier base \<noteq> vg_set_identifier later
                     then [SetIdentifierMismatch (sat_add idx 1)] else []
              | _ \<Rightarrow> []))))"

text \<open>The table of a segment, and its entry count added to the total of all segments (a \<open>u32\<close>).\<close>

definition table_check ::
  "externals \<Rightarrow> bytes \<Rightarrow> SectionEntry list \<Rightarrow> u32 option \<Rightarrow> nat
    \<Rightarrow> (nat \<times> EwfIntegrityAnomaly list) run" where
  "table_check X data sections vol_count total_entries =
    (let sectors_section = find_section ''sectors'' sections;
         sectors_range = map_option (\<lambda>s. (sat_add (se_offset s) SECTION_DESCRIPTOR_SIZE,
                                          sat_add (se_offset s) (se_size s))) sectors_section;
         missing = (if sectors_section = None then [SectorsSectionMissing] else [])
     in case find_section ''table'' sections of
          None \<Rightarrow> Ok (total_entries, missing @ [TableSectionMissing])
        | Some table \<Rightarrow>
            let data_start = sat_add (se_offset table) SECTION_DESCRIPTOR_SIZE;
                total' = (if sat_add data_start 4 \<le> length data
                          then min (total_entries + unat (le_u32 data data_start)) (2 ^ 32 - 1)
                          else total_entries)
            in map_ok (\<lambda>iss. (total', missing @ iss))
                 (check_table_v1 X data (se_offset table) vol_count (length data) sectors_range))"

definition analyse_segment_ewf1 ::
  "externals \<Rightarrow> nat \<Rightarrow> nat \<times> bytes \<Rightarrow> ewf1_state \<Rightarrow> ewf1_state run" where
  "analyse_segment_ewf1 X n seg st =
    (let (idx, data) = seg;
         expected_seg_num = (idx + 1) mod 2 ^ 16;
         is_last = (idx = sat_sub n 1)
     in if length data < FILE_HEADER_SIZE
        then Ok (st\<lparr>e1_issues := e1_issues st @ [SectionChainBroken 0 0],
                    e1_all_sections := e1_all_sections st @ [[]]\<rparr>)
        else
          and_then (walk_sections_v1 X data) (\<lambda>(sections, walk_issues).
          and_then (volume_check X idx data sections (e1_geometry st)) (\<lambda>(geometry, vol_issues).
          and_then (table_check X data sections
                      (if \<not> 1 < n \<and> idx = 0 then map_option vg_chunk_count geometry else None)
                      (e1_total_entries st)) (\<lambda>(total_entries, tbl_issues).
            Ok \<lparr>e1_geometry = geometry,
                e1_all_sections = e1_all_sections st @ [sections],
                e1_total_entries = total_entries,
                e1_issues = e1_issues st
                  @ signature_issues_v1 data
                  @ segment_number_issues (unat (le_u16 data 9)) expected_seg_num
                  @ walk_issues @ vol_issues @ tbl_issues
                  @ table2_issues data sections
                  @ error2_issues data sections
                  @ (if is_last \<and> find_section ''done'' sections = None then [DoneSectionMissing] else [])\<rparr>))))"

fun fold_run :: "('a \<Rightarrow> 's \<Rightarrow> 's run) \<Rightarrow> 'a list \<Rightarrow> 's \<Rightarrow> 's run" where
  "fold_run f [] s = Ok s"
| "fold_run f (x # xs) s = and_then (f x s) (fold_run f xs)"

definition ewf1_init :: ewf1_state where
  "ewf1_init = \<lparr>e1_geometry = None, e1_all_sections = [], e1_total_entries = 0, e1_issues = []\<rparr>"

definition chunk_total_issues :: "nat \<Rightarrow> ewf1_state \<Rightarrow> EwfIntegrityAnomaly list" where
  "chunk_total_issues n st =
    (case e1_geometry st of
       Some geom \<Rightarrow>
         if 1 < n \<and> e1_total_entries st \<noteq> unat (vg_chunk_count geom)
         then [TableChunkCountMismatch (unat (vg_chunk_count geom)) (e1_total_entries st)] else []
     | None \<Rightarrow> [])"

text \<open>The anomalies, with the progress snapshots that the callback receives.\<close>

definition analyse_all_ewf1_with_progress ::
  "externals \<Rightarrow> EwfIntegrity \<Rightarrow> (EwfIntegrityAnomaly list \<times> AnalysisProgress list) run" where
  "analyse_all_ewf1_with_progress X s =
    (let n = length (in_segments s)
     in and_then (fold_run (analyse_segment_ewf1 X n) (zip [0..<n] (in_segments s)) ewf1_init) (\<lambda>st.
          (case e1_geometry st of
             None \<Rightarrow> Ok (e1_issues st, [])
           | Some geom \<Rightarrow>
               map_ok (\<lambda>(iss, evs). (e1_issues st @ chunk_total_issues n st @ iss, evs))
                 (check_hash_all_segments X s (e1_all_sections st) geom))))"

text \<open>\<open>analyse_all_ewf1\<close> runs the same statements with a callback that does nothing.\<close>

definition analyse_all_ewf1 :: "externals \<Rightarrow> EwfIntegrity \<Rightarrow> EwfIntegrityAnomaly list run" where
  "analyse_all_ewf1 X s =
    (let n = length (in_segments s)
     in and_then (fold_run (analyse_segment_ewf1 X n) (zip [0..<n] (in_segments s)) ewf1_init) (\<lambda>st.
          (case e1_geometry st of
             None \<Rightarrow> Ok (e1_issues st)
           | Some geom \<Rightarrow>
               map_ok (\<lambda>(iss, _). e1_issues st @ chunk_total_issues n st @ iss)
                 (check_hash_all_segments X s (e1_all_sections st) geom))))"

section \<open>EWF v2: sections\<close>

definition parse_media_info_body :: "externals \<Rightarrow> bytes \<Rightarrow> bool" where
  "parse_media_info_body X body =
    (if body = [] then False
     else case x_zlib_read_to_end X body None of
            None \<Rightarrow> False
          | Some decompressed \<Rightarrow>
              let text_bytes = (if take 2 decompressed = [0xFF, 0xFE] then drop 2 decompressed
                                else decompressed)
              in if odd (length text_bytes) then False
                 else list_all (\<lambda>c. c \<noteq> None) (decode_utf16 (utf16_units text_bytes)))"

text \<open>What the backward walk over one segment collects.\<close>

record seg2_state =
  s2_has_hash :: bool
  s2_has_media_info :: bool
  s2_chunk_table :: "(nat \<times> nat) option"
  s2_md5 :: "bytes option"
  s2_sha1 :: "bytes option"
  s2_sha256 :: "bytes option"
  s2_issues :: "EwfIntegrityAnomaly list"

definition seg2_init :: seg2_state where
  "seg2_init = \<lparr>s2_has_hash = False, s2_has_media_info = False, s2_chunk_table = None,
     s2_md5 = None, s2_sha1 = None, s2_sha256 = None, s2_issues = []\<rparr>"

text \<open>
  The stored hash of a hash section: the first \<open>n\<close> bytes of its body, when it declares as
  many. \<open>body[..n]\<close> would panic on a shorter body.
\<close>

definition stored_hash_of :: "nat \<Rightarrow> nat \<Rightarrow> bytes option \<Rightarrow> bytes option \<Rightarrow> bytes option run" where
  "stored_hash_of n data_size body old =
    (if n \<le> data_size
     then (case body of
             Some b \<Rightarrow> map_ok Some (index_range b 0 n)
           | None \<Rightarrow> Ok old)
     else Ok old)"

definition section2_step ::
  "externals \<Rightarrow> bytes \<Rightarrow> nat \<Rightarrow> bytes \<Rightarrow> seg2_state \<Rightarrow> seg2_state run" where
  "section2_step X data desc_offset desc st =
    (let section_type = le_u32 desc 0;
         data_flags = le_u32 desc 4;
         data_size = unat (le_u64 desc 16);
         stored_hash = array_at 16 desc 32;
         body = get_range data (sat_sub desc_offset data_size) desc_offset
     in if data_flags AND 0x00000002 \<noteq> 0
        then Ok (st\<lparr>s2_issues := s2_issues st @ [Ewf2EncryptedSection desc_offset]\<rparr>)
        else
          let hash_issues =
                (if stored_hash \<noteq> replicate 16 0
                 then (case body of
                         Some b \<Rightarrow> if x_md5 X b \<noteq> stored_hash
                                   then [Ewf2SectionDataHashMismatch desc_offset section_type
                                           (x_md5 X b) stored_hash] else []
                       | None \<Rightarrow> [])
                 else []);
              st1 = st\<lparr>s2_issues := s2_issues st @ hash_issues\<rparr>
          in if section_type = 0x02 then
               Ok (st1\<lparr>s2_has_media_info := True,
                       s2_issues := s2_issues st1 @
                         (case body of
                            Some b \<Rightarrow> if parse_media_info_body X b then [] else [Ewf2MediaInfoParseFailed]
                          | None \<Rightarrow> [Ewf2MediaInfoParseFailed])\<rparr>)
             else if section_type = 0x04 then
               Ok (st1\<lparr>s2_chunk_table := Some (sat_sub desc_offset data_size, desc_offset)\<rparr>)
             else if section_type = 0x08 then
               map_ok (\<lambda>h. st1\<lparr>s2_has_hash := True, s2_md5 := h\<rparr>)
                 (stored_hash_of 16 data_size body (s2_md5 st1))
             else if section_type = 0x09 then
               map_ok (\<lambda>h. st1\<lparr>s2_has_hash := True, s2_sha1 := h\<rparr>)
                 (stored_hash_of 20 data_size body (s2_sha1 st1))
             else if section_type = 0x0A then
               map_ok (\<lambda>h. st1\<lparr>s2_has_hash := True, s2_sha256 := h\<rparr>)
                 (stored_hash_of 32 data_size body (s2_sha256 st1))
             else Ok st1)"

function walk_sections_v2 ::
  "externals \<Rightarrow> bytes \<Rightarrow> nat \<Rightarrow> seg2_state \<Rightarrow> seg2_state run" where
  "walk_sections_v2 X data desc_offset st =
    (if length data < sat_add desc_offset EVF2_SECTION_DESCRIPTOR_SIZE
        \<or> desc_offset < EVF2_FILE_HEADER_SIZE
     then Ok st
     else
       and_then (index_range data desc_offset (sat_add desc_offset EVF2_SECTION_DESCRIPTOR_SIZE)) (\<lambda>desc.
       and_then (section2_step X data desc_offset desc st) (\<lambda>st'.
         let prev_offset = unat (le_u64 desc 8)
         in if prev_offset = 0 \<or> desc_offset \<le> prev_offset then Ok st'
            else walk_sections_v2 X data prev_offset st')))"
  by pat_completeness auto
termination
  by (relation "measure (\<lambda>(X, data, off, st). off)") auto

declare walk_sections_v2.simps [simp del]

section \<open>EWF v2: chunk data\<close>

text \<open>One entry of the chunk table: offset, raw size, stored size and flags.\<close>

definition entry2_at :: "bytes \<Rightarrow> nat \<Rightarrow> (nat \<times> nat \<times> u32) option" where
  "entry2_at tbl i =
    (let entry_off = sat_add EVF2_CHUNK_TABLE_HEADER_SIZE (sat_mul i EVF2_CHUNK_TABLE_ENTRY_SIZE)
     in if length tbl < sat_add entry_off EVF2_CHUNK_TABLE_ENTRY_SIZE then None
        else Some (unat (le_u64 tbl entry_off), unat (le_u32 tbl (sat_add entry_off 8)),
                   le_u32 tbl (sat_add entry_off 12)))"

definition crc2_issues :: "externals \<Rightarrow> bytes \<Rightarrow> nat \<Rightarrow> nat \<Rightarrow> nat \<Rightarrow> bytes \<Rightarrow> EwfIntegrityAnomaly list" where
  "crc2_issues X data i file_offset chunk_data_size chunk_raw =
    (let crc_start = sat_add file_offset (sat_sub chunk_data_size 4)
     in if 4 \<le> chunk_data_size
        then (case get_range data crc_start (sat_add crc_start 4) of
                Some crc_bytes \<Rightarrow>
                  if adler32 X chunk_raw \<noteq> u32_from_le crc_bytes
                  then [ChunkChecksumMismatch i (adler32 X chunk_raw) (u32_from_le crc_bytes)] else []
              | None \<Rightarrow> [])
        else [])"

text \<open>The loop over the entries: bytes fed, anomalies, snapshots.\<close>

fun chunks2_loop ::
  "externals \<Rightarrow> bytes \<Rightarrow> bytes \<Rightarrow> nat \<Rightarrow> nat list
    \<Rightarrow> bytes \<times> EwfIntegrityAnomaly list \<times> AnalysisProgress list
    \<Rightarrow> bytes \<times> EwfIntegrityAnomaly list \<times> AnalysisProgress list" where
  "chunks2_loop X data tbl chunk_count [] st = st"
| "chunks2_loop X data tbl chunk_count (i # is) (fed, iss, evs) =
    (case entry2_at tbl i of
       None \<Rightarrow> (fed, iss, evs)
     | Some (file_offset, chunk_data_size, flags) \<Rightarrow>
         let raw_size = sat_sub chunk_data_size 4
         in (case get_range data file_offset (sat_add file_offset raw_size) of
               None \<Rightarrow> (fed, iss, evs)
             | Some chunk_raw \<Rightarrow>
                 let iss' = iss @ crc2_issues X data i file_offset chunk_data_size chunk_raw;
                     event = \<lparr>ap_chunks_done = sat_add i 1, ap_chunks_total = Some chunk_count,
                              ap_bytes_done = sat_mul (sat_add i 1) raw_size\<rparr>
                 in if flags AND 0x00000001 \<noteq> 0 then
                      (case x_zlib_read_to_end X chunk_raw None of
                         None \<Rightarrow> chunks2_loop X data tbl chunk_count is
                                   (fed, iss' @ [ChunkDecompressionError i], evs)
                       | Some decompressed \<Rightarrow>
                           chunks2_loop X data tbl chunk_count is (fed @ decompressed, iss', evs @ [event]))
                    else chunks2_loop X data tbl chunk_count is (fed @ chunk_raw, iss', evs @ [event])))"

definition table_checksum_issues :: "externals \<Rightarrow> bytes \<Rightarrow> nat \<Rightarrow> EwfIntegrityAnomaly list run" where
  "table_checksum_issues X tbl chunk_count =
    (let checksum_off = sat_add EVF2_CHUNK_TABLE_HEADER_SIZE
                          (sat_mul chunk_count EVF2_CHUNK_TABLE_ENTRY_SIZE)
     in if sat_add checksum_off 4 \<le> length tbl
        then map_ok (\<lambda>covered. if adler32 X covered \<noteq> le_u32 tbl checksum_off
                      then [Ewf2ChunkTableChecksumMismatch (adler32 X covered) (le_u32 tbl checksum_off)]
                      else [])
               (index_range tbl EVF2_CHUNK_TABLE_HEADER_SIZE checksum_off)
        else Ok [])"

definition verify_ewf2_sector_data ::
  "externals \<Rightarrow> bytes \<Rightarrow> nat \<Rightarrow> nat \<Rightarrow> bytes option \<Rightarrow> bytes option \<Rightarrow> bytes option
    \<Rightarrow> (ComputedHashes option \<times> EwfIntegrityAnomaly list \<times> AnalysisProgress list) run" where
  "verify_ewf2_sector_data X data ct_start ct_end stored_md5 stored_sha1 stored_sha256 =
    (case get_range data ct_start ct_end of
       None \<Rightarrow> Ok (None, [], [])
     | Some tbl \<Rightarrow>
         if length tbl < EVF2_CHUNK_TABLE_HEADER_SIZE + EVF2_CHUNK_TABLE_ENTRY_SIZE then Ok (None, [], [])
         else
           let chunk_count = unat (le_u64 tbl 8)
           in and_then (table_checksum_issues X tbl chunk_count) (\<lambda>cs_issues.
                let (fed, iss, evs) = chunks2_loop X data tbl chunk_count [0..<chunk_count] ([], [], []);
                    h = hashes_of X fed
                in Ok (Some h,
                       cs_issues @ iss
                         @ mismatch HashMismatch (ch_md5 h) stored_md5
                         @ mismatch DigestSha1Mismatch (ch_sha1 h) stored_sha1
                         @ mismatch DigestSha256Mismatch (ch_sha256 h) stored_sha256,
                       evs)))"

section \<open>Computed hashes\<close>

text \<open>EWF v2: the walk that looks for the chunk table only.\<close>

function find_chunk_table ::
  "bytes \<Rightarrow> nat \<Rightarrow> (nat \<times> nat) option \<Rightarrow> (nat \<times> nat) option run" where
  "find_chunk_table data desc_offset found =
    (if length data < sat_add desc_offset EVF2_SECTION_DESCRIPTOR_SIZE
        \<or> desc_offset < EVF2_FILE_HEADER_SIZE
     then Ok found
     else
       and_then (index_range data desc_offset (sat_add desc_offset EVF2_SECTION_DESCRIPTOR_SIZE)) (\<lambda>desc.
         let section_type = le_u32 desc 0;
             data_flags = le_u32 desc 4;
             prev_offset = unat (le_u64 desc 8);
             data_size = unat (le_u64 desc 16);
             found' = (if data_flags AND 0x00000002 = 0 \<and> section_type = 0x04
                       then Some (sat_sub desc_offset data_size, desc_offset) else found)
         in if prev_offset = 0 \<or> desc_offset \<le> prev_offset then Ok found'
            else find_chunk_table data prev_offset found'))"
  by pat_completeness auto
termination
  by (relation "measure (\<lambda>(data, off, found). off)") auto

declare find_chunk_table.simps [simp del]

fun feed_chunks2 :: "externals \<Rightarrow> bytes \<Rightarrow> bytes \<Rightarrow> nat list \<Rightarrow> bytes \<times> bool \<Rightarrow> bytes \<times> bool" where
  "feed_chunks2 X data tbl [] st = st"
| "feed_chunks2 X data tbl (i # is) (fed, found_chunks) =
    (case entry2_at tbl i of
       None \<Rightarrow> (fed, found_chunks)
     | Some (file_offset, chunk_data_size, flags) \<Rightarrow>
         (case get_range data file_offset (sat_add file_offset (sat_sub chunk_data_size 4)) of
            None \<Rightarrow> (fed, found_chunks)
          | Some chunk_raw \<Rightarrow>
              if flags AND 0x00000001 \<noteq> 0 then
                (case x_zlib_read_to_end X chunk_raw None of
                   None \<Rightarrow> feed_chunks2 X data tbl is (fed, found_chunks)
                 | Some decompressed \<Rightarrow> feed_chunks2 X data tbl is (fed @ decompressed, True))
              else feed_chunks2 X data tbl is (fed @ chunk_raw, True)))"

definition feed_segment2 :: "externals \<Rightarrow> bytes \<Rightarrow> bytes \<times> bool \<Rightarrow> (bytes \<times> bool) run" where
  "feed_segment2 X data st =
    (if length data < EVF2_FILE_HEADER_SIZE + EVF2_SECTION_DESCRIPTOR_SIZE then Ok st
     else
       map_ok (\<lambda>ct. case Option.bind ct (\<lambda>(ct_start, ct_end). get_range data ct_start ct_end) of
                 None \<Rightarrow> st
               | Some tbl \<Rightarrow>
                   if length tbl < EVF2_CHUNK_TABLE_HEADER_SIZE + EVF2_CHUNK_TABLE_ENTRY_SIZE then st
                   else feed_chunks2 X data tbl [0..<unat (le_u64 tbl 8)] st)
         (find_chunk_table data (sat_sub (length data) EVF2_SECTION_DESCRIPTOR_SIZE) None))"

definition compute_hashes_ewf2 :: "externals \<Rightarrow> bytes list \<Rightarrow> ComputedHashes option run" where
  "compute_hashes_ewf2 X segments =
    map_ok (\<lambda>(fed, found_chunks). if found_chunks then Some (hashes_of X fed) else None)
      (fold_run (feed_segment2 X) segments ([], False))"

text \<open>EWF v1: the hashing loop without the checks.\<close>

fun feed_chunks1 ::
  "externals \<Rightarrow> nat \<Rightarrow> bytes \<Rightarrow> (nat \<times> nat \<times> bool) list \<Rightarrow> bytes \<times> nat \<Rightarrow> ((bytes \<times> nat) \<times> bool) run" where
  "feed_chunks1 X chunk_size data [] st = Ok (st, False)"
| "feed_chunks1 X chunk_size data ((start, en, compressed) # chunks) (fed, remaining) =
    (if remaining = 0 then Ok ((fed, remaining), True)
     else and_then (index_range data start en) (\<lambda>raw.
       let to_hash = min remaining chunk_size
       in feed_chunks1 X chunk_size data chunks
            (if compressed then
               (case x_zlib_read_to_end X raw (Some (sat_add to_hash 1)) of
                  None \<Rightarrow> fed
                | Some decompressed \<Rightarrow> fed @ take (min (length decompressed) to_hash) decompressed)
             else fed @ take (min (length raw) to_hash) raw,
             sat_sub remaining to_hash)))"

fun feed_segments1 ::
  "externals \<Rightarrow> nat \<Rightarrow> (bytes \<times> SectionEntry list) list \<Rightarrow> bytes \<times> nat \<Rightarrow> (bytes \<times> nat) run" where
  "feed_segments1 X chunk_size [] st = Ok st"
| "feed_segments1 X chunk_size ((data, sections) # segs) st =
    and_then (iter_segment_chunks X data sections) (\<lambda>chunks.
    and_then (feed_chunks1 X chunk_size data chunks st) (\<lambda>(st', stop).
      if stop then Ok st' else feed_segments1 X chunk_size segs st'))"

definition compute_hashes_ewf1 :: "externals \<Rightarrow> bytes list \<Rightarrow> ComputedHashes option run" where
  "compute_hashes_ewf1 X segments =
    (case segments of
       [] \<Rightarrow> Ok None
     | first # _ \<Rightarrow>
         if length first < FILE_HEADER_SIZE then Ok None
         else if signature_issues_v1 first \<noteq> [] then Ok None
         else
           and_then (walk_sections_v1 X first) (\<lambda>(sections_first, _).
             case find_volume sections_first of
               None \<Rightarrow> Ok None
             | Some vol_sec \<Rightarrow>
                 and_then (check_volume_v1 X first (se_offset vol_sec) (se_size vol_sec)) (\<lambda>(g, _).
                   case g of
                     None \<Rightarrow> Ok None
                   | Some geom \<Rightarrow>
                       and_then (collect (map (\<lambda>seg. map_ok fst (walk_sections_v1 X seg)) segments)) (\<lambda>all_sections.
                       and_then (feed_segments1 X (geometry_chunk_size geom) (zip segments all_sections)
                                   ([], geometry_total_bytes geom)) (\<lambda>(fed, _).
                         Ok (Some (hashes_of X fed)))))))"

definition is_ewf2 :: "bytes list \<Rightarrow> bool" where
  "is_ewf2 segments =
    (let first = (case segments of [] \<Rightarrow> [] | s # _ \<Rightarrow> s)
     in 8 \<le> length first \<and> (slice 0 8 first = IN_EVF2_SIGNATURE \<or> slice 0 8 first = IN_LEF2_SIGNATURE))"

definition compute_hashes :: "externals \<Rightarrow> EwfIntegrity \<Rightarrow> ComputedHashes option run" where
  "compute_hashes X s =
    (if is_ewf2 (in_segments s) then compute_hashes_ewf2 X (in_segments s)
     else compute_hashes_ewf1 X (in_segments s))"

section \<open>EWF v2: analysis\<close>

record ewf2_state =
  e2_md5 :: "bytes option"
  e2_sha1 :: "bytes option"
  e2_sha256 :: "bytes option"
  e2_issues :: "EwfIntegrityAnomaly list"
  e2_progress :: "AnalysisProgress list"

definition header_issues_v2 :: "nat \<Rightarrow> bytes \<Rightarrow> EwfIntegrityAnomaly list" where
  "header_issues_v2 idx data =
    (let expected = (idx + 1) mod 2 ^ 32;
         seg_num = unat (le_u32 data 12);
         method = le_u16 data 10
     in (if slice 0 8 data \<noteq> IN_EVF2_SIGNATURE \<and> slice 0 8 data \<noteq> IN_LEF2_SIGNATURE
         then [InvalidSignature] else [])
        @ (if seg_num = 0 then [SegmentNumberZero]
           else if seg_num \<noteq> expected
           then [SegmentOutOfOrder (seg_num mod 2 ^ 16) (expected mod 2 ^ 16)] else [])
        @ (if 1 < unat method then [UnsupportedCompressionAlgorithm method] else []))"

definition analyse_segment_ewf2 ::
  "externals \<Rightarrow> nat \<Rightarrow> nat \<times> bytes \<Rightarrow> ewf2_state \<Rightarrow> ewf2_state run" where
  "analyse_segment_ewf2 X n seg st =
    (let (idx, data) = seg;
         is_last = (idx = sat_sub n 1)
     in if length data < EVF2_FILE_HEADER_SIZE + EVF2_SECTION_DESCRIPTOR_SIZE
        then Ok (st\<lparr>e2_issues := e2_issues st @ [SectionChainBroken 0 0]\<rparr>)
        else
          and_then (walk_sections_v2 X data (sat_sub (length data) EVF2_SECTION_DESCRIPTOR_SIZE) seg2_init) (\<lambda>w.
          and_then (case s2_chunk_table w of
                      None \<Rightarrow> Ok (None, [], [])
                    | Some (ct_start, ct_end) \<Rightarrow>
                        verify_ewf2_sector_data X data ct_start ct_end None None None) (\<lambda>(_, iss, evs).
            Ok \<lparr>e2_md5 = (if is_last then s2_md5 w else e2_md5 st),
                e2_sha1 = (if is_last then s2_sha1 w else e2_sha1 st),
                e2_sha256 = (if is_last then s2_sha256 w else e2_sha256 st),
                e2_issues = e2_issues st @ header_issues_v2 idx data @ s2_issues w
                  @ (if is_last \<and> \<not> s2_has_hash w then [Ewf2HashSectionMissing] else [])
                  @ (if idx = 0 \<and> \<not> s2_has_media_info w then [Ewf2MediaInfoMissing] else [])
                  @ iss,
                e2_progress = e2_progress st @ evs\<rparr>)))"

definition ewf2_init :: ewf2_state where
  "ewf2_init = \<lparr>e2_md5 = None, e2_sha1 = None, e2_sha256 = None, e2_issues = [], e2_progress = []\<rparr>"

text \<open>The hashes over all segments against those stored in the last one and those expected.\<close>

definition cross_segment_issues ::
  "EwfIntegrity \<Rightarrow> ewf2_state \<Rightarrow> ComputedHashes option \<Rightarrow> EwfIntegrityAnomaly list" where
  "cross_segment_issues s st computed =
    (case computed of
       None \<Rightarrow> []
     | Some h \<Rightarrow>
         mismatch HashMismatch (ch_md5 h) (e2_md5 st)
         @ mismatch DigestSha1Mismatch (ch_sha1 h) (e2_sha1 st)
         @ mismatch DigestSha256Mismatch (ch_sha256 h) (e2_sha256 st)
         @ external_issues s h)"

definition analyse_all_ewf2_with_progress ::
  "externals \<Rightarrow> EwfIntegrity \<Rightarrow> (EwfIntegrityAnomaly list \<times> AnalysisProgress list) run" where
  "analyse_all_ewf2_with_progress X s =
    (let n = length (in_segments s)
     in and_then (fold_run (analyse_segment_ewf2 X n) (zip [0..<n] (in_segments s)) ewf2_init) (\<lambda>st.
        and_then (compute_hashes_ewf2 X (in_segments s)) (\<lambda>computed.
          Ok (e2_issues st @ cross_segment_issues s st computed, e2_progress st))))"

definition analyse_all_ewf2 :: "externals \<Rightarrow> EwfIntegrity \<Rightarrow> EwfIntegrityAnomaly list run" where
  "analyse_all_ewf2 X s = map_ok fst (analyse_all_ewf2_with_progress X s)"

section \<open>Entry points\<close>

definition analyse :: "externals \<Rightarrow> EwfIntegrity \<Rightarrow> EwfIntegrityAnomaly list run" where
  "analyse X s =
    (if is_ewf2 (in_segments s) then analyse_all_ewf2 X s else analyse_all_ewf1 X s)"

definition analyse_with_progress ::
  "externals \<Rightarrow> EwfIntegrity \<Rightarrow> (EwfIntegrityAnomaly list \<times> AnalysisProgress list) run" where
  "analyse_with_progress X s =
    (if is_ewf2 (in_segments s) then analyse_all_ewf2_with_progress X s
     else analyse_all_ewf1_with_progress X s)"

end
