(* ===== verification/Integrity_Correct.thy ===== *)
theory Integrity_Correct
  imports Integrity Sample_Image
begin

text \<open>
  Facts about the integrity analysis: it always returns, its sections and chunk ranges lie inside
  the segment, the hashing loop feeds the hashers what \<open>compute_hashes\<close> feeds them, and the
  anomalies about expected hashes are exactly the differences.
\<close>

section \<open>Results that are there\<close>

definition returns :: "('e, 'a) result \<Rightarrow> bool" where
  "returns r \<longleftrightarrow> (\<exists>v. r = Ok v)"

lemma returns_simps [simp]:
  "returns (Ok v)" "\<not> returns (Err e)" "\<not> returns Panic" "returns (map_ok f r) = returns r"
  by (cases r; simp add: returns_def)+

lemma returns_and_then: "returns (and_then r f) \<longleftrightarrow> returns r \<and> (\<forall>v. r = Ok v \<longrightarrow> returns (f v))"
  by (cases r) auto

lemma returns_index_range [simp]: "returns (index_range xs a b) \<longleftrightarrow> a \<le> b \<and> b \<le> length xs"
  by (simp add: returns_def)

lemma returns_fold_run: "(\<And>x s. x \<in> set xs \<Longrightarrow> returns (f x s)) \<Longrightarrow> returns (fold_run f xs s)"
  by (induction xs arbitrary: s) (auto simp: returns_and_then)

lemma sat_add_inside: "sat_add a b \<le> n \<Longrightarrow> a \<le> u64_max \<Longrightarrow> a \<le> sat_add a b \<and> a \<le> n"
  using le_sat_add [of a b] by simp

section \<open>Sections of a v1 segment\<close>

text \<open>
  The walk returns sections at ascending offsets, each with its descriptor inside the segment.
\<close>

definition sections_in :: "bytes \<Rightarrow> SectionEntry list \<Rightarrow> bool" where
  "sections_in data ss \<longleftrightarrow>
    sorted_wrt (\<lambda>s t. se_offset s < se_offset t) ss \<and>
    (\<forall>s \<in> set ss. FILE_HEADER_SIZE \<le> se_offset s \<and> se_offset s \<le> u64_max \<and>
       sat_add (se_offset s) SECTION_DESCRIPTOR_SIZE \<le> length data)"

lemma sections_in_snoc:
  "sections_in data ss \<Longrightarrow> (\<And>s. s \<in> set ss \<Longrightarrow> se_offset s < pos) \<Longrightarrow> 13 \<le> pos \<Longrightarrow> pos \<le> u64_max \<Longrightarrow>
    sat_add pos 76 \<le> length data \<Longrightarrow> sections_in data (ss @ [\<lparr>se_type_name = t, se_offset = pos, se_size = n\<rparr>])"
  by (auto simp: sections_in_def sorted_wrt_append)

lemma walk_sections_v1_from_in:
  assumes "sections_in data ss" and "\<And>s. s \<in> set ss \<Longrightarrow> se_offset s < pos" and "13 \<le> pos" and "pos \<le> u64_max"
  shows "\<exists>ss' iss'. walk_sections_v1_from X data pos ss iss = Ok (ss', iss') \<and> sections_in data ss'"
  using assms
proof (induction "length data - pos" arbitrary: pos ss iss rule: less_induct)
  case less
  note step = walk_sections_v1_from.simps [of X data pos ss iss]
  show ?case
  proof (cases "length data < sat_add pos 76")
    case True
    then show ?thesis using less.prems(1) by (simp add: step)
  next
    case False
    then have inside: "sat_add pos 76 \<le> length data" by simp
    have raw: "index_range data pos (sat_add pos 76) = Ok (slice pos (sat_add pos 76) data)"
      using inside le_sat_add [OF less.prems(4)] by simp
    show ?thesis
    proof (cases "descriptor_parse X (slice pos (sat_add pos 76) data) pos")
      case (Ok desc)
      let ?n = "unat (sd_next desc)"
      let ?ss = "ss @ [\<lparr>se_type_name = sd_type desc, se_offset = pos, se_size = unat (sd_size desc)\<rparr>]"
      have ss: "sections_in data ?ss" using less.prems inside by (intro sections_in_snoc) auto
      show ?thesis
      proof (cases "sd_type desc = lit ''done'' \<or> sd_type desc = lit ''next'' \<or> ?n = 0 \<or> length data < ?n \<or> ?n \<le> pos")
        case True
        then show ?thesis using ss False by (auto simp: step raw Ok Let_def)
      next
        case go: False
        have before: "se_offset s < ?n" if "s \<in> set ?ss" for s using that less.prems(2) go by force
        have "\<exists>ss' iss'. walk_sections_v1_from X data ?n ?ss i = Ok (ss', iss') \<and> sections_in data ss'" for i
          using go less.prems(3) ss before by (intro less.hyps) auto
        then show ?thesis using False go by (simp add: step raw Ok Let_def)
      qed
    qed (use False less.prems(1) in \<open>auto simp: step raw\<close>)
  qed
qed

lemma walk_sections_v1_in:
  "\<exists>ss iss. walk_sections_v1 X data = Ok (ss, iss) \<and> sections_in data ss"
  unfolding walk_sections_v1_def
  by (rule walk_sections_v1_from_in) (simp_all add: sections_in_def u64_max_def)

lemma sections_in_find:
  "sections_in data ss \<Longrightarrow> find P ss = Some s \<Longrightarrow> se_offset s \<le> u64_max \<and> sat_add (se_offset s) 76 \<le> length data"
  unfolding sections_in_def find_Some_iff by (metis nth_mem)

section \<open>Chunk ranges of a v1 segment\<close>

definition ranges_in :: "bytes \<Rightarrow> (nat \<times> nat \<times> bool) list \<Rightarrow> bool" where
  "ranges_in data chunks \<longleftrightarrow> list_all (\<lambda>(a, b, c). a < b \<and> b \<le> length data) chunks"

lemma segment_chunks_loop_in: "ranges_in data (segment_chunks_loop X data es base n e is)"
proof (induction "is")
  case (Cons i "is")
  then show ?case
    by (auto simp: ranges_in_def Let_def split: option.split)
qed (simp add: ranges_in_def)

lemma table_start:
  "\<not> length data < sat_add (sat_add off 76) 24 \<Longrightarrow> sat_add off 76 \<le> length data"
  using sat_add_inside [of "sat_add off 76" 24 "length data"] sat_add_bound [of off 76] by simp

lemma iter_segment_chunks_in:
  "\<exists>chunks. iter_segment_chunks X data ss = Ok chunks \<and> ranges_in data chunks"
proof -
  have nil: "ranges_in data []" by (simp add: ranges_in_def)
  show ?thesis
    using table_start
    by (auto simp: iter_segment_chunks_def Let_def nil index_range_in segment_chunks_loop_in
        split: option.split result.split)
qed

section \<open>The v1 analysis returns\<close>

lemma hash_chunks_returns: "ranges_in data chunks \<Longrightarrow> returns (hash_chunks X cs t data chunks st)"
  by (induction chunks arbitrary: st) (auto simp: ranges_in_def returns_and_then)

lemma hash_segments_returns: "returns (hash_segments X cs t segs st)"
proof (induction segs arbitrary: st)
  case (Cons seg segs)
  obtain data ss where seg: "seg = (data, ss)" by (cases seg)
  obtain chunks where "iter_segment_chunks X data ss = Ok chunks" "ranges_in data chunks"
    using iter_segment_chunks_in by blast
  then show ?case using Cons hash_chunks_returns [of data chunks] by (auto simp: seg returns_and_then)
qed simp

lemma check_hash_returns: "returns (check_hash_all_segments X s ss geom)"
  by (simp add: check_hash_all_segments_def Let_def returns_and_then hash_segments_returns)

lemma check_volume_returns: "returns (check_volume_v1 X data off n)"
proof (cases "length data < sat_add (sat_add off 76) 24")
  case False
  then have "sat_add off 76 \<le> length data"
    using sat_add_inside [of "sat_add off 76" 24 "length data"] sat_add_bound [of off 76] by simp
  moreover have "sat_add off 76 \<le> sat_add (sat_add off 76) k" for k
    using le_sat_add sat_add_bound by blast
  ultimately show ?thesis
    by (auto simp: check_volume_v1_def Let_def returns_and_then split: result.split)
qed (simp add: check_volume_v1_def)

lemma check_table_returns: "returns (check_table_v1 X data off c n r)"
  using table_start [of data off]
  by (auto simp: check_table_v1_def Let_def returns_and_then split: result.split)

lemma volume_check_returns: "returns (volume_check X i data ss g)"
  using check_volume_returns
  by (auto simp: volume_check_def returns_and_then split: option.split)

lemma table_check_returns: "returns (table_check X data ss c n)"
  using check_table_returns by (auto simp: table_check_def Let_def split: option.split)

lemma walk_sections_v1_returns: "returns (walk_sections_v1 X data)"
  using walk_sections_v1_in [of X data] by (auto simp: returns_def)

lemma analyse_segment_ewf1_returns: "returns (analyse_segment_ewf1 X n seg st)"
  using walk_sections_v1_returns volume_check_returns table_check_returns
  by (auto simp: analyse_segment_ewf1_def Let_def returns_and_then split: prod.split)

lemma analyse_all_ewf1_returns: "returns (analyse_all_ewf1_with_progress X s)"
  using check_hash_returns
  by (auto simp: analyse_all_ewf1_with_progress_def Let_def returns_and_then
      intro!: returns_fold_run analyse_segment_ewf1_returns split: option.split)

section \<open>The v2 analysis returns\<close>

lemma stored_hash_returns:
  "off \<le> length data \<Longrightarrow> n \<le> off \<Longrightarrow> returns (stored_hash_of n k (get_range data (off - k) off) old)"
  by (auto simp: stored_hash_of_def split: option.split)

lemma section2_step_returns:
  "off \<le> length data \<Longrightarrow> 32 \<le> off \<Longrightarrow> returns (section2_step X data off desc st)"
  by (simp add: section2_step_def Let_def stored_hash_returns)

lemma desc2_inside:
  "off \<le> u64_max \<Longrightarrow> \<not> (length data < sat_add off 64 \<or> off < 32) \<Longrightarrow>
    off \<le> sat_add off 64 \<and> sat_add off 64 \<le> length data \<and> off \<le> length data \<and> 32 \<le> off"
  using le_sat_add [of off 64] by simp

lemma walk_sections_v2_returns: "off \<le> u64_max \<Longrightarrow> returns (walk_sections_v2 X data off st)"
proof (induction X data off st rule: walk_sections_v2.induct)
  case (1 X data off st)
  show ?case
  proof (cases "length data < sat_add off 64 \<or> off < 32")
    case False
    note inside = desc2_inside [OF 1(2) False]
    have "returns (section2_step X data off d st)" for d using inside by (simp add: section2_step_returns)
    moreover have "returns (if unat (le_u64 d 8) = 0 \<or> off \<le> unat (le_u64 d 8) then Ok st'
        else walk_sections_v2 X data (unat (le_u64 d 8)) st')"
      if "d = slice off (sat_add off 64) data" "section2_step X data off d st = Ok st'" for d st'
      using 1(1) [OF False refl] inside that by auto
    ultimately show ?thesis
      using inside unfolding walk_sections_v2.simps [of X data off st] Let_def
      by (auto simp: returns_and_then simp del: if_split)
  qed (simp add: walk_sections_v2.simps [of X data off])
qed

lemma find_chunk_table_returns: "off \<le> u64_max \<Longrightarrow> returns (find_chunk_table data off found)"
proof (induction data off found rule: find_chunk_table.induct)
  case (1 data off found)
  show ?case
  proof (cases "length data < sat_add off 64 \<or> off < 32")
    case False
    note inside = desc2_inside [OF 1(2) False]
    then show ?thesis
      using 1(1) [OF False refl refl refl refl refl]
      unfolding find_chunk_table.simps [of data off found] Let_def
      by (auto simp: returns_and_then)
  qed (simp add: find_chunk_table.simps [of data off])
qed

lemma table_checksum_returns: "returns (table_checksum_issues X tbl n)"
proof -
  have "32 \<le> sat_add 32 k" for k using le_sat_add [of 32 k] by (simp add: u64_max_def)
  moreover have "sat_add k 4 \<le> m \<Longrightarrow> k \<le> u64_max \<Longrightarrow> k \<le> m" for k m using sat_add_inside by blast
  ultimately show ?thesis
    by (auto simp: table_checksum_issues_def Let_def sat_add_bound)
qed

lemma verify_sector_data_returns: "returns (verify_ewf2_sector_data X data a b m s1 s2)"
  by (auto simp: verify_ewf2_sector_data_def Let_def returns_and_then table_checksum_returns
      split: option.split prod.split)

lemma analyse_segment_ewf2_returns:
  "length (snd seg) \<le> u64_max \<Longrightarrow> returns (analyse_segment_ewf2 X n seg st)"
  by (cases seg) (auto simp: analyse_segment_ewf2_def Let_def returns_and_then
      walk_sections_v2_returns verify_sector_data_returns split: option.split)

lemma feed_segment2_returns: "length data \<le> u64_max \<Longrightarrow> returns (feed_segment2 X data st)"
  by (simp add: feed_segment2_def find_chunk_table_returns)

lemma compute_hashes_ewf2_returns:
  "list_all (\<lambda>d. length d \<le> u64_max) segs \<Longrightarrow> returns (compute_hashes_ewf2 X segs)"
  unfolding compute_hashes_ewf2_def returns_simps
  by (intro returns_fold_run feed_segment2_returns) (simp add: list_all_iff)

lemma analyse_all_ewf2_returns:
  assumes "list_all (\<lambda>d. length d \<le> u64_max) (in_segments s)"
  shows "returns (analyse_all_ewf2_with_progress X s)"
proof -
  have "length (snd seg) \<le> u64_max" if "seg \<in> set (zip [0..<n] (in_segments s))" for seg n
    using assms that set_zip_rightD by (cases seg) (fastforce simp: list_all_iff)
  then have "returns (fold_run (analyse_segment_ewf2 X n) (zip [0..<n] (in_segments s)) st)" for n st
    by (intro returns_fold_run analyse_segment_ewf2_returns)
  then show ?thesis
    using compute_hashes_ewf2_returns [OF assms]
    by (simp add: analyse_all_ewf2_with_progress_def Let_def returns_and_then)
qed

text \<open>The analysis without a callback is the analysis with one, its snapshots dropped.\<close>

lemma analyse_drops_progress: "analyse X s = map_ok fst (analyse_with_progress X s)"
proof -
  have dist: "map_ok f (and_then r g) = and_then r (\<lambda>x. map_ok f (g x))" for f g r by (cases r) auto
  have drop: "map_ok fst (map_ok (\<lambda>(iss, evs). (a @ b @ iss, evs)) r) = map_ok (\<lambda>(iss, _). a @ b @ iss) r"
    for a b r by (cases r) auto
  have "analyse_all_ewf1 X s = map_ok fst (analyse_all_ewf1_with_progress X s)"
    unfolding analyse_all_ewf1_def analyse_all_ewf1_with_progress_def Let_def dist
    by (intro arg_cong [of _ _ "and_then _"] ext) (simp add: drop split: option.split)
  then show ?thesis by (simp add: analyse_def analyse_with_progress_def analyse_all_ewf2_def)
qed

section \<open>What the hashers are fed\<close>

lemma hash_chunk_feeds:
  "hs_fed (hash_chunk X cs t raw c st) =
    (let n = min (hs_remaining st) cs
     in if c then (case x_zlib_read_to_end X raw (Some (sat_add n 1)) of
                     None \<Rightarrow> hs_fed st | Some d \<Rightarrow> hs_fed st @ take (min (length d) n) d)
        else hs_fed st @ take (min (length raw) n) raw)"
  "hs_remaining (hash_chunk X cs t raw c st) = hs_remaining st - min (hs_remaining st) cs"
  by (simp_all add: hash_chunk_def Let_def split: option.split)

lemma hash_chunks_feed:
  "map_ok (\<lambda>(st, stop). ((hs_fed st, hs_remaining st), stop)) (hash_chunks X cs t data chunks st) =
    feed_chunks1 X cs data chunks (hs_fed st, hs_remaining st)"
proof (induction chunks arbitrary: st)
  case (Cons ch chunks)
  obtain a b c where ch: "ch = (a, b, c)" by (cases ch)
  show ?case
  proof (cases "index_range data a b :: bytes run")
    case (Ok raw)
    show ?thesis
      using Cons [of "hash_chunk X cs t raw c st"] by (simp add: ch Ok hash_chunk_feeds Let_def)
  qed (simp_all add: ch)
qed simp

lemma hash_segments_feed:
  "map_ok (\<lambda>st. (hs_fed st, hs_remaining st)) (hash_segments X cs t segs st) =
    feed_segments1 X cs segs (hs_fed st, hs_remaining st)"
proof (induction segs arbitrary: st)
  case (Cons seg segs)
  obtain data ss where seg: "seg = (data, ss)" by (cases seg)
  obtain chunks where chunks: "iter_segment_chunks X data ss = Ok chunks" using iter_segment_chunks_in by blast
  show ?case
  proof (cases "hash_chunks X cs t data chunks st")
    case (Ok r)
    obtain st' stop where "r = (st', stop)" by (cases r)
    then show ?thesis
      using Cons [of st'] hash_chunks_feed [of X cs t data chunks st, symmetric]
      by (simp add: seg chunks Ok)
  qed (use hash_chunks_feed [of X cs t data chunks st, symmetric] in \<open>simp_all add: seg chunks\<close>)
qed simp

section \<open>Verdicts\<close>

text \<open>The anomalies that compare a hash of the whole image with a stored or expected one.\<close>

definition is_verdict :: "EwfIntegrityAnomaly \<Rightarrow> bool" where
  "is_verdict a = (case a of
     HashMismatch _ _ \<Rightarrow> True | HashSectionMissing \<Rightarrow> True
   | DigestSha1Mismatch _ _ \<Rightarrow> True | DigestSha256Mismatch _ _ \<Rightarrow> True
   | ExternalMd5Mismatch _ _ \<Rightarrow> True | ExternalSha1Mismatch _ _ \<Rightarrow> True
   | ExternalSha256Mismatch _ _ \<Rightarrow> True | _ \<Rightarrow> False)"

definition no_verdict :: "EwfIntegrityAnomaly list \<Rightarrow> bool" where
  "no_verdict iss \<longleftrightarrow> filter is_verdict iss = []"

lemma no_verdict_simps [simp]:
  "no_verdict []" "no_verdict (a # iss) \<longleftrightarrow> \<not> is_verdict a \<and> no_verdict iss"
  "no_verdict (xs @ ys) \<longleftrightarrow> no_verdict xs \<and> no_verdict ys"
  by (auto simp: no_verdict_def)

lemma gap_no_verdict: "no_verdict (gap_issues data a b)"
  by (simp add: gap_issues_def Let_def is_verdict_def)

lemma walk_no_verdict:
  "walk_sections_v1_from X data pos ss iss = Ok (ss', iss') \<Longrightarrow> no_verdict iss \<Longrightarrow> no_verdict iss'"
proof (induction X data pos ss iss rule: walk_sections_v1_from.induct)
  case (1 X data pos ss iss)
  show ?case
    using 1 unfolding walk_sections_v1_from.simps [of X data pos ss iss] Let_def
    by (auto simp: is_verdict_def gap_no_verdict split: if_splits result.splits)
qed

lemma volume_issues_no_verdict: "no_verdict (volume_issues X vol parsed)"
  unfolding volume_issues_def Let_def no_verdict_simps by (simp add: is_verdict_def)

lemma volume_no_verdict:
  "check_volume_v1 X data off n = Ok (g, iss) \<Longrightarrow> no_verdict iss"
  by (auto simp: check_volume_v1_def volume_issues_no_verdict Let_def split: if_splits result.splits)

lemma volume_check_no_verdict:
  assumes "volume_check X i data ss g = Ok (g', iss)"
  shows "no_verdict iss"
proof (cases "find_volume ss")
  case None
  then show ?thesis using assms by (auto simp: volume_check_def is_verdict_def split: if_splits)
next
  case (Some v)
  obtain g1 iss1 where c: "check_volume_v1 X data (se_offset v) (se_size v) = Ok (g1, iss1)"
    using check_volume_returns [of X data "se_offset v" "se_size v"] by (auto simp: returns_def)
  show ?thesis
    using assms volume_no_verdict [OF c]
    by (cases g; cases g1) (auto simp: volume_check_def Some c is_verdict_def Let_def split: if_splits)
qed

lemma volume_check_geometry:
  assumes "volume_check X i data ss g = Ok (g', iss)"
  shows "g' = (if i \<noteq> 0 then g else case find_volume ss of None \<Rightarrow> g
     | Some v \<Rightarrow> (case check_volume_v1 X data (se_offset v) (se_size v) of Ok (h, _) \<Rightarrow> h | _ \<Rightarrow> None))"
proof (cases "find_volume ss")
  case (Some v)
  obtain g1 iss1 where c: "check_volume_v1 X data (se_offset v) (se_size v) = Ok (g1, iss1)"
    using check_volume_returns [of X data "se_offset v" "se_size v"] by (auto simp: returns_def)
  show ?thesis using assms by (auto simp: volume_check_def Some c split: if_splits)
qed (use assms in \<open>auto simp: volume_check_def split: if_splits\<close>)

lemma entries_no_verdict: "no_verdict (table_entry_issues X data es base n r is)"
  by (induction "is") (auto simp: is_verdict_def Let_def split: option.split result.split)

lemma table_check_no_verdict: "table_check X data ss c n = Ok (m, iss) \<Longrightarrow> no_verdict iss"
  by (auto simp: table_check_def check_table_v1_def is_verdict_def entries_no_verdict Let_def
      split: if_splits option.splits result.splits)

lemma segment_no_verdict:
  "no_verdict (signature_issues_v1 data)" "no_verdict (segment_number_issues a b)"
  "no_verdict (table2_issues data ss)" "no_verdict (error2_issues data ss)" "no_verdict (chunk_total_issues n st)"
  by (auto simp: signature_issues_v1_def segment_number_issues_def table2_issues_def error2_issues_def
      chunk_total_issues_def is_verdict_def Let_def split: option.split)

lemma hash_chunk_no_verdict: "no_verdict (hs_issues (hash_chunk X cs t raw c st)) = no_verdict (hs_issues st)"
  by (auto simp: hash_chunk_def is_verdict_def Let_def split: option.split)

lemma hash_chunks_no_verdict:
  "hash_chunks X cs t data chunks st = Ok (st', stop) \<Longrightarrow> no_verdict (hs_issues st) \<Longrightarrow> no_verdict (hs_issues st')"
proof (induction chunks arbitrary: st)
  case (Cons ch chunks)
  then show ?case by (cases ch) (auto simp: hash_chunk_no_verdict split: if_splits)
qed simp

lemma hash_segments_no_verdict:
  "hash_segments X cs t segs st = Ok st' \<Longrightarrow> no_verdict (hs_issues st) \<Longrightarrow> no_verdict (hs_issues st')"
proof (induction segs arbitrary: st)
  case (Cons seg segs)
  then show ?case by (cases seg) (auto split: if_splits dest: hash_chunks_no_verdict)
qed simp

section \<open>One segment after the other\<close>

definition sections_of :: "externals \<Rightarrow> bytes \<Rightarrow> SectionEntry list" where
  "sections_of X data = (case walk_sections_v1 X data of Ok (ss, _) \<Rightarrow> ss | _ \<Rightarrow> [])"

definition geometry_of :: "externals \<Rightarrow> bytes \<Rightarrow> VolumeGeometry option" where
  "geometry_of X data =
    (case find_volume (sections_of X data) of
       None \<Rightarrow> None
     | Some v \<Rightarrow> (case check_volume_v1 X data (se_offset v) (se_size v) of Ok (g, _) \<Rightarrow> g | _ \<Rightarrow> None))"

lemma sections_of_short: "length data < 13 \<Longrightarrow> sections_of X data = []"
  by (simp add: sections_of_def walk_sections_v1_def walk_sections_v1_from.simps [of X data 13] sat_add_def u64_max_def)

lemma walk_sections_of: "map_ok fst (walk_sections_v1 X data) = Ok (sections_of X data)"
  using walk_sections_v1_in [of X data] by (auto simp: sections_of_def)

lemma analyse_segment_ewf1_step:
  assumes "analyse_segment_ewf1 X n (idx, data) st = Ok st'"
  shows "e1_all_sections st' = e1_all_sections st @ [sections_of X data]"
    and "idx \<noteq> 0 \<Longrightarrow> e1_geometry st' = e1_geometry st"
    and "idx = 0 \<Longrightarrow> e1_geometry st' =
      (if find_volume (sections_of X data) = None then e1_geometry st else geometry_of X data)"
    and "no_verdict (e1_issues st) \<Longrightarrow> no_verdict (e1_issues st')"
proof -
  obtain ss iss where w: "walk_sections_v1 X data = Ok (ss, iss)" using walk_sections_v1_in [of X data] by auto
  then have ss: "sections_of X data = ss" by (simp add: sections_of_def)
  show "e1_all_sections st' = e1_all_sections st @ [sections_of X data]"
    using assms ss sections_of_short [of data X] by (auto simp: analyse_segment_ewf1_def Let_def w split: if_splits)
  show "idx \<noteq> 0 \<Longrightarrow> e1_geometry st' = e1_geometry st"
    using assms by (auto simp: analyse_segment_ewf1_def Let_def w split: if_splits dest: volume_check_geometry)
  show "idx = 0 \<Longrightarrow> e1_geometry st' =
      (if find_volume (sections_of X data) = None then e1_geometry st else geometry_of X data)"
    using assms sections_of_short [of data X]
    by (auto simp: analyse_segment_ewf1_def Let_def w geometry_of_def ss find_volume_def
        dest!: volume_check_geometry split: option.split if_splits)
  show "no_verdict (e1_issues st) \<Longrightarrow> no_verdict (e1_issues st')"
    using assms volume_check_no_verdict table_check_no_verdict segment_no_verdict
      walk_no_verdict [OF w [unfolded walk_sections_v1_def]]
    by (auto simp: analyse_segment_ewf1_def Let_def is_verdict_def w split: if_splits)
qed

lemma analyse_segments_tail:
  assumes "fold_run (analyse_segment_ewf1 X n) (zip [Suc k..<Suc k + length segs] segs) st = Ok st'"
  shows "e1_all_sections st' = e1_all_sections st @ map (sections_of X) segs \<and> e1_geometry st' = e1_geometry st
    \<and> (no_verdict (e1_issues st) \<longrightarrow> no_verdict (e1_issues st'))"
  using assms
proof (induction segs arbitrary: k st)
  case (Cons data segs)
  have upt: "[Suc k..<Suc k + length (data # segs)] = Suc k # [Suc (Suc k)..<Suc (Suc k) + length segs]"
    by (simp add: upt_conv_Cons del: upt_Suc)
  obtain mid where mid: "analyse_segment_ewf1 X n (Suc k, data) st = Ok mid"
    "fold_run (analyse_segment_ewf1 X n) (zip [Suc (Suc k)..<Suc (Suc k) + length segs] segs) mid = Ok st'"
    using Cons.prems unfolding upt by auto
  show ?case
    using Cons.IH [OF mid(2)] analyse_segment_ewf1_step [OF mid(1)] by simp
qed simp

lemma analyse_segments:
  assumes "fold_run (analyse_segment_ewf1 X n) (zip [0..<length segs] segs) ewf1_init = Ok st"
    and "segs = first # rest"
  shows "e1_all_sections st = map (sections_of X) segs" and "e1_geometry st = geometry_of X first"
    and "no_verdict (e1_issues st)"
proof -
  have upt: "[0..<length (first # rest)] = 0 # [Suc 0..<Suc 0 + length rest]"
    by (simp add: upt_conv_Cons del: upt_Suc)
  obtain mid where mid: "analyse_segment_ewf1 X n (0, first) ewf1_init = Ok mid"
    "fold_run (analyse_segment_ewf1 X n) (zip [Suc 0..<Suc 0 + length rest] rest) mid = Ok st"
    using assms(1) [unfolded assms(2)] unfolding upt by auto
  note first = analyse_segment_ewf1_step [OF mid(1)] and tail = analyse_segments_tail [OF mid(2)]
  show "e1_all_sections st = map (sections_of X) segs" "no_verdict (e1_issues st)"
    using first tail by (simp_all add: assms(2) ewf1_init_def)
  show "e1_geometry st = geometry_of X first"
    using first(3) tail by (auto simp: ewf1_init_def geometry_of_def)
qed

section \<open>The verdicts of the v1 analysis\<close>

lemma filter_no_verdict: "no_verdict iss \<Longrightarrow> filter is_verdict iss = []"
  by (simp add: no_verdict_def)

lemma mismatch_verdict:
  "filter is_verdict (mismatch HashMismatch c r) = mismatch HashMismatch c r"
  "filter is_verdict (mismatch DigestSha1Mismatch c r) = mismatch DigestSha1Mismatch c r"
  "filter is_verdict (mismatch DigestSha256Mismatch c r) = mismatch DigestSha256Mismatch c r"
  "filter is_verdict (mismatch ExternalMd5Mismatch c r) = mismatch ExternalMd5Mismatch c r"
  "filter is_verdict (mismatch ExternalSha1Mismatch c r) = mismatch ExternalSha1Mismatch c r"
  "filter is_verdict (mismatch ExternalSha256Mismatch c r) = mismatch ExternalSha256Mismatch c r"
  by (simp_all add: mismatch_def is_verdict_def split: option.split)

lemma stored_verdict:
  "filter is_verdict (stored_md5_issues data ss h) = stored_md5_issues data ss h"
  "filter is_verdict (stored_sha1_issues data ss h) = stored_sha1_issues data ss h"
  "filter is_verdict (external_issues s ch) = external_issues s ch"
  by (auto simp: stored_md5_issues_def stored_sha1_issues_def external_issues_def mismatch_verdict is_verdict_def
      Let_def split: option.split)

lemma compute_hashes_ewf1_Some:
  assumes "compute_hashes_ewf1 X segs = Ok (Some h)"
  obtains first rest geom fed rem where "segs = first # rest" and "13 \<le> length first"
    and "geometry_of X first = Some geom"
    and "feed_segments1 X (geometry_chunk_size geom) (zip segs (map (sections_of X) segs))
           ([], geometry_total_bytes geom) = Ok (fed, rem)"
    and "h = hashes_of X fed"
proof (cases segs)
  case Nil
  then show ?thesis using assms by (simp add: compute_hashes_ewf1_def)
next
  case (Cons first rest)
  obtain ss iss where w: "walk_sections_v1 X first = Ok (ss, iss)" using walk_sections_v1_in [of X first] by auto
  have ss: "sections_of X first = ss" by (simp add: sections_of_def w)
  have all: "collect (map (\<lambda>seg. map_ok fst (walk_sections_v1 X seg)) segs) = Ok (map (sections_of X) segs)"
    by (intro collect_all_Ok walk_sections_of)
  show ?thesis
    using assms that [OF Cons] unfolding compute_hashes_ewf1_def Cons list.case all [unfolded Cons]
    by (auto simp: w geometry_of_def ss split: if_splits option.splits simp del: feed_segments1.simps)
qed

lemma hash_verdicts_v1:
  assumes "\<not> is_ewf2 (in_segments s)" and "compute_hashes X s = Ok (Some h)" and "analyse X s = Ok iss"
  shows "filter is_verdict iss =
    stored_md5_issues (last (in_segments s)) (sections_of X (last (in_segments s))) (ch_md5 h)
    @ stored_sha1_issues (last (in_segments s)) (sections_of X (last (in_segments s))) (ch_sha1 h)
    @ external_issues s h"
proof -
  obtain first rest geom fed rem where segs: "in_segments s = first # rest" "13 \<le> length first"
    and geom: "geometry_of X first = Some geom"
    and fed: "feed_segments1 X (geometry_chunk_size geom) (zip (in_segments s) (map (sections_of X) (in_segments s)))
           ([], geometry_total_bytes geom) = Ok (fed, rem)" and h: "h = hashes_of X fed"
    using compute_hashes_ewf1_Some assms(1,2) unfolding compute_hashes_def by (metis (full_types))
  define n where "n = length (in_segments s)"
  obtain st where st: "fold_run (analyse_segment_ewf1 X n) (zip [0..<n] (in_segments s)) ewf1_init = Ok st"
    using returns_fold_run [of "zip [0..<n] (in_segments s)" "analyse_segment_ewf1 X n" ewf1_init]
      analyse_segment_ewf1_returns unfolding returns_def by blast
  note seg = analyse_segments [OF st [unfolded n_def] segs(1)]
  define hs where "hs = \<lparr>hs_fed = [], hs_remaining = geometry_total_bytes geom, hs_chunk_idx = 0,
    hs_issues = [], hs_progress = []\<rparr>"
  obtain hst where hst: "hash_segments X (geometry_chunk_size geom) (geometry_total_bytes geom)
      (zip (in_segments s) (map (sections_of X) (in_segments s))) hs = Ok hst"
    using hash_segments_returns unfolding returns_def by blast
  have hf: "hs_fed hst = fed"
    using hash_segments_feed [of X "geometry_chunk_size geom" "geometry_total_bytes geom"
        "zip (in_segments s) (map (sections_of X) (in_segments s))" hs] fed
    unfolding hst by (simp add: hs_def)
  have nv: "no_verdict (hs_issues hst)" using hash_segments_no_verdict [OF hst] by (simp add: hs_def)
  have ne: "in_segments s \<noteq> []" using segs(1) by simp
  have last: "last (map (sections_of X) (in_segments s)) = sections_of X (last (in_segments s))"
    using ne by (simp add: last_map)
  have "iss = e1_issues st @ chunk_total_issues n st @ hs_issues hst
      @ stored_md5_issues (last (in_segments s)) (sections_of X (last (in_segments s))) (ch_md5 h)
      @ stored_sha1_issues (last (in_segments s)) (sections_of X (last (in_segments s))) (ch_sha1 h)
      @ external_issues s h"
    using assms(1,3) ne
    by (auto simp: analyse_def analyse_all_ewf1_def Let_def st [unfolded n_def] seg geom n_def
        check_hash_all_segments_def hst [unfolded hs_def] hf h last)
  then show ?thesis
    using seg(3) nv segment_no_verdict by (simp add: filter_no_verdict stored_verdict)
qed

section \<open>The verdicts of the v2 analysis\<close>

lemma fold_run_append: "fold_run f (xs @ ys) s = and_then (fold_run f xs s) (fold_run f ys)"
proof (induction xs arbitrary: s)
  case (Cons x xs)
  then show ?case by (cases "f x s") simp_all
qed simp

lemma fold_run_inv:
  assumes "\<And>x s s'. x \<in> set xs \<Longrightarrow> P s \<Longrightarrow> f x s = Ok s' \<Longrightarrow> P s'" and "P s" and "fold_run f xs s = Ok s'"
  shows "P s'"
  using assms by (induction xs arbitrary: s) auto

lemma section2_no_verdict: "section2_step X data off d st = Ok st' \<Longrightarrow> no_verdict (s2_issues st) \<Longrightarrow> no_verdict (s2_issues st')"
  unfolding section2_step_def Let_def
  by (auto simp: is_verdict_def split: if_splits option.splits)

lemma walk2_no_verdict:
  "walk_sections_v2 X data off st = Ok st' \<Longrightarrow> no_verdict (s2_issues st) \<Longrightarrow> no_verdict (s2_issues st')"
proof (induction X data off st rule: walk_sections_v2.induct)
  case (1 X data off st)
  show ?case
    using 1 unfolding walk_sections_v2.simps [of X data off st] Let_def
    by (auto dest: section2_no_verdict split: if_splits)
qed

lemma crc2_no_verdict: "no_verdict (crc2_issues X data i a b raw)"
  by (simp add: crc2_issues_def Let_def is_verdict_def split: option.split)

lemma chunks2_no_verdict:
  "no_verdict iss \<Longrightarrow> no_verdict (fst (snd (chunks2_loop X data tbl n is (fed, iss, evs))))"
  by (induction "is" arbitrary: fed iss evs)
    (auto simp: Let_def crc2_no_verdict is_verdict_def split: option.split)

lemma sector_data_no_verdict:
  assumes "verify_ewf2_sector_data X data a b None None None = Ok (h, iss, evs)"
  shows "no_verdict iss"
  using assms chunks2_no_verdict [of "[]" X data]
  by (auto simp: verify_ewf2_sector_data_def table_checksum_issues_def mismatch_def is_verdict_def Let_def
      split: if_splits option.splits prod.splits) (metis fst_conv snd_conv no_verdict_simps(1))+

text \<open>What the walk over the last segment stored.\<close>

definition stored2 :: "externals \<Rightarrow> bytes \<Rightarrow> seg2_state" where
  "stored2 X data =
    (if length data < EVF2_FILE_HEADER_SIZE + EVF2_SECTION_DESCRIPTOR_SIZE then seg2_init
     else case walk_sections_v2 X data (length data - EVF2_SECTION_DESCRIPTOR_SIZE) seg2_init of
            Ok w \<Rightarrow> w | _ \<Rightarrow> seg2_init)"

definition no_hashes :: "ewf2_state \<Rightarrow> bool" where
  "no_hashes st \<longleftrightarrow> e2_md5 st = None \<and> e2_sha1 st = None \<and> e2_sha256 st = None \<and> no_verdict (e2_issues st)"

lemma header2_no_verdict: "no_verdict (header_issues_v2 i data)"
  unfolding header_issues_v2_def Let_def no_verdict_simps by (simp add: is_verdict_def)

lemma analyse_segment_ewf2_step:
  assumes "analyse_segment_ewf2 X n (idx, data) st = Ok st'" and "no_hashes st"
  shows "idx \<noteq> n - 1 \<Longrightarrow> no_hashes st'"
    and "idx = n - 1 \<Longrightarrow> e2_md5 st' = s2_md5 (stored2 X data) \<and> e2_sha1 st' = s2_sha1 (stored2 X data)
      \<and> e2_sha256 st' = s2_sha256 (stored2 X data)"
    and "no_verdict (e2_issues st')"
proof -
  have nv: "no_verdict (s2_issues w)" if "walk_sections_v2 X data (length data - 64) seg2_init = Ok w" for w
    using walk2_no_verdict [OF that] by (simp add: seg2_init_def)
  have sd: "no_verdict iss" if "(case s2_chunk_table w of None \<Rightarrow> Ok (None, [], [])
      | Some (a, b) \<Rightarrow> verify_ewf2_sector_data X data a b None None None) = Ok (h, iss, evs)" for w h iss evs
    using that by (auto split: option.splits dest: sector_data_no_verdict)
  show nvi: "no_verdict (e2_issues st')"
    using assms nv sd header2_no_verdict
    by (auto simp: analyse_segment_ewf2_def no_hashes_def Let_def is_verdict_def split: if_splits)
  show "idx \<noteq> n - 1 \<Longrightarrow> no_hashes st'"
    using assms nvi by (auto simp: analyse_segment_ewf2_def no_hashes_def Let_def split: if_splits)
  show "idx = n - 1 \<Longrightarrow> e2_md5 st' = s2_md5 (stored2 X data) \<and> e2_sha1 st' = s2_sha1 (stored2 X data)
      \<and> e2_sha256 st' = s2_sha256 (stored2 X data)"
    using assms by (auto simp: analyse_segment_ewf2_def no_hashes_def stored2_def seg2_init_def Let_def split: if_splits)
qed

lemma analyse_segments2:
  assumes "fold_run (analyse_segment_ewf2 X (length segs)) (zip [0..<length segs] segs) ewf2_init = Ok st"
    and "segs \<noteq> []"
  shows "e2_md5 st = s2_md5 (stored2 X (last segs))" and "e2_sha1 st = s2_sha1 (stored2 X (last segs))"
    and "e2_sha256 st = s2_sha256 (stored2 X (last segs))" and "no_verdict (e2_issues st)"
proof -
  obtain front data where segs: "segs = front @ [data]" using assms(2) by (metis rev_exhaust)
  have zips: "zip [0..<length segs] segs = zip [0..<length front] front @ [(length front, data)]"
    by (simp add: segs zip_append1)
  let ?f = "analyse_segment_ewf2 X (length segs)"
  obtain mid where mid: "fold_run ?f (zip [0..<length front] front) ewf2_init = Ok mid"
    "?f (length front, data) mid = Ok st"
    using assms(1) unfolding zips fold_run_append by auto
  have keep: "no_hashes s'" if "x \<in> set (zip [0..<length front] front)" "no_hashes s" "?f x s = Ok s'" for x s s'
  proof -
    obtain idx d where x: "x = (idx, d)" by (cases x)
    then have "idx < length front" using that(1) by (auto simp: set_zip)
    then show ?thesis
      using analyse_segment_ewf2_step(1) [OF that(3) [unfolded x] that(2)] by (simp add: segs)
  qed
  have "no_hashes mid"
  proof (rule fold_run_inv [where P = no_hashes, OF _ _ mid(1)])
    show "no_hashes ewf2_init" by (simp add: no_hashes_def ewf2_init_def)
  qed (rule keep)
  note step = analyse_segment_ewf2_step [OF mid(2) this]
  show "e2_md5 st = s2_md5 (stored2 X (last segs))" "e2_sha1 st = s2_sha1 (stored2 X (last segs))"
    "e2_sha256 st = s2_sha256 (stored2 X (last segs))" "no_verdict (e2_issues st)"
    using step by (simp_all add: segs)
qed

lemma hash_verdicts_v2:
  assumes "is_ewf2 (in_segments s)" and "compute_hashes X s = Ok (Some h)" and "analyse X s = Ok iss"
  shows "filter is_verdict iss =
    mismatch HashMismatch (ch_md5 h) (s2_md5 (stored2 X (last (in_segments s))))
    @ mismatch DigestSha1Mismatch (ch_sha1 h) (s2_sha1 (stored2 X (last (in_segments s))))
    @ mismatch DigestSha256Mismatch (ch_sha256 h) (s2_sha256 (stored2 X (last (in_segments s))))
    @ external_issues s h"
proof -
  have ne: "in_segments s \<noteq> []" using assms(1) by (auto simp: is_ewf2_def)
  have c: "compute_hashes_ewf2 X (in_segments s) = Ok (Some h)" using assms(1,2) by (simp add: compute_hashes_def)
  obtain st where st: "fold_run (analyse_segment_ewf2 X (length (in_segments s)))
      (zip [0..<length (in_segments s)] (in_segments s)) ewf2_init = Ok st"
    and iss: "iss = e2_issues st @ mismatch HashMismatch (ch_md5 h) (e2_md5 st)
       @ mismatch DigestSha1Mismatch (ch_sha1 h) (e2_sha1 st)
       @ mismatch DigestSha256Mismatch (ch_sha256 h) (e2_sha256 st) @ external_issues s h"
    using assms(1,3) by (auto simp: analyse_def analyse_all_ewf2_def analyse_all_ewf2_with_progress_def
        cross_segment_issues_def c Let_def)
  note seg = analyse_segments2 [OF st ne]
  show ?thesis unfolding iss using seg by (simp add: filter_no_verdict mismatch_verdict stored_verdict)
qed

section \<open>Progress of the v1 analysis\<close>

text \<open>
  The snapshots so far ascend in both counts and stay below what is done, and what is done stays
  below the size of the image.
\<close>

definition progress_upto :: "nat \<Rightarrow> hash_state \<Rightarrow> bool" where
  "progress_upto t st \<longleftrightarrow>
    hs_remaining st \<le> t \<and>
    sorted_wrt (\<lambda>a b. ap_chunks_done a \<le> ap_chunks_done b \<and> ap_bytes_done a \<le> ap_bytes_done b) (hs_progress st) \<and>
    (\<forall>e \<in> set (hs_progress st). ap_chunks_done e \<le> hs_chunk_idx st \<and> ap_bytes_done e \<le> t - hs_remaining st) \<and>
    hs_chunk_idx st \<le> u64_max"

lemma hash_chunk_progress: "progress_upto t st \<Longrightarrow> progress_upto t (hash_chunk X cs t raw c st)"
proof -
  assume p: "progress_upto t st"
  let ?r = "hs_remaining st - min (hs_remaining st) cs"
  have idx: "hs_chunk_idx st \<le> sat_add (hs_chunk_idx st) 1" using p le_sat_add by (simp add: progress_upto_def)
  have le: "t - hs_remaining st \<le> t - ?r" by simp
  have old: "ap_chunks_done e \<le> sat_add (hs_chunk_idx st) 1 \<and> ap_bytes_done e \<le> t - ?r"
    if "e \<in> set (hs_progress st)" for e
    using p that idx le order_trans unfolding progress_upto_def by blast
  show ?thesis
    using p old by (auto simp: hash_chunk_def progress_upto_def Let_def sorted_wrt_append sat_add_bound
        split: option.split)
qed

lemma hash_chunks_progress:
  "hash_chunks X cs t data chunks st = Ok (st', stop) \<Longrightarrow> progress_upto t st \<Longrightarrow> progress_upto t st'"
proof (induction chunks arbitrary: st)
  case (Cons ch chunks)
  then show ?case by (cases ch) (auto simp: hash_chunk_progress split: if_splits)
qed simp

lemma hash_segments_progress:
  "hash_segments X cs t segs st = Ok st' \<Longrightarrow> progress_upto t st \<Longrightarrow> progress_upto t st'"
proof (induction segs arbitrary: st)
  case (Cons seg segs)
  then show ?case by (cases seg) (auto split: if_splits dest: hash_chunks_progress)
qed simp

lemma analyse_returns:
  assumes "list_all (\<lambda>d. length d \<le> u64_max) (in_segments s)"
  obtains iss evs where "analyse_with_progress X s = Ok (iss, evs)" and "analyse X s = Ok iss"
proof -
  have "returns (analyse_with_progress X s)"
    using analyse_all_ewf2_returns [OF assms] analyse_all_ewf1_returns by (simp add: analyse_with_progress_def)
  then show ?thesis using that by (auto simp: returns_def analyse_drops_progress)
qed

section \<open>Properties\<close>

text \<open>C23: the analysis of any segments returns a list of anomalies: no input makes it fail, panic or run
  forever, and the variant with a progress callback reports the same anomalies.
\<close>

theorem analysis_always_returns:
  assumes "list_all (\<lambda>d. length d \<le> u64_max) (in_segments s)"
  shows "\<exists>iss evs. analyse_with_progress X s = Ok (iss, evs) \<and> analyse X s = Ok iss"
  using analyse_returns [OF assms] by metis

theorem analysis_always_returns_witness:
  "\<exists>iss evs. analyse_with_progress ref_externals (from_segments [replicate 200 255, [], EVF_SIGNATURE]) = Ok (iss, evs)
    \<and> analyse ref_externals (from_segments [replicate 200 255, [], EVF_SIGNATURE]) = Ok iss"
  by (rule analysis_always_returns) (simp add: from_segments_def EVF_SIGNATURE_def u64_max_def)

text \<open>The section walk of the analysis returns on any bytes, with sections at strictly ascending
  offsets behind the file header, each with its whole descriptor inside the segment.
\<close>

theorem analysis_sections_inside:
  "\<exists>ss iss. walk_sections_v1 X data = Ok (ss, iss) \<and> sections_in data ss"
  by (rule walk_sections_v1_in)



text \<open>C26: the progress snapshots of a v1 analysis never go back, in chunks or in bytes, and never exceed
  the size of the image.
\<close>

theorem progress_monotone_v1:
  assumes "analyse_all_ewf1_with_progress X s = Ok (iss, evs)"
  shows "sorted_wrt (\<lambda>a b. ap_chunks_done a \<le> ap_chunks_done b \<and> ap_bytes_done a \<le> ap_bytes_done b) evs
    \<and> (\<forall>e \<in> set evs. \<exists>first rest geom. in_segments s = first # rest \<and> geometry_of X first = Some geom
         \<and> ap_bytes_done e \<le> geometry_total_bytes geom)"
proof -
  define n where "n = length (in_segments s)"
  obtain st where st: "fold_run (analyse_segment_ewf1 X n) (zip [0..<n] (in_segments s)) ewf1_init = Ok st"
    and rest: "(case e1_geometry st of None \<Rightarrow> Ok (e1_issues st, [])
      | Some geom \<Rightarrow> map_ok (\<lambda>(iss, evs). (e1_issues st @ chunk_total_issues n st @ iss, evs))
          (check_hash_all_segments X s (e1_all_sections st) geom)) = Ok (iss, evs)"
    using assms unfolding analyse_all_ewf1_with_progress_def Let_def n_def [symmetric] by auto
  show ?thesis
  proof (cases "e1_geometry st")
    case (Some geom)
    let ?t = "geometry_total_bytes geom"
    obtain hst where hst: "hash_segments X (geometry_chunk_size geom) ?t (zip (in_segments s) (e1_all_sections st))
        \<lparr>hs_fed = [], hs_remaining = ?t, hs_chunk_idx = 0, hs_issues = [], hs_progress = []\<rparr> = Ok hst"
      and evs: "evs = hs_progress hst"
      using rest Some by (auto simp: check_hash_all_segments_def Let_def split: if_splits)
    have "progress_upto ?t hst"
      by (rule hash_segments_progress [OF hst]) (simp add: progress_upto_def)
    then have prog: "sorted_wrt (\<lambda>a b. ap_chunks_done a \<le> ap_chunks_done b \<and> ap_bytes_done a \<le> ap_bytes_done b) evs"
      "\<forall>e \<in> set evs. ap_bytes_done e \<le> ?t" by (auto simp: progress_upto_def evs)
    obtain first more where segs: "in_segments s = first # more"
      using st Some by (cases "in_segments s") (auto simp: n_def ewf1_init_def)
    then have "geometry_of X first = Some geom" using analyse_segments(2) [OF st [unfolded n_def] segs] Some by simp
    then show ?thesis using prog segs by blast
  qed (use rest in simp)
qed

section \<open>Analysed images\<close>

text \<open>The sample image, with an expected MD5 that it does not have.\<close>

definition sample_case :: EwfIntegrity where
  "sample_case = with_expected_md5 (replicate 16 0) (integrity_new sample_image)"

lemma sample_raw:
  "index_range sample_image 13 89 = Ok (slice 13 89 sample_image)"
  "index_range sample_image 183 259 = Ok (slice 183 259 sample_image)"
  "index_range sample_image 267 343 = Ok (slice 267 343 sample_image)"
  by (simp_all add: index_range_def get_range_def slice_def length_sample)

lemma sample_parsed:
  "descriptor_parse ref_externals (slice 13 89 sample_image) 13 = Ok (sample_descriptors ! 0)"
  "descriptor_parse ref_externals (slice 183 259 sample_image) 183 = Ok (sample_descriptors ! 1)"
  "descriptor_parse ref_externals (slice 267 343 sample_image) 267 = Ok (sample_descriptors ! 2)"
  by code_simp+

lemma sample_step:
  assumes "(index_range sample_image pos (pos + 76) :: bytes run) = Ok raw" and "descriptor_parse ref_externals raw pos = Ok d"
    and "pos + 76 \<le> 375"
  shows "\<exists>iss'. walk_sections_v1_from ref_externals sample_image pos ss iss =
    (let ss' = ss @ [\<lparr>se_type_name = sd_type d, se_offset = pos, se_size = unat (sd_size d)\<rparr>]
     in if sd_type d = lit ''done'' \<or> sd_type d = lit ''next'' \<or> unat (sd_next d) = 0 \<or> 375 < unat (sd_next d)
           \<or> unat (sd_next d) \<le> pos then Ok (ss', iss')
        else walk_sections_v1_from ref_externals sample_image (unat (sd_next d)) ss' iss')"
proof -
  have end_pos: "sat_add pos SECTION_DESCRIPTOR_SIZE = pos + 76" using assms(3) by (simp add: sat_add_def u64_max_def)
  have here: "\<not> 375 < pos + 76" using assms(3) by simp
  show ?thesis
    unfolding walk_sections_v1_from.simps [of ref_externals sample_image pos ss iss] end_pos length_sample Let_def
    by (simp only: here assms(1,2) result.case if_False) auto
qed

lemma sample_sections_of: "sections_of ref_externals sample_image =
    [\<lparr>se_type_name = lit ''volume'', se_offset = 13, se_size = 170\<rparr>,
     \<lparr>se_type_name = lit ''sectors'', se_offset = 183, se_size = 84\<rparr>,
     \<lparr>se_type_name = lit ''table'', se_offset = 267, se_size = 108\<rparr>]"
proof -
  have lits: "lit ''volume'' \<noteq> lit ''done''" "lit ''volume'' \<noteq> lit ''next''" "lit ''sectors'' \<noteq> lit ''done''"
    "lit ''sectors'' \<noteq> lit ''next''" "lit ''table'' \<noteq> lit ''done''" "lit ''table'' \<noteq> lit ''next''"
    by (simp_all add: lit_def)
  obtain i1 where 1: "walk_sections_v1_from ref_externals sample_image 13 [] [] =
      walk_sections_v1_from ref_externals sample_image 183 [\<lparr>se_type_name = lit ''volume'', se_offset = 13, se_size = 170\<rparr>] i1"
    using sample_step [where pos = 13 and ss = "[]" and iss = "[]", OF _ sample_parsed(1)] sample_raw lits
    by (auto simp: sample_descriptors_def Let_def simp del: lit_Cons)
  obtain i2 where 2: "walk_sections_v1_from ref_externals sample_image 183
      [\<lparr>se_type_name = lit ''volume'', se_offset = 13, se_size = 170\<rparr>] i1 =
      walk_sections_v1_from ref_externals sample_image 267 [\<lparr>se_type_name = lit ''volume'', se_offset = 13, se_size = 170\<rparr>,
        \<lparr>se_type_name = lit ''sectors'', se_offset = 183, se_size = 84\<rparr>] i2"
    using sample_step [where pos = 183 and iss = i1
        and ss = "[\<lparr>se_type_name = lit ''volume'', se_offset = 13, se_size = 170\<rparr>]", OF _ sample_parsed(2)] sample_raw lits
    by (auto simp: sample_descriptors_def Let_def simp del: lit_Cons)
  show ?thesis
    using sample_step [where pos = 267 and iss = i2
        and ss = "[\<lparr>se_type_name = lit ''volume'', se_offset = 13, se_size = 170\<rparr>,
          \<lparr>se_type_name = lit ''sectors'', se_offset = 183, se_size = 84\<rparr>]", OF _ sample_parsed(3)] sample_raw lits 1 2
    by (auto simp: sections_of_def walk_sections_v1_def sample_descriptors_def Let_def simp del: lit_Cons)
qed

lemma sample_check_volume: "map_ok fst (check_volume_v1 ref_externals sample_image 13 170) =
    Ok (Some \<lparr>vg_chunk_count = 2, vg_sectors_per_chunk = 1, vg_bytes_per_sector = 4, vg_sector_count = 2,
      vg_set_identifier = replicate 16 0\<rparr>)"
  by code_simp

lemma sample_iter: "iter_segment_chunks ref_externals sample_image (sections_of ref_externals sample_image) =
    Ok [(259, 263, False), (263, 267, False)]"
  unfolding sample_sections_of by code_simp

lemma sample_chunk_slices:
  "slice 259 263 sample_image = [10, 11, 12, 13]" "slice 263 267 sample_image = [14, 15, 16, 17]"
  by code_simp+

lemma sample_geometry: "geometry_of ref_externals sample_image =
    Some \<lparr>vg_chunk_count = 2, vg_sectors_per_chunk = 1, vg_bytes_per_sector = 4, vg_sector_count = 2,
      vg_set_identifier = replicate 16 0\<rparr>"
  using sample_check_volume by (auto simp: geometry_of_def sample_sections_of find_volume_def lit_def)

lemma compute_hashes_ewf1_intro:
  assumes "13 \<le> length first" and "signature_issues_v1 first = []" and "geometry_of X first = Some geom"
    and "feed_segments1 X (geometry_chunk_size geom) (zip (first # rest) (map (sections_of X) (first # rest)))
           ([], geometry_total_bytes geom) = Ok (fed, left)"
  shows "compute_hashes_ewf1 X (first # rest) = Ok (Some (hashes_of X fed))"
proof -
  obtain ss iss where w: "walk_sections_v1 X first = Ok (ss, iss)" using walk_sections_v1_in [of X first] by auto
  have ss: "sections_of X first = ss" by (simp add: sections_of_def w)
  have all: "collect (map (\<lambda>seg. map_ok fst (walk_sections_v1 X seg)) (first # rest)) =
      Ok (map (sections_of X) (first # rest))"
    by (intro collect_all_Ok walk_sections_of)
  obtain v where v: "find_volume ss = Some v" "(case check_volume_v1 X first (se_offset v) (se_size v) of
      Ok (g, _) \<Rightarrow> g | _ \<Rightarrow> None) = Some geom"
    using assms(3) by (auto simp: geometry_of_def ss split: option.splits)
  then obtain iss2 where c: "check_volume_v1 X first (se_offset v) (se_size v) = Ok (Some geom, iss2)"
    by (auto split: result.splits)
  show ?thesis
    unfolding compute_hashes_ewf1_def list.case all and_then.simps(1) assms(4)
    using assms(1,2) by (simp add: w v c assms(4) del: feed_segments1.simps list.map zip_Cons_Cons)
qed

lemma sample_hashes: "compute_hashes ref_externals sample_case =
    Ok (Some (hashes_of ref_externals [10, 11, 12, 13, 14, 15, 16, 17]))"
proof -
  have sig: "take 8 sample_image = EVF_SIGNATURE" by (simp add: sample_image_def EVF_SIGNATURE_def)
  then have old: "\<not> is_ewf2 [sample_image]" by (simp add: is_ewf2_def EVF_SIGNATURE_def IN_EVF2_SIGNATURE_def IN_LEF2_SIGNATURE_def)
  have feed: "feed_segments1 ref_externals 4 [(sample_image, sections_of ref_externals sample_image)] ([], 8) =
      Ok ([10, 11, 12, 13, 14, 15, 16, 17], 0)"
    by (simp add: sample_iter length_sample index_range_in sample_chunk_slices)
  let ?g = "\<lparr>vg_chunk_count = 2, vg_sectors_per_chunk = 1, vg_bytes_per_sector = 4, vg_sector_count = 2,
      vg_set_identifier = replicate 16 0\<rparr> :: VolumeGeometry"
  have size: "geometry_chunk_size ?g = 4" "geometry_total_bytes ?g = 8"
    by (simp_all add: geometry_chunk_size_def geometry_total_bytes_def sat_mul_def u64_max_def)
  have "compute_hashes_ewf1 ref_externals [sample_image] =
      Ok (Some (hashes_of ref_externals [10, 11, 12, 13, 14, 15, 16, 17]))"
  proof (rule compute_hashes_ewf1_intro [OF _ _ sample_geometry])
    show "feed_segments1 ref_externals (geometry_chunk_size ?g)
        (zip [sample_image] (map (sections_of ref_externals) [sample_image])) ([], geometry_total_bytes ?g) =
      Ok ([10, 11, 12, 13, 14, 15, 16, 17], 0)"
      unfolding size using feed by simp
  qed (simp_all add: length_sample signature_issues_v1_def sig)
  then show ?thesis
    using old by (simp add: compute_hashes_def sample_case_def with_expected_md5_def integrity_new_def)
qed


theorem progress_monotone_v1_witness:
  "\<exists>iss evs. analyse_all_ewf1_with_progress ref_externals sample_case = Ok (iss, evs) \<and>
    sorted_wrt (\<lambda>a b. ap_chunks_done a \<le> ap_chunks_done b \<and> ap_bytes_done a \<le> ap_bytes_done b) evs"
proof -
  obtain iss evs where r: "analyse_all_ewf1_with_progress ref_externals sample_case = Ok (iss, evs)"
    using analyse_all_ewf1_returns [of ref_externals sample_case] by (auto simp: returns_def)
  show ?thesis using progress_monotone_v1 [OF r] r by blast
qed

text \<open>A v2 segment: file header, one chunk with its checksum, the chunk table and its descriptor.\<close>

definition sample_v2 :: bytes where
  "sample_v2 = IN_EVF2_SIGNATURE @ [2, 1, 1, 0, 1, 0, 0, 0] @ replicate 16 0
    @ [7, 8, 9, 10, 0, 0, 0, 0]
    @ replicate 8 0 @ [1, 0, 0, 0, 0, 0, 0, 0] @ replicate 16 0 @ [32, 0, 0, 0, 0, 0, 0, 0, 8, 0, 0, 0, 0, 0, 0, 0]
    @ [4, 0, 0, 0, 0, 0, 0, 0] @ replicate 8 0 @ [48, 0, 0, 0, 0, 0, 0, 0] @ replicate 40 0"

definition sample_case2 :: EwfIntegrity where
  "sample_case2 = with_expected_sha1 (replicate 20 1) (integrity_new sample_v2)"

lemma sample_v2_facts:
  "is_ewf2 [sample_v2]" "length sample_v2 = 152"
  "compute_hashes_ewf2 ref_externals [sample_v2] = Ok (Some (hashes_of ref_externals [7, 8, 9, 10]))"
  "s2_md5 (stored2 ref_externals sample_v2) = None \<and> s2_sha1 (stored2 ref_externals sample_v2) = None
    \<and> s2_sha256 (stored2 ref_externals sample_v2) = None"
  by code_simp+


end
