(* ===== verification/Recover.thy ===== *)
theory Recover
  imports Logical_Tree
begin

text \<open>
  Tolerant recovery, \<open>forensic/src/recover.rs\<close>: the tolerant section walk, the geometry, the
  primary and the redundant table, the decoding of a chunk from either, and the loop that
  writes the recovered image and its account. A mapped segment is its bytes. The output is
  the byte string written; creating the file and writing it to the device are arguments, each
  with its outcome.
\<close>

type_synonym 'a io_result = "(io_error, 'a) result"

record RecoveryReport =
  rr_image_size :: nat
  rr_chunk_size :: nat
  rr_chunks_total :: nat
  rr_chunks_recovered_primary :: nat
  rr_chunks_recovered_table2 :: nat
  rr_chunks_zero_filled :: nat
  rr_chunks_crc_flagged :: nat
  rr_bytes_recovered :: nat
  rr_bytes_zero_filled :: nat
  rr_truncation_offset :: "nat option"
  rr_lost_chunks :: "nat list"
  rr_crc_flagged_chunks :: "nat list"

section \<open>Sections\<close>

record Section =
  sec_type_name :: rstr
  sec_offset :: nat
  sec_size :: nat

function walk_sections_from ::
  "externals \<Rightarrow> bytes \<Rightarrow> nat \<Rightarrow> Section list \<Rightarrow> Section list \<times> nat option" where
  "walk_sections_from X data pos sections =
    (if length data < sat_add pos SECTION_DESCRIPTOR_SIZE
     then (sections, if pos < length data then Some pos else None)
     else
       case descriptor_parse X (slice pos (sat_add pos SECTION_DESCRIPTOR_SIZE) data) pos of
         Ok desc \<Rightarrow>
           (let nxt = unat (sd_next desc);
                sections' = sections @ [\<lparr>sec_type_name = sd_type desc, sec_offset = pos,
                                         sec_size = unat (sd_size desc)\<rparr>]
            in if sd_type desc = lit ''done'' \<or> sd_type desc = lit ''next'' then (sections', None)
               else if nxt = 0 \<or> nxt \<le> pos then (sections', None)
               else if length data < nxt then (sections', Some nxt)
               else walk_sections_from X data nxt sections')
       | _ \<Rightarrow> (sections, Some pos))"
  by pat_completeness auto
termination
  by (relation "measure (\<lambda>(X, data, pos, s). length data - pos)") auto

declare walk_sections_from.simps [simp del]

definition walk_sections :: "externals \<Rightarrow> bytes \<Rightarrow> Section list \<times> nat option" where
  "walk_sections X data = walk_sections_from X data FILE_HEADER_SIZE []"

section \<open>Geometry\<close>

record Geometry =
  g_chunk_count :: u32
  g_sectors_per_chunk :: u32
  g_bytes_per_sector :: u32
  g_sector_count :: u64

definition read_geometry :: "externals \<Rightarrow> bytes \<Rightarrow> Section list \<Rightarrow> Geometry option" where
  "read_geometry X data sections =
    Option.bind (find (\<lambda>s. sec_type_name s = lit ''volume'' \<or> sec_type_name s = lit ''disk'') sections) (\<lambda>vol.
      let data_start = sat_add (sec_offset vol) SECTION_DESCRIPTOR_SIZE;
          body_len = sat_sub (sec_size vol) SECTION_DESCRIPTOR_SIZE;
          vol_end = min (sat_add data_start body_len) (length data)
      in Option.bind (get_range data data_start vol_end) (\<lambda>body.
         Option.bind (ok (volume_parse X body)) (\<lambda>parsed.
           if vol_sectors_per_chunk parsed = 0 \<or> vol_bytes_per_sector parsed = 0 then None
           else Some \<lparr>g_chunk_count = vol_chunk_count parsed,
                      g_sectors_per_chunk = vol_sectors_per_chunk parsed,
                      g_bytes_per_sector = vol_bytes_per_sector parsed,
                      g_sector_count = vol_sector_count parsed\<rparr>)))"

section \<open>Tables\<close>

record TableRef =
  tb_entry_count :: nat
  tb_base_offset :: nat
  tb_entries_file_offset :: nat

definition table_ref :: "externals \<Rightarrow> bytes \<Rightarrow> Section list \<Rightarrow> rstr \<Rightarrow> TableRef option" where
  "table_ref X data sections name =
    Option.bind (find (\<lambda>s. sec_type_name s = name) sections) (\<lambda>sec.
      let hdr_start = sat_add (sec_offset sec) SECTION_DESCRIPTOR_SIZE
      in Option.bind (get_range data hdr_start (sat_add hdr_start TABLE_HEADER_SIZE)) (\<lambda>hdr.
         Option.bind (ok (table_header_parse X hdr)) (\<lambda>header.
           Some \<lparr>tb_entry_count = unat (th_entry_count header),
                 tb_base_offset = unat (th_base_offset header),
                 tb_entries_file_offset = sat_add hdr_start TABLE_HEADER_SIZE\<rparr>)))"

definition sectors_data_end :: "Section list \<Rightarrow> nat \<Rightarrow> nat option" where
  "sectors_data_end sections data_len =
    map_option (\<lambda>sec. min (sat_add (sec_offset sec) (sec_size sec)) data_len)
      (find (\<lambda>s. sec_type_name s = lit ''sectors'') sections)"

definition entry_at :: "externals \<Rightarrow> bytes \<Rightarrow> TableRef \<Rightarrow> nat \<Rightarrow> (bool \<times> nat) option" where
  "entry_at X data t i =
    (let off = sat_add (tb_entries_file_offset t) (sat_mul i 4)
     in Option.bind (get_range data off (sat_add off 4)) (\<lambda>bs.
        Option.bind (ok (table_entry_parse X bs)) (\<lambda>e.
          Some (te_compressed e, sat_add (tb_base_offset t) (unat (te_chunk_offset e))))))"

definition chunk_range ::
  "externals \<Rightarrow> bytes \<Rightarrow> TableRef \<Rightarrow> nat \<Rightarrow> nat option \<Rightarrow> (nat \<times> nat \<times> bool) option" where
  "chunk_range X data t i sectors_end =
    Option.bind (entry_at X data t i) (\<lambda>(compressed, start).
    Option.bind (if sat_add i 1 < tb_entry_count t
                 then map_option snd (entry_at X data t (sat_add i 1))
                 else Some (unwrap_or (length data) sectors_end)) (\<lambda>en.
      if en \<le> start \<or> length data < en then None else Some (start, en, compressed)))"

section \<open>Decoding\<close>

definition RECOVER_MAX_CHUNK_SIZE :: nat where
  "RECOVER_MAX_CHUNK_SIZE = 64 * 1024 * 1024"

definition decode_chunk :: "externals \<Rightarrow> bytes \<Rightarrow> bool \<Rightarrow> nat \<Rightarrow> (bytes \<times> bool) option" where
  "decode_chunk X raw compressed chunk_size =
    (if compressed then
       Option.bind (x_zlib_read_to_end X raw (Some (sat_add chunk_size 1))) (\<lambda>out.
         if out = [] then None else Some (take chunk_size out, True))
     else
       let has_trailing_crc = sat_add chunk_size 4 \<le> length raw;
           crc_ok = (if has_trailing_crc
                     then adler32 X (take chunk_size raw)
                            = u32_from_le (slice chunk_size (chunk_size + 4) raw)
                     else True)
       in Some (take (min (length raw) chunk_size) raw, crc_ok))"

fun locate_from :: "nat \<Rightarrow> nat \<Rightarrow> nat list \<Rightarrow> nat \<Rightarrow> (nat \<times> nat) option" where
  "locate_from seg_idx running [] idx = None"
| "locate_from seg_idx running (count # counts) idx =
    (if idx < sat_add running count then Some (seg_idx, sat_sub idx running)
     else locate_from (seg_idx + 1) (sat_add running count) counts idx)"

definition locate_chunk :: "nat list \<Rightarrow> nat \<Rightarrow> (nat \<times> nat) option" where
  "locate_chunk seg_entry_counts idx = locate_from 0 0 seg_entry_counts idx"

text \<open>What one segment contributes: its bytes, its two tables and the end of its sectors.\<close>

record seg_tables =
  st_data :: bytes
  st_primary :: "TableRef option"
  st_fallback :: "TableRef option"
  st_sec_end :: "nat option"

definition seg_tables_of :: "externals \<Rightarrow> bytes \<times> Section list \<Rightarrow> seg_tables" where
  "seg_tables_of X ds = (let (seg, sections) = ds in
    \<lparr>st_data = seg,
     st_primary = table_ref X seg sections (lit ''table''),
     st_fallback = table_ref X seg sections (lit ''table2''),
     st_sec_end = sectors_data_end sections (length seg)\<rparr>)"

definition seg_entry_count :: "seg_tables \<Rightarrow> nat" where
  "seg_entry_count s =
    (case st_primary s of
       Some t \<Rightarrow> tb_entry_count t
     | None \<Rightarrow> (case st_fallback s of Some t \<Rightarrow> tb_entry_count t | None \<Rightarrow> 0))"

definition decode_from ::
  "externals \<Rightarrow> nat \<Rightarrow> seg_tables \<Rightarrow> TableRef option \<Rightarrow> nat \<Rightarrow> (bytes \<times> bool) option" where
  "decode_from X chunk_size s table local =
    Option.bind table (\<lambda>t.
    Option.bind (chunk_range X (st_data s) t local (st_sec_end s)) (\<lambda>(a, b, c).
      decode_chunk X (slice a b (st_data s)) c chunk_size))"

text \<open>The bytes kept for a chunk, whether they came from \<open>table2\<close>, and whether the checksum held.\<close>

definition decode_best ::
  "externals \<Rightarrow> nat \<Rightarrow> seg_tables list \<Rightarrow> nat \<Rightarrow> (bytes \<times> bool \<times> bool) option" where
  "decode_best X chunk_size segs idx =
    (case locate_chunk (map seg_entry_count segs) idx of
       None \<Rightarrow> None
     | Some (seg_idx, local) \<Rightarrow>
         let s = segs ! seg_idx
         in (case decode_from X chunk_size s (st_primary s) local of
               Some (bs, True) \<Rightarrow> Some (bs, False, True)
             | other \<Rightarrow>
                 (case (other, decode_from X chunk_size s (st_fallback s) local) of
                    (_, Some (bs, True)) \<Rightarrow> Some (bs, True, True)
                  | (Some (bs, _), _) \<Rightarrow> Some (bs, False, False)
                  | (None, Some (bs, False)) \<Rightarrow> Some (bs, True, False)
                  | (None, None) \<Rightarrow> None)))"

section \<open>The recovery loop\<close>

text \<open>The bytes that \<open>write_zeros\<close> puts out, in blocks.\<close>

function write_zeros :: "nat \<Rightarrow> bytes" where
  "write_zeros left =
    (if left = 0 then [] else replicate (min left 8192) 0 @ write_zeros (sat_sub left (min left 8192)))"
  by pat_completeness auto
termination
  by (relation "measure id") auto

declare write_zeros.simps [simp del]

record recover_state =
  rc_out :: bytes
  rc_primary :: nat
  rc_table2 :: nat
  rc_zero_filled :: nat
  rc_crc_flagged :: nat
  rc_bytes_recovered :: nat
  rc_bytes_zero_filled :: nat
  rc_lost :: "nat list"
  rc_crc_list :: "nat list"
  rc_remaining :: nat

definition recover_init :: "nat \<Rightarrow> recover_state" where
  "recover_init image_size = \<lparr>rc_out = [], rc_primary = 0, rc_table2 = 0, rc_zero_filled = 0,
     rc_crc_flagged = 0, rc_bytes_recovered = 0, rc_bytes_zero_filled = 0, rc_lost = [],
     rc_crc_list = [], rc_remaining = image_size\<rparr>"

text \<open>The body of the loop for one chunk that still backs \<open>min remaining chunk_size\<close> bytes.\<close>

definition recover_step ::
  "nat \<Rightarrow> (nat \<Rightarrow> (bytes \<times> bool \<times> bool) option) \<Rightarrow> nat \<Rightarrow> recover_state \<Rightarrow> recover_state" where
  "recover_step chunk_size decoded idx st =
    (let logical = min (rc_remaining st) chunk_size
     in (case decoded idx of
           Some (bs, via_table2, crc_ok) \<Rightarrow>
             st\<lparr>rc_out := rc_out st @ (if logical < length bs then take logical bs
                                       else if length bs < logical
                                       then bs @ replicate (logical - length bs) 0 else bs),
                rc_bytes_recovered := sat_add (rc_bytes_recovered st) logical,
                rc_table2 := (if via_table2 then sat_add (rc_table2 st) 1 else rc_table2 st),
                rc_primary := (if via_table2 then rc_primary st else sat_add (rc_primary st) 1),
                rc_crc_flagged := (if crc_ok then rc_crc_flagged st else sat_add (rc_crc_flagged st) 1),
                rc_crc_list := (if crc_ok then rc_crc_list st else rc_crc_list st @ [idx]),
                rc_remaining := sat_sub (rc_remaining st) logical\<rparr>
         | None \<Rightarrow>
             st\<lparr>rc_out := rc_out st @ write_zeros logical,
                rc_zero_filled := sat_add (rc_zero_filled st) 1,
                rc_bytes_zero_filled := sat_add (rc_bytes_zero_filled st) logical,
                rc_lost := rc_lost st @ [idx],
                rc_remaining := sat_sub (rc_remaining st) logical\<rparr>))"

fun recover_loop ::
  "nat \<Rightarrow> (nat \<Rightarrow> (bytes \<times> bool \<times> bool) option) \<Rightarrow> nat list \<Rightarrow> recover_state \<Rightarrow> recover_state" where
  "recover_loop chunk_size decoded [] st = st"
| "recover_loop chunk_size decoded (idx # idxs) st =
    (if rc_remaining st = 0 then st
     else recover_loop chunk_size decoded idxs (recover_step chunk_size decoded idx st))"

text \<open>The rest of the image past the last chunk. The caller has excluded a chunk size of zero.\<close>

function recover_tail :: "nat \<Rightarrow> recover_state \<Rightarrow> recover_state" where
  "recover_tail chunk_size st =
    (if rc_remaining st = 0 \<or> chunk_size = 0 then st
     else
       let logical = min (rc_remaining st) chunk_size
       in recover_tail chunk_size
            (st\<lparr>rc_out := rc_out st @ write_zeros logical,
                rc_bytes_zero_filled := sat_add (rc_bytes_zero_filled st) logical,
                rc_remaining := sat_sub (rc_remaining st) logical\<rparr>))"
  by pat_completeness auto
termination
  by (relation "measure (\<lambda>(cs, st). rc_remaining st)") auto

declare recover_tail.simps [simp del]

section \<open>Recovery\<close>

definition first_truncation :: "(Section list \<times> nat option) list \<Rightarrow> nat option" where
  "first_truncation walks =
    fold (\<lambda>(s, t) acc. if acc = None then t else acc) walks None"

text \<open>
  The report and the bytes of the output file. \<open>create\<close> is the answer to \<open>File::create\<close>, and
  \<open>device out\<close> the answer of the operating system to the writes of \<open>out\<close> through the buffer and
  the final flush: the first write that fails ends the recovery with its error.
\<close>

definition recover_segments ::
  "externals \<Rightarrow> unit io_result \<Rightarrow> (bytes \<Rightarrow> unit io_result) \<Rightarrow> bytes list
    \<Rightarrow> (RecoveryReport \<times> bytes) io_result" where
  "recover_segments X create device segments =
    (let first = (case segments of [] \<Rightarrow> [] | s # _ \<Rightarrow> s)
     in if length first < FILE_HEADER_SIZE \<or> take 8 first \<noteq> EVF_SIGNATURE then Err InvalidData
        else
          let walks = map (walk_sections X) segments
          in case read_geometry X first (fst (walks ! 0)) of
               None \<Rightarrow> Err InvalidData
             | Some geom \<Rightarrow>
                 let chunk_size = sat_mul (unat (g_sectors_per_chunk geom)) (unat (g_bytes_per_sector geom))
                 in if chunk_size = 0 \<or> RECOVER_MAX_CHUNK_SIZE < chunk_size then Err InvalidData
                    else
                      let image_size = sat_mul (unat (g_sector_count geom)) (unat (g_bytes_per_sector geom));
                          total_chunks = unat (g_chunk_count geom);
                          segs = map (seg_tables_of X) (zip segments (map fst walks))
                      in and_then create (\<lambda>_.
                           let st = recover_tail chunk_size
                                      (recover_loop chunk_size (decode_best X chunk_size segs)
                                         [0..<total_chunks] (recover_init image_size))
                           in and_then (device (rc_out st)) (\<lambda>_. Ok (\<lparr>rr_image_size = image_size,
                                   rr_chunk_size = chunk_size,
                                   rr_chunks_total = total_chunks,
                                   rr_chunks_recovered_primary = rc_primary st,
                                   rr_chunks_recovered_table2 = rc_table2 st,
                                   rr_chunks_zero_filled = rc_zero_filled st,
                                   rr_chunks_crc_flagged = rc_crc_flagged st,
                                   rr_bytes_recovered = rc_bytes_recovered st,
                                   rr_bytes_zero_filled = rc_bytes_zero_filled st,
                                   rr_truncation_offset = first_truncation walks,
                                   rr_lost_chunks = rc_lost st,
                                   rr_crc_flagged_chunks = rc_crc_list st\<rparr>, rc_out st))))"

section \<open>Segment discovery\<close>

definition is_ascii_digit :: "nat \<Rightarrow> bool" where
  "is_ascii_digit c \<longleftrightarrow> 48 \<le> c \<and> c \<le> 57"

definition is_ascii_uppercase :: "nat \<Rightarrow> bool" where
  "is_ascii_uppercase c \<longleftrightarrow> 65 \<le> c \<and> c \<le> 90"

text \<open>\<open>{n:02}\<close> of a number.\<close>

definition pad2 :: "nat \<Rightarrow> rstr" where
  "pad2 n = (if n < 10 then 48 # show_radix 10 n else show_radix 10 n)"

definition with_extension :: "path \<Rightarrow> rstr \<Rightarrow> path" where
  "with_extension p e =
    (case file_stem p of
       None \<Rightarrow> p
     | Some stem \<Rightarrow> p\<lparr>p_file := Some (if e = [] then stem else stem @ 46 # e)\<rparr>)"

text \<open>
  The loop that probes \<open>E02\<close>, \<open>E03\<close>, and so on; \<open>fuel\<close> bounds the number of probes, as the
  directory bounds the number of files. A length of 3 bytes is a length of 3 characters for
  the ASCII extensions that pass the other tests.
\<close>

fun discover_from :: "nat \<Rightarrow> (path \<Rightarrow> bool) \<Rightarrow> path \<Rightarrow> bool \<Rightarrow> nat \<Rightarrow> path list option" where
  "discover_from 0 exists base upper n = None"
| "discover_from (Suc fuel) exists base upper n =
    (let candidate = with_extension base ((if upper then 69 else 101) # pad2 n)
     in if exists candidate
        then map_option (\<lambda>ps. candidate # ps)
               (discover_from fuel exists base upper (min (n + 1) (2 ^ 32 - 1)))
        else Some [])"

definition recover_discover_segments :: "nat \<Rightarrow> (path \<Rightarrow> bool) \<Rightarrow> path \<Rightarrow> path list option" where
  "recover_discover_segments fuel exists base =
    (case extension base of
       None \<Rightarrow> Some [base]
     | Some ext \<Rightarrow>
         let lower = map to_ascii_lowercase ext
         in if length lower \<noteq> 3 \<or> hd lower \<noteq> 101 \<or> \<not> list_all is_ascii_digit (tl lower)
            then Some [base]
            else map_option (\<lambda>ps. base # ps)
                   (discover_from fuel exists base (is_ascii_uppercase (hd ext)) 2))"

section \<open>Entry points\<close>

record EwfRecover =
  er_segment_paths :: "path list"

definition recover_from_path :: "nat \<Rightarrow> (path \<Rightarrow> bool) \<Rightarrow> path \<Rightarrow> EwfRecover option" where
  "recover_from_path fuel exists path =
    map_option (\<lambda>ps. \<lparr>er_segment_paths = ps\<rparr>) (recover_discover_segments fuel exists path)"

definition recover_from_paths :: "path list \<Rightarrow> EwfRecover" where
  "recover_from_paths paths = \<lparr>er_segment_paths = paths\<rparr>"

text \<open>\<open>FS\<close> opens and maps a segment file.\<close>

definition recover_to_raw ::
  "externals \<Rightarrow> (path \<Rightarrow> bytes io_result) \<Rightarrow> unit io_result \<Rightarrow> (bytes \<Rightarrow> unit io_result) \<Rightarrow> EwfRecover
    \<Rightarrow> (RecoveryReport \<times> bytes) io_result" where
  "recover_to_raw X FS create device r =
    (if er_segment_paths r = [] then Err InvalidInput
     else and_then (collect (map FS (er_segment_paths r))) (recover_segments X create device))"

end
