(* ===== verification/Integrity_Path.thy ===== *)
theory Integrity_Path
  imports Integrity_Correct Recover
begin

text \<open>
  The analyser over files, \<open>forensic/src/integrity_path.rs\<close>: the discovery of the segment files
  beside the first one, and the entry points that map every segment into memory and run the
  analyser of \<open>Integrity\<close> over the bytes. \<open>FS p\<close> is what opening and mapping the file \<open>p\<close>
  gives, \<open>exists p\<close> what \<open>Path::exists\<close> answers.
\<close>

section \<open>Segment names\<close>

text \<open>\<open>trim_start_matches(['x', 'X'])\<close> and the rest of the parser.\<close>

definition is_x :: "nat \<Rightarrow> bool" where
  "is_x c \<longleftrightarrow> c = 120 \<or> c = 88"

definition parse_ewf_extension :: "rstr \<Rightarrow> (nat \<times> bool \<times> nat) option" where
  "parse_ewf_extension ext =
    (case ext of
       [] \<Rightarrow> None
     | prefix # rest \<Rightarrow>
         if \<not> is_ascii_alphabetic prefix then None
         else
           let has_x = (case rest of [] \<Rightarrow> False | c # _ \<Rightarrow> is_x c);
               digits = dropWhile is_x rest
           in if list_all is_ascii_digit digits \<and> digits \<noteq> []
              then Some (prefix, has_x, length digits) else None)"

definition make_ewf_extension :: "nat \<Rightarrow> bool \<Rightarrow> nat \<Rightarrow> nat \<Rightarrow> rstr" where
  "make_ewf_extension prefix has_x digit_count n =
    (let width = max digit_count 2;
         x = (if has_x then lit ''x'' else [])
     in prefix # x @ pad_zero width (show_radix 10 n))"

definition segment_candidate :: "rstr \<Rightarrow> rstr \<Rightarrow> nat \<times> bool \<times> nat \<Rightarrow> nat \<Rightarrow> path" where
  "segment_candidate dir stem ext n =
    (case ext of (prefix, has_x, digits) \<Rightarrow>
       \<lparr>p_parent = Some dir, p_file = Some (stem @ 46 # make_ewf_extension prefix has_x digits n)\<rparr>)"

text \<open>The probing loop, \<open>for n in 1u32..\<close> with its two breaks.\<close>

function probe_segments :: "(path \<Rightarrow> bool) \<Rightarrow> (nat \<Rightarrow> path) \<Rightarrow> nat \<Rightarrow> path list" where
  "probe_segments exists candidate n =
    (if exists (candidate n)
     then candidate n # (if 999 \<le> n then [] else probe_segments exists candidate (n + 1))
     else [])"
  by pat_completeness auto
termination probe_segments
  by (relation "measure (\<lambda>(e, c, n). 999 - n)") auto

declare probe_segments.simps [simp del]

definition path_discover_segments :: "(path \<Rightarrow> bool) \<Rightarrow> path \<Rightarrow> path list" where
  "path_discover_segments exists base =
    (case extension base of
       None \<Rightarrow> [base]
     | Some ext \<Rightarrow>
         (case parse_ewf_extension ext of
            None \<Rightarrow> [base]
          | Some pe \<Rightarrow>
              (case file_stem base of
                 None \<Rightarrow> [base]
               | Some stem \<Rightarrow>
                   let dir = unwrap_or (lit ''.'') (p_parent base);
                       segments = probe_segments exists (segment_candidate dir stem pe) 1
                   in if segments = [] then [base] else segments)))"

section \<open>The analyser over files\<close>

record EwfIntegrityPath =
  ip_segment_paths :: "path list"
  ip_expected_md5 :: "bytes option"
  ip_expected_sha1 :: "bytes option"
  ip_expected_sha256 :: "bytes option"

definition from_paths :: "path list \<Rightarrow> EwfIntegrityPath" where
  "from_paths paths = \<lparr>ip_segment_paths = paths, ip_expected_md5 = None, ip_expected_sha1 = None,
     ip_expected_sha256 = None\<rparr>"

definition from_path :: "(path \<Rightarrow> bool) \<Rightarrow> path \<Rightarrow> EwfIntegrityPath" where
  "from_path exists base = \<lparr>ip_segment_paths = path_discover_segments exists base, ip_expected_md5 = None,
     ip_expected_sha1 = None, ip_expected_sha256 = None\<rparr>"

definition path_with_expected_md5 :: "bytes \<Rightarrow> EwfIntegrityPath \<Rightarrow> EwfIntegrityPath" where
  "path_with_expected_md5 h s = s\<lparr>ip_expected_md5 := Some h\<rparr>"

definition path_with_expected_sha1 :: "bytes \<Rightarrow> EwfIntegrityPath \<Rightarrow> EwfIntegrityPath" where
  "path_with_expected_sha1 h s = s\<lparr>ip_expected_sha1 := Some h\<rparr>"

definition path_with_expected_sha256 :: "bytes \<Rightarrow> EwfIntegrityPath \<Rightarrow> EwfIntegrityPath" where
  "path_with_expected_sha256 h s = s\<lparr>ip_expected_sha256 := Some h\<rparr>"

text \<open>A run of the analyser has no error of its own.\<close>

primrec lift_run :: "'a run \<Rightarrow> 'a io_result" where
  "lift_run (Ok x) = Ok x"
| "lift_run (Err u) = Panic"
| "lift_run Panic = Panic"

definition map_segments :: "(path \<Rightarrow> bytes io_result) \<Rightarrow> EwfIntegrityPath \<Rightarrow> bytes list io_result" where
  "map_segments FS s = collect (map FS (ip_segment_paths s))"

definition checker_of :: "EwfIntegrityPath \<Rightarrow> bytes list \<Rightarrow> EwfIntegrity" where
  "checker_of s seg_refs =
    (let c0 = from_segments seg_refs;
         c1 = (case ip_expected_md5 s of Some h \<Rightarrow> with_expected_md5 h c0 | None \<Rightarrow> c0);
         c2 = (case ip_expected_sha1 s of Some h \<Rightarrow> with_expected_sha1 h c1 | None \<Rightarrow> c1)
     in case ip_expected_sha256 s of Some h \<Rightarrow> with_expected_sha256 h c2 | None \<Rightarrow> c2)"

definition path_compute_hashes ::
  "externals \<Rightarrow> (path \<Rightarrow> bytes io_result) \<Rightarrow> EwfIntegrityPath \<Rightarrow> ComputedHashes option io_result" where
  "path_compute_hashes X FS s =
    and_then (map_segments FS s) (\<lambda>seg_refs. lift_run (compute_hashes X (from_segments seg_refs)))"

definition path_analyse ::
  "externals \<Rightarrow> (path \<Rightarrow> bytes io_result) \<Rightarrow> EwfIntegrityPath \<Rightarrow> EwfIntegrityAnomaly list io_result" where
  "path_analyse X FS s =
    and_then (map_segments FS s) (\<lambda>seg_refs. lift_run (analyse X (checker_of s seg_refs)))"

definition zero_hashes :: ComputedHashes where
  "zero_hashes = \<lparr>ch_md5 = replicate 16 0, ch_sha1 = replicate 20 0, ch_sha256 = replicate 32 0\<rparr>"

definition analyse_and_compute_hashes ::
  "externals \<Rightarrow> (path \<Rightarrow> bytes io_result) \<Rightarrow> EwfIntegrityPath
    \<Rightarrow> (EwfIntegrityAnomaly list \<times> ComputedHashes) io_result" where
  "analyse_and_compute_hashes X FS s =
    and_then (map_segments FS s) (\<lambda>seg_refs.
    and_then (lift_run (analyse X (checker_of s seg_refs))) (\<lambda>anomalies.
      map_ok (\<lambda>hashes. (anomalies, unwrap_or zero_hashes hashes))
        (lift_run (compute_hashes X (from_segments seg_refs)))))"

definition path_analyse_with_progress ::
  "externals \<Rightarrow> (path \<Rightarrow> bytes io_result) \<Rightarrow> EwfIntegrityPath
    \<Rightarrow> (EwfIntegrityAnomaly list \<times> AnalysisProgress list) io_result" where
  "path_analyse_with_progress X FS s =
    and_then (map_segments FS s) (\<lambda>seg_refs. lift_run (analyse_with_progress X (checker_of s seg_refs)))"

section \<open>Lemmas\<close>

text \<open>The probing stops at the first number that is missing, or at 999.\<close>

lemma probe_segments_run:
  assumes "n \<le> 999"
  shows "\<exists>k. n \<le> k \<and> k \<le> 1000 \<and> probe_segments exists candidate n = map candidate [n..<k]
    \<and> (\<forall>i \<in> {n..<k}. exists (candidate i)) \<and> (k \<le> 999 \<longrightarrow> \<not> exists (candidate k))"
  using assms
proof (induction "999 - n" arbitrary: n)
  case 0
  then have "n = 999" and "{999..<1000} = {999 :: nat}" by auto
  then show ?case
    by (intro exI [of _ "if exists (candidate 999) then 1000 else 999"])
      (simp add: probe_segments.simps [of exists candidate] upt_rec)
next
  case (Suc d)
  show ?case
  proof (cases "exists (candidate n)")
    case False
    then show ?thesis using Suc.prems
      by (intro exI [of _ n]) (simp add: probe_segments.simps [of exists candidate])
  next
    case True
    obtain k where k: "n + 1 \<le> k" "k \<le> 1000" "probe_segments exists candidate (n + 1) = map candidate [n + 1..<k]"
      "\<forall>i \<in> {n + 1..<k}. exists (candidate i)" "k \<le> 999 \<longrightarrow> \<not> exists (candidate k)"
      using Suc.hyps(1) [of "n + 1"] Suc.hyps(2) Suc.prems by (metis Suc_eq_plus1 diff_Suc_Suc less_or_eq_imp_le
          Suc_leI Suc_diff_Suc nat.inject zero_less_Suc zero_less_diff)
    have "\<forall>i \<in> {n..<k}. exists (candidate i)"
      using k(4) True by (metis Suc_eq_plus1 atLeastLessThan_iff le_neq_implies_less Suc_le_eq)
    moreover have "probe_segments exists candidate n = map candidate [n..<k]"
      using True Suc.hyps(2) k(1,3) by (simp add: probe_segments.simps [of exists candidate n] upt_rec [of n k])
    ultimately show ?thesis using k by (intro exI [of _ k]) auto
  qed
qed

text \<open>A number is read back from its padded decimal digits, so no two are written alike.\<close>

lemma digits_value_zeros: "2 \<le> b \<Longrightarrow> digits_value b 0 (replicate k 48 @ s) = digits_value b 0 s"
  by (induction k) (auto simp: to_digit_def)

lemma padded_value: "2 \<le> b \<Longrightarrow> b \<le> 16 \<Longrightarrow> digits_value b 0 (pad_zero w (show_radix b m)) = Some m"
  by (simp add: pad_zero_def digits_value_zeros digits_value_show)

lemma padded_inj: "pad_zero w (show_radix 10 m) = pad_zero w (show_radix 10 n) \<Longrightarrow> m = n"
  by (drule arg_cong [of _ _ "digits_value 10 0"]) (simp add: padded_value)

lemma candidate_inj: "inj (segment_candidate dir stem pe)"
  by (rule injI) (auto simp: segment_candidate_def make_ewf_extension_def Let_def split: prod.splits dest: padded_inj)

lemma feed_chunks1_returns: "ranges_in data chunks \<Longrightarrow> returns (feed_chunks1 X cs data chunks st)"
  by (induction chunks arbitrary: st) (auto simp: ranges_in_def returns_and_then Let_def)

lemma feed_segments1_returns: "returns (feed_segments1 X cs segs st)"
proof (induction segs arbitrary: st)
  case (Cons seg segs)
  obtain data ss where seg: "seg = (data, ss)" by (cases seg)
  obtain chunks where "iter_segment_chunks X data ss = Ok chunks" "ranges_in data chunks"
    using iter_segment_chunks_in by blast
  then show ?case using Cons feed_chunks1_returns by (auto simp: seg returns_and_then)
qed simp

lemma compute_hashes_returns:
  assumes "list_all (\<lambda>d. length d \<le> u64_max) (in_segments s)"
  shows "returns (compute_hashes X s)"
proof -
  have walks: "collect (map (\<lambda>seg. map_ok fst (walk_sections_v1 X seg)) segs) =
      Ok (map (\<lambda>seg. the (ok (map_ok fst (walk_sections_v1 X seg)))) segs)" for segs
    by (intro collect_all_Ok) (metis walk_sections_v1_in map_ok.simps(1) ok.simps(1) option.sel)
  have "returns (compute_hashes_ewf1 X segs)" for segs
    unfolding compute_hashes_ewf1_def walks
    by (auto simp: returns_and_then walk_sections_v1_returns check_volume_returns feed_segments1_returns
        split: list.split option.split)
  then show ?thesis using compute_hashes_ewf2_returns [OF assms] by (simp add: compute_hashes_def)
qed

lemma lift_run_returns: "returns (lift_run r) = returns r"
  by (cases r) auto

text \<open>Mapping the segments gives all of them, or the error of the first that cannot be opened.\<close>

lemma collect_first_error:
  "(\<And>p. p \<in> set ps \<Longrightarrow> FS p \<noteq> Panic) \<Longrightarrow>
    (\<exists>segs. map FS ps = map Ok segs \<and> collect (map FS ps) = Ok segs) \<or>
    (\<exists>k e. k < length ps \<and> FS (ps ! k) = Err e \<and> (\<forall>j < k. \<exists>c. FS (ps ! j) = Ok c) \<and> collect (map FS ps) = Err e)"
proof (induction ps)
  case (Cons p ps)
  show ?case
  proof (cases "FS p")
    case (Ok c)
    consider (all) segs where "map FS ps = map Ok segs" "collect (map FS ps) = Ok segs"
      | (bad) k e where "k < length ps" "FS (ps ! k) = Err e" "\<forall>j < k. \<exists>c. FS (ps ! j) = Ok c"
          "collect (map FS ps) = Err e"
      using Cons.IH Cons.prems by auto
    then show ?thesis
    proof cases
      case all
      then show ?thesis using Ok by (intro disjI1 exI [of _ "c # segs"]) simp
    next
      case bad
      then show ?thesis
        using Ok by (intro disjI2 exI [of _ "Suc k"] exI [of _ e]) (auto simp: nth_Cons' less_Suc_eq_0_disj)
    qed
  next
    case (Err e)
    then show ?thesis by (intro disjI2 exI [of _ 0] exI [of _ e]) simp
  qed (use Cons.prems in auto)
qed simp

text \<open>The entry points share the mapping of the segments.\<close>

lemma path_entry_points:
  assumes "\<And>p. FS p \<noteq> Panic" and "\<And>p c. FS p = Ok c \<Longrightarrow> length c \<le> u64_max"
  shows "(\<exists>segs iss evs hashes. map FS (ip_segment_paths s) = map Ok segs
      \<and> path_analyse X FS s = Ok iss \<and> path_analyse_with_progress X FS s = Ok (iss, evs)
      \<and> path_compute_hashes X FS s = Ok hashes
      \<and> analyse_and_compute_hashes X FS s = Ok (iss, unwrap_or zero_hashes hashes))
    \<or> (\<exists>k e. k < length (ip_segment_paths s) \<and> FS (ip_segment_paths s ! k) = Err e
      \<and> (\<forall>j < k. \<exists>c. FS (ip_segment_paths s ! j) = Ok c)
      \<and> path_analyse X FS s = Err e \<and> path_analyse_with_progress X FS s = Err e
      \<and> path_compute_hashes X FS s = Err e \<and> analyse_and_compute_hashes X FS s = Err e)"
proof -
  consider (all) segs where "map FS (ip_segment_paths s) = map Ok segs" "map_segments FS s = Ok segs"
    | (bad) k e where "k < length (ip_segment_paths s)" "FS (ip_segment_paths s ! k) = Err e"
        "\<forall>j < k. \<exists>c. FS (ip_segment_paths s ! j) = Ok c" "map_segments FS s = Err e"
    using collect_first_error [of "ip_segment_paths s" FS] assms(1) unfolding map_segments_def by blast
  then show ?thesis
  proof cases
    case all
    have small: "list_all (\<lambda>d. length d \<le> u64_max) segs"
      unfolding list_all_iff
    proof
      fix c
      assume "c \<in> set segs"
      then have "Ok c \<in> set (map FS (ip_segment_paths s))" unfolding all(1) by simp
      then obtain p where "FS p = Ok c" by auto
      then show "length c \<le> u64_max" by (rule assms(2))
    qed
    have "in_segments (checker_of s segs) = segs" "in_segments (from_segments segs) = segs"
      by (auto simp: checker_of_def from_segments_def with_expected_md5_def with_expected_sha1_def
          with_expected_sha256_def Let_def split: option.split)
    then obtain hashes where "compute_hashes X (from_segments segs) = Ok hashes"
      and same: "list_all (\<lambda>d. length d \<le> u64_max) (in_segments (checker_of s segs))"
      using compute_hashes_returns [of "from_segments segs" X] small by (auto simp: returns_def)
    moreover obtain iss evs where "analyse_with_progress X (checker_of s segs) = Ok (iss, evs)"
      "analyse X (checker_of s segs) = Ok iss" by (rule analyse_returns [OF same])
    ultimately show ?thesis
      using all by (intro disjI1 exI [of _ segs] exI [of _ iss] exI [of _ evs] exI [of _ hashes])
        (simp add: path_analyse_def path_analyse_with_progress_def path_compute_hashes_def
          analyse_and_compute_hashes_def)
  next
    case bad
    then show ?thesis
      by (intro disjI2 exI [of _ k] exI [of _ e])
        (simp add: path_analyse_def path_analyse_with_progress_def path_compute_hashes_def
          analyse_and_compute_hashes_def)
  qed
qed

section \<open>Properties\<close>


text \<open>A directory with two segments, \<open>img.E01\<close> and \<open>img.E02\<close>.\<close>

definition two_segments :: "path \<Rightarrow> bool" where
  "two_segments p \<longleftrightarrow> p_file p = Some (lit ''img.E01'') \<or> p_file p = Some (lit ''img.E02'')"


text \<open>C30: the four entry points over files agree on every file system: when all segments can be opened
  they return, with the same anomalies from the three analyses and the same hashes from the two that
  compute them (zeros where there are none); otherwise all four return the error of the first
  segment that cannot be opened.
\<close>

theorem path_analyses_agree:
  assumes "\<And>p. FS p \<noteq> Panic" and "\<And>p c. FS p = Ok c \<Longrightarrow> length c \<le> u64_max"
  shows "(\<exists>segs iss evs hashes. map FS (ip_segment_paths s) = map Ok segs
      \<and> path_analyse X FS s = Ok iss \<and> path_analyse_with_progress X FS s = Ok (iss, evs)
      \<and> path_compute_hashes X FS s = Ok hashes
      \<and> analyse_and_compute_hashes X FS s = Ok (iss, unwrap_or zero_hashes hashes))
    \<or> (\<exists>k e. k < length (ip_segment_paths s) \<and> FS (ip_segment_paths s ! k) = Err e
      \<and> (\<forall>j < k. \<exists>c. FS (ip_segment_paths s ! j) = Ok c)
      \<and> path_analyse X FS s = Err e \<and> path_analyse_with_progress X FS s = Err e
      \<and> path_compute_hashes X FS s = Err e \<and> analyse_and_compute_hashes X FS s = Err e)"
  by (rule path_entry_points [OF assms])

text \<open>A file system in which the second segment cannot be opened.\<close>

definition one_readable :: "path \<Rightarrow> bytes io_result" where
  "one_readable p = (if p_file p = Some (lit ''img.E01'') then Ok EVF_SIGNATURE else Err OtherIo)"

theorem path_analyses_agree_witness:
  "path_analyse ref_externals one_readable
    (from_paths [\<lparr>p_parent = None, p_file = Some (lit ''img.E01'')\<rparr>, \<lparr>p_parent = None, p_file = Some (lit ''img.E02'')\<rparr>])
    = Err OtherIo"
proof -
  let ?s = "from_paths [\<lparr>p_parent = None, p_file = Some (lit ''img.E01'')\<rparr>, \<lparr>p_parent = None, p_file = Some (lit ''img.E02'')\<rparr>]"
  have np: "one_readable p \<noteq> Panic" for p by (simp add: one_readable_def)
  have small: "length c \<le> u64_max" if "one_readable p = Ok c" for p c
    using that by (auto simp: one_readable_def EVF_SIGNATURE_def u64_max_def split: if_splits)
  have "map one_readable (ip_segment_paths ?s) = [Ok EVF_SIGNATURE, Err OtherIo]"
    by (simp add: one_readable_def from_paths_def lit_def)
  then have bad: "map one_readable (ip_segment_paths ?s) \<noteq> map Ok segs" for segs
    by (auto simp: Cons_eq_map_conv)
  have err: "one_readable p = Err e \<Longrightarrow> e = OtherIo" for p e
    by (simp add: one_readable_def split: if_splits)
  show ?thesis
  proof (rule disjE [OF path_analyses_agree [of one_readable ?s ref_externals]], goal_cases)
    case 3
    then show ?case using bad by (elim exE conjE) (rule notE)
  next
    case 4
    then obtain k e where "one_readable (ip_segment_paths ?s ! k) = Err e"
      and res: "path_analyse ref_externals one_readable ?s = Err e" by (elim exE conjE)
    from err [OF this(1)] res show ?case by (rule subst)
  qed (use np small in auto)
qed

end
