(* ===== verification/Ewf_Check.thy ===== *)
theory Ewf_Check
  imports Integrity_Path
begin

text \<open>
  The command \<open>ewf-check\<close> (\<open>forensic/src/bin/ewf_check.rs\<close>) with the texts of the anomalies
  (\<open>Display\<close> of \<open>integrity.rs\<close>): options, the choice of the segments, the filter by severity,
  the text and JSON reports and the exit code. An outcome is the exit code with what was printed to
  the standard output; the messages on the standard error and the progress bar are left out.
  Parameters: \<open>path_of\<close> makes a path of an argument, \<open>io_text\<close> is the text of an operating
  system error, \<open>version\<close> the version of the package.
\<close>

section \<open>The texts of the anomalies\<close>

primrec display :: "EwfIntegrityAnomaly \<Rightarrow> rstr" where
  "display InvalidSignature =
    lit ''invalid EWF signature '' @ [8212] @ lit '' not a valid E01/Ex01 file''"
| "display SegmentNumberZero =
    lit ''segment number is zero (expected '' @ [8805] @ lit '' 1)''"
| "display (SectionDescriptorCrcMismatch offset section_type computed stored) =
    lit ''section '' @ [39] @ section_type @ [39] @ lit '' at 0x'' @ show_radix 16 offset @
    lit '': descriptor CRC mismatch (computed 0x'' @ pad_zero 8 (show_radix 16 (unat computed)) @
    lit '', stored 0x'' @ pad_zero 8 (show_radix 16 (unat stored)) @ lit '')''"
| "display (SectionChainBroken at_offset next_offset) =
    lit ''section chain broken at 0x'' @ show_radix 16 at_offset @ lit '': next pointer 0x'' @
    show_radix 16 next_offset @ lit '' is invalid''"
| "display (SectionGapNonZero gap_offset gap_size) =
    lit ''non-zero data in '' @ show_radix 10 gap_size @ lit ''-byte gap at 0x'' @
    show_radix 16 gap_offset @ lit '' '' @ [8212] @ lit '' possible hidden data''"
| "display VolumeSectionMissing =
    lit ''volume/disk section missing in segment 1''"
| "display (UnknownSectionType offset type_name) =
    lit ''unknown section type '' @ [39] @ type_name @ [39] @ lit '' at 0x'' @ show_radix 16 offset"
| "display DoneSectionMissing =
    lit ''done section missing from final segment''"
| "display SectorsSectionMissing =
    lit ''sectors section missing '' @ [8212] @ lit '' chunk data not found in segment''"
| "display TableSectionMissing =
    lit ''table section missing '' @ [8212] @ lit '' chunk offset table not found in segment''"
| "display (ChunkSizeInvalid sectors_per_chunk bytes_per_sector) =
    lit ''invalid chunk size: '' @ show_radix 10 (unat sectors_per_chunk) @ lit '' sectors '' @
    [215] @ lit '' '' @ show_radix 10 (unat bytes_per_sector) @ lit '' bytes/sector''"
| "display (SectorCountMismatch declared expected) =
    lit ''sector count mismatch: declared '' @ show_radix 10 declared @ lit '', expected '' @
    show_radix 10 expected"
| "display (BytesPerSectorInvalid bytes_per_sector) =
    lit ''invalid bytes_per_sector: '' @ show_radix 10 (unat bytes_per_sector) @
    lit '' (expected 512 or 4096)''"
| "display (TableChunkCountMismatch in_volume in_table) =
    lit ''chunk count mismatch: volume declares '' @ show_radix 10 in_volume @
    lit '', table has '' @ show_radix 10 in_table"
| "display (TableHeaderAdler32Mismatch computed stored) =
    lit ''table header Adler-32 mismatch: computed 0x'' @
    pad_zero 8 (show_radix 16 (unat computed)) @ lit '', stored 0x'' @
    pad_zero 8 (show_radix 16 (unat stored))"
| "display (TableEntryOutOfBounds chunk_index entry_offset file_size) =
    lit ''table entry for chunk '' @ show_radix 10 chunk_index @ lit '' points outside file: 0x'' @
    show_radix 16 entry_offset @ lit '' '' @ [8805] @ lit '' 0x'' @ show_radix 16 file_size"
| "display (TableEntryOutsideSectorsRange chunk_index entry_offset sectors_start sectors_end) =
    lit ''table entry for chunk '' @ show_radix 10 chunk_index @ lit '' at 0x'' @
    show_radix 16 entry_offset @ lit '' is outside sectors section [0x'' @
    show_radix 16 sectors_start @ lit ''..0x'' @ show_radix 16 sectors_end @ lit '']''"
| "display (SectionGapZero gap_offset gap_size) =
    lit ''zero-padded '' @ show_radix 10 gap_size @ lit ''-byte gap at 0x'' @
    show_radix 16 gap_offset"
| "display (HashMismatch computed stored) =
    lit ''MD5 mismatch: computed '' @ hex_string computed @ lit '', stored '' @ hex_string stored"
| "display HashSectionMissing =
    lit ''hash section missing '' @ [8212] @ lit '' cannot verify MD5''"
| "display (Table2Mismatch offset) =
    lit ''table2 body differs from table at byte offset '' @ show_radix 10 offset @ lit '' '' @
    [8212] @ lit '' one redundant copy is corrupt''"
| "display (BadSectorsPresent count) =
    lit ''error2 section reports '' @ show_radix 10 count @
    lit '' unreadable sector range(s) from acquisition''"
| "display (SegmentOutOfOrder segment_number expected) =
    lit ''segment '' @ show_radix 10 segment_number @ lit '' found where segment '' @
    show_radix 10 expected @ lit '' was expected''"
| "display (DigestSha1Mismatch computed stored) =
    lit ''SHA-1 mismatch: computed '' @ hex_string computed @ lit '', stored '' @ hex_string stored"
| "display (DigestSha256Mismatch computed stored) =
    lit ''SHA-256 mismatch: computed '' @ hex_string computed @ lit '', stored '' @
    hex_string stored"
| "display (ExternalMd5Mismatch computed expected) =
    lit ''MD5 does not match chain-of-custody reference: computed '' @ hex_string computed @
    lit '', expected '' @ hex_string expected"
| "display (ExternalSha1Mismatch computed expected) =
    lit ''SHA-1 does not match chain-of-custody reference: computed '' @ hex_string computed @
    lit '', expected '' @ hex_string expected"
| "display (ExternalSha256Mismatch computed expected) =
    lit ''SHA-256 does not match chain-of-custody reference: computed '' @ hex_string computed @
    lit '', expected '' @ hex_string expected"
| "display (Ewf2SectionDataHashMismatch offset section_type_id computed stored) =
    lit ''EWF v2 section (type 0x'' @ pad_zero 2 (show_radix 16 (unat section_type_id)) @
    lit '') at 0x'' @ show_radix 16 offset @ lit '': data integrity hash mismatch (computed '' @
    hex_string computed @ lit '', stored '' @ hex_string stored @ lit '')''"
| "display (Ewf2EncryptedSection offset) =
    lit ''EWF v2 encrypted section at 0x'' @ show_radix 16 offset @ lit '' '' @ [8212] @
    lit '' content not verifiable''"
| "display Ewf2HashSectionMissing =
    lit ''EWF v2 hash section missing from final segment''"
| "display (VolumeBodyCrcMismatch computed stored) =
    lit ''volume section body CRC mismatch (computed 0x'' @
    pad_zero 8 (show_radix 16 (unat computed)) @ lit '', stored 0x'' @
    pad_zero 8 (show_radix 16 (unat stored)) @ lit '')''"
| "display (MediaTypeUnknown media_type) =
    lit ''unknown media_type 0x'' @ pad_zero 2 (show_radix 16 (unat media_type))"
| "display (SetIdentifierMismatch segment) =
    lit ''set_identifier GUID mismatch in segment '' @ show_radix 10 segment @ lit '' '' @ [8212] @
    lit '' segments may be from different acquisitions''"
| "display Ewf2MediaInfoMissing =
    lit ''EWF v2 media information section missing''"
| "display (Ewf2ChunkTableChecksumMismatch computed stored) =
    lit ''EWF v2 chunk table checksum mismatch (computed 0x'' @
    pad_zero 8 (show_radix 16 (unat computed)) @ lit '', stored 0x'' @
    pad_zero 8 (show_radix 16 (unat stored)) @ lit '')''"
| "display (ChunkChecksumMismatch chunk_index computed stored) =
    lit ''chunk '' @ show_radix 10 chunk_index @ lit '': Adler-32 mismatch (computed 0x'' @
    pad_zero 8 (show_radix 16 (unat computed)) @ lit '', stored 0x'' @
    pad_zero 8 (show_radix 16 (unat stored)) @ lit '')''"
| "display (ChunkDecompressionError chunk_index) =
    lit ''chunk '' @ show_radix 10 chunk_index @ lit '': zlib decompression failed '' @ [8212] @
    lit '' chunk data is corrupt''"
| "display (UnsupportedCompressionAlgorithm method_id) =
    lit ''EWF v2 file header specifies unsupported compression algorithm 0x'' @
    pad_zero 4 (show_radix 16 (unat method_id)) @ lit '' '' @ [8212] @
    lit '' only deflate (0/1) is supported''"
| "display Ewf2MediaInfoParseFailed =
    lit ''EWF v2 media information section body could not be decompressed or decoded''"

text \<open>\<open>forensicnomicon::report::Observation\<close>: severity, code and note of an anomaly.\<close>

definition observation :: "EwfIntegrityAnomaly \<Rightarrow> Severity option \<times> string \<times> rstr" where
  "observation a = (Some (severity a), code a, display a)"

text \<open>The error type that the forensic crate exports.\<close>

datatype EwfForensicError = TooShort nat nat

primrec forensic_error_text :: "EwfForensicError \<Rightarrow> rstr" where
  "forensic_error_text (TooShort expected got) =
    lit ''data too short: expected '' @ show_radix 10 expected @ lit '', got '' @ show_radix 10 got"

section \<open>Reports\<close>

primrec anomaly_kind :: "EwfIntegrityAnomaly \<Rightarrow> rstr" where
  "anomaly_kind InvalidSignature = lit ''InvalidSignature''"
| "anomaly_kind SegmentNumberZero = lit ''SegmentNumberZero''"
| "anomaly_kind (SectionDescriptorCrcMismatch _ _ _ _) = lit ''SectionDescriptorCrcMismatch''"
| "anomaly_kind (SectionChainBroken _ _) = lit ''SectionChainBroken''"
| "anomaly_kind (SectionGapNonZero _ _) = lit ''SectionGapNonZero''"
| "anomaly_kind VolumeSectionMissing = lit ''VolumeSectionMissing''"
| "anomaly_kind (UnknownSectionType _ _) = lit ''UnknownSectionType''"
| "anomaly_kind DoneSectionMissing = lit ''DoneSectionMissing''"
| "anomaly_kind SectorsSectionMissing = lit ''SectorsSectionMissing''"
| "anomaly_kind TableSectionMissing = lit ''TableSectionMissing''"
| "anomaly_kind (ChunkSizeInvalid _ _) = lit ''ChunkSizeInvalid''"
| "anomaly_kind (SectorCountMismatch _ _) = lit ''SectorCountMismatch''"
| "anomaly_kind (BytesPerSectorInvalid _) = lit ''BytesPerSectorInvalid''"
| "anomaly_kind (TableChunkCountMismatch _ _) = lit ''TableChunkCountMismatch''"
| "anomaly_kind (TableHeaderAdler32Mismatch _ _) = lit ''TableHeaderAdler32Mismatch''"
| "anomaly_kind (TableEntryOutOfBounds _ _ _) = lit ''TableEntryOutOfBounds''"
| "anomaly_kind (TableEntryOutsideSectorsRange _ _ _ _) = lit ''TableEntryOutsideSectorsRange''"
| "anomaly_kind (SectionGapZero _ _) = lit ''SectionGapZero''"
| "anomaly_kind (HashMismatch _ _) = lit ''HashMismatch''"
| "anomaly_kind HashSectionMissing = lit ''HashSectionMissing''"
| "anomaly_kind (Table2Mismatch _) = lit ''Table2Mismatch''"
| "anomaly_kind (BadSectorsPresent _) = lit ''BadSectorsPresent''"
| "anomaly_kind (SegmentOutOfOrder _ _) = lit ''SegmentOutOfOrder''"
| "anomaly_kind (DigestSha1Mismatch _ _) = lit ''DigestSha1Mismatch''"
| "anomaly_kind (DigestSha256Mismatch _ _) = lit ''DigestSha256Mismatch''"
| "anomaly_kind (ExternalMd5Mismatch _ _) = lit ''ExternalMd5Mismatch''"
| "anomaly_kind (ExternalSha1Mismatch _ _) = lit ''ExternalSha1Mismatch''"
| "anomaly_kind (ExternalSha256Mismatch _ _) = lit ''ExternalSha256Mismatch''"
| "anomaly_kind (Ewf2SectionDataHashMismatch _ _ _ _) = lit ''Ewf2SectionDataHashMismatch''"
| "anomaly_kind (Ewf2EncryptedSection _) = lit ''Ewf2EncryptedSection''"
| "anomaly_kind Ewf2HashSectionMissing = lit ''Ewf2HashSectionMissing''"
| "anomaly_kind (VolumeBodyCrcMismatch _ _) = lit ''VolumeBodyCrcMismatch''"
| "anomaly_kind (MediaTypeUnknown _) = lit ''MediaTypeUnknown''"
| "anomaly_kind (SetIdentifierMismatch _) = lit ''SetIdentifierMismatch''"
| "anomaly_kind Ewf2MediaInfoMissing = lit ''Ewf2MediaInfoMissing''"
| "anomaly_kind (Ewf2ChunkTableChecksumMismatch _ _) = lit ''Ewf2ChunkTableChecksumMismatch''"
| "anomaly_kind (ChunkChecksumMismatch _ _ _) = lit ''ChunkChecksumMismatch''"
| "anomaly_kind (ChunkDecompressionError _) = lit ''ChunkDecompressionError''"
| "anomaly_kind (UnsupportedCompressionAlgorithm _) = lit ''UnsupportedCompressionAlgorithm''"
| "anomaly_kind Ewf2MediaInfoParseFailed = lit ''Ewf2MediaInfoParseFailed''"

fun json_escape :: "rstr \<Rightarrow> rstr" where
  "json_escape [] = []"
| "json_escape (c # cs) =
    (if c = 34 then [92, 34]
     else if c = 92 then [92, 92]
     else if c = 10 then [92, 110]
     else if c = 13 then [92, 114]
     else if c = 9 then [92, 116]
     else if c < 32 then [92, 117] @ pad_zero 4 (show_radix 16 c)
     else [c]) @ json_escape cs"

primrec severity_rank :: "Severity \<Rightarrow> nat" where
  "severity_rank Info = 0"
| "severity_rank Low = 1"
| "severity_rank Medium = 2"
| "severity_rank High = 3"
| "severity_rank Critical = 4"

definition severity_gte :: "Severity \<Rightarrow> Severity \<Rightarrow> bool" where
  "severity_gte a mn \<longleftrightarrow> severity_rank mn \<le> severity_rank a"

primrec severity_label :: "Severity \<Rightarrow> rstr" where
  "severity_label Info = lit ''info''"
| "severity_label Low = lit ''low''"
| "severity_label Medium = lit ''medium''"
| "severity_label High = lit ''high''"
| "severity_label Critical = lit ''critical''"

primrec severity_tag :: "Severity \<Rightarrow> rstr" where
  "severity_tag Critical = lit ''[CRITICAL]''"
| "severity_tag High = lit ''[HIGH]    ''"
| "severity_tag Medium = lit ''[MEDIUM]  ''"
| "severity_tag Low = lit ''[LOW]     ''"
| "severity_tag Info = lit ''[INFO]    ''"

text \<open>The printed text; \<open>println!\<close> ends it with a newline.\<close>

definition print_text :: "EwfIntegrityAnomaly list \<Rightarrow> Severity \<Rightarrow> rstr" where
  "print_text visible min_severity =
    (if visible = []
     then lit ''clean '' @ [8212] @ lit '' 0 anomalies at or above '' @ severity_label min_severity @ [10]
     else show_radix 10 (length visible) @ lit '' anomaly/anomalies found:'' @ [10, 10]
          @ concat (map (\<lambda>a. severity_tag (severity a) @ lit '' '' @ display a @ [10]) visible))"

definition json_row :: "EwfIntegrityAnomaly \<Rightarrow> rstr" where
  "json_row a =
    lit ''    {'' @ [34] @ lit ''severity'' @ [34] @ lit '': '' @ [34] @ severity_label (severity a)
    @ [34] @ lit '', '' @ [34] @ lit ''kind'' @ [34] @ lit '': '' @ [34] @ anomaly_kind a
    @ [34] @ lit '', '' @ [34] @ lit ''message'' @ [34] @ lit '': '' @ [34] @ json_escape (display a) @ [34] @ lit ''}''"

fun json_rows :: "nat \<Rightarrow> EwfIntegrityAnomaly list \<Rightarrow> rstr" where
  "json_rows i [] = []"
| "json_rows i (a # as) = (if i = 0 then [10] else lit '','' @ [10]) @ json_row a @ json_rows (i + 1) as"

definition json_hashes :: "ComputedHashes \<Rightarrow> rstr" where
  "json_hashes h =
    lit '','' @ [10] @ lit ''  '' @ [34] @ lit ''hashes'' @ [34] @ lit '': {'' @ [10]
    @ lit ''    '' @ [34] @ lit ''md5'' @ [34] @ lit '': '' @ [34] @ hex_string (ch_md5 h) @ [34] @ lit '','' @ [10]
    @ lit ''    '' @ [34] @ lit ''sha1'' @ [34] @ lit '': '' @ [34] @ hex_string (ch_sha1 h) @ [34] @ lit '','' @ [10]
    @ lit ''    '' @ [34] @ lit ''sha256'' @ [34] @ lit '': '' @ [34] @ hex_string (ch_sha256 h) @ [34] @ [10]
    @ lit ''  }''"

definition print_json :: "EwfIntegrityAnomaly list \<Rightarrow> Severity \<Rightarrow> ComputedHashes option \<Rightarrow> rstr" where
  "print_json visible min_severity hashes =
    lit ''{'' @ [10] @ lit ''  '' @ [34] @ lit ''clean'' @ [34] @ lit '': ''
    @ (if visible = [] then lit ''true'' else lit ''false'') @ lit '','' @ [10]
    @ lit ''  '' @ [34] @ lit ''anomaly_count'' @ [34] @ lit '': '' @ show_radix 10 (length visible) @ lit '','' @ [10]
    @ lit ''  '' @ [34] @ lit ''anomalies'' @ [34] @ lit '': [''
    @ json_rows 0 visible
    @ (if visible \<noteq> [] then [10] @ lit ''  '' else [])
    @ lit '']''
    @ (case hashes of Some h \<Rightarrow> json_hashes h | None \<Rightarrow> [])
    @ [10] @ lit ''}'' @ [10]"

section \<open>Options\<close>

record check_options =
  co_min_severity :: Severity
  co_json_mode :: bool
  co_print_hashes :: bool
  co_show_progress :: bool
  co_hash_md5 :: "bytes option"
  co_hash_sha1 :: "bytes option"
  co_hash_sha256 :: "bytes option"
  co_paths :: "path list"

definition default_options :: check_options where
  "default_options = \<lparr>co_min_severity = Info, co_json_mode = False, co_print_hashes = False,
     co_show_progress = False, co_hash_md5 = None, co_hash_sha1 = None, co_hash_sha256 = None, co_paths = []\<rparr>"

definition parse_severity :: "rstr \<Rightarrow> Severity option" where
  "parse_severity val =
    (if val \<in> set [lit ''info'', lit ''Info''] then Some Info
     else if val \<in> set [lit ''low'', lit ''Low''] then Some Low
     else if val \<in> set [lit ''medium'', lit ''Medium'', lit ''warning'', lit ''Warning''] then Some Medium
     else if val \<in> set [lit ''high'', lit ''High'', lit ''error'', lit ''Error''] then Some High
     else if val \<in> set [lit ''critical'', lit ''Critical''] then Some Critical
     else None)"

text \<open>The loop over \<open>chunks(2)\<close> of the bytes; \<open>None\<close> is the exit with code 2.\<close>

fun parse_hex_chunks :: "nat list \<Rightarrow> bytes option" where
  "parse_hex_chunks (a # b # rest) =
    (case from_str_radix 255 16 (unwrap_or (lit ''??'') (from_utf8_nat [a, b])) of
       None \<Rightarrow> None
     | Some v \<Rightarrow> map_option ((#) (of_nat v)) (parse_hex_chunks rest))"
| "parse_hex_chunks _ = Some []"

definition parse_hex_fixed :: "nat \<Rightarrow> rstr \<Rightarrow> bytes option" where
  "parse_hex_fixed n hex =
    (if utf8_len hex \<noteq> n * 2 then None else parse_hex_chunks (utf8_encode hex))"

text \<open>One argument; \<open>None\<close> is a usage error, which exits with code 2 at once.\<close>

definition parse_arg :: "(rstr \<Rightarrow> path) \<Rightarrow> rstr \<Rightarrow> check_options \<Rightarrow> check_options option" where
  "parse_arg path_of arg opt =
    (case strip_prefix (lit ''--min-severity='') arg of
       Some val \<Rightarrow> map_option (\<lambda>s. opt\<lparr>co_min_severity := s\<rparr>) (parse_severity val)
     | None \<Rightarrow>
         if arg = lit ''--json'' then Some (opt\<lparr>co_json_mode := True\<rparr>)
         else if arg = lit ''--print-hashes'' then Some (opt\<lparr>co_print_hashes := True\<rparr>)
         else if arg = lit ''--progress'' then Some (opt\<lparr>co_show_progress := True\<rparr>)
         else
           (case strip_prefix (lit ''--hash-md5='') arg of
              Some hex \<Rightarrow> map_option (\<lambda>h. opt\<lparr>co_hash_md5 := Some h\<rparr>) (parse_hex_fixed 16 hex)
            | None \<Rightarrow>
                (case strip_prefix (lit ''--hash-sha1='') arg of
                   Some hex \<Rightarrow> map_option (\<lambda>h. opt\<lparr>co_hash_sha1 := Some h\<rparr>) (parse_hex_fixed 20 hex)
                 | None \<Rightarrow>
                     (case strip_prefix (lit ''--hash-sha256='') arg of
                        Some hex \<Rightarrow> map_option (\<lambda>h. opt\<lparr>co_hash_sha256 := Some h\<rparr>) (parse_hex_fixed 32 hex)
                      | None \<Rightarrow>
                          if strip_prefix (lit ''-'') arg \<noteq> None then None
                          else Some (opt\<lparr>co_paths := co_paths opt @ [path_of arg]\<rparr>)))))"

fun parse_args :: "(rstr \<Rightarrow> path) \<Rightarrow> rstr list \<Rightarrow> check_options \<Rightarrow> check_options option" where
  "parse_args path_of [] opt = Some opt"
| "parse_args path_of (arg # args) opt =
    Option.bind (parse_arg path_of arg opt) (parse_args path_of args)"

section \<open>The command\<close>

definition HELP :: rstr where
  "HELP =
    lit ''ewf-check '' @ [8212] @ lit '' forensic integrity analysis for EWF / E01 images'' @ [10] @
    [10] @
    lit ''USAGE'' @ [10] @
    lit ''    ewf-check [OPTIONS] <segment>...'' @ [10] @
    [10] @
    lit ''ARGUMENTS'' @ [10] @
    lit ''    <segment>...    One or more segment paths (evidence.E01, evidence.E02, '' @ [8230] @ lit '').'' @ [10] @
    lit ''                    When a single .E01 path is given, consecutive siblings are'' @ [10] @
    lit ''                    discovered automatically.'' @ [10] @
    [10] @
    lit ''OPTIONS'' @ [10] @
    lit ''    --min-severity=<level>    Only report anomalies at or above this severity.'' @ [10] @
    lit ''                              Levels: info, warning, error, critical [default: info]'' @ [10] @
    lit ''    --json                    Emit machine-readable JSON instead of human text.'' @ [10] @
    lit ''    --hash-md5=<hex>          Compare computed MD5 against this hex string (chain-of-custody).'' @ [10] @
    lit ''    --hash-sha1=<hex>         Compare computed SHA-1 against this hex string.'' @ [10] @
    lit ''    --hash-sha256=<hex>       Compare computed SHA-256 against this hex string.'' @ [10] @
    lit ''    --print-hashes            Compute and print MD5, SHA-1, and SHA-256 of all sector data.'' @ [10] @
    lit ''                              Combined with --json: adds a '' @ [34] @ lit ''hashes'' @ [34] @ lit '' object to the JSON output.'' @ [10] @
    lit ''    --progress                Show a progress bar on stderr during analysis.'' @ [10] @
    lit ''    --help                    Show this help and exit.'' @ [10] @
    lit ''    --version                 Print version and exit.'' @ [10] @
    [10] @
    lit ''EXIT CODES'' @ [10] @
    lit ''    0   Clean '' @ [8212] @ lit '' no anomalies at or above --min-severity'' @ [10] @
    lit ''    1   Anomalies found'' @ [10] @
    lit ''    2   Usage error or I/O failure'' @ [10]"

datatype check_exit = Exit nat rstr | Aborted

definition paths_checker :: "(path \<Rightarrow> bool) \<Rightarrow> path list \<Rightarrow> EwfIntegrityPath" where
  "paths_checker exists paths =
    (if length paths = 1 then from_path exists (hd paths) else from_paths paths)"

definition options_checker :: "(path \<Rightarrow> bool) \<Rightarrow> check_options \<Rightarrow> EwfIntegrityPath" where
  "options_checker exists opt =
    (let c0 = paths_checker exists (co_paths opt);
         c1 = (case co_hash_md5 opt of Some h \<Rightarrow> path_with_expected_md5 h c0 | None \<Rightarrow> c0);
         c2 = (case co_hash_sha1 opt of Some h \<Rightarrow> path_with_expected_sha1 h c1 | None \<Rightarrow> c1)
     in case co_hash_sha256 opt of Some h \<Rightarrow> path_with_expected_sha256 h c2 | None \<Rightarrow> c2)"

text \<open>The exit after an operating system error; the text report goes to the standard error.\<close>

definition io_failure :: "(io_error \<Rightarrow> rstr) \<Rightarrow> check_options \<Rightarrow> io_error \<Rightarrow> check_exit" where
  "io_failure io_text opt e =
    Exit 2 (if co_json_mode opt
            then lit ''{'' @ [34] @ lit ''error'' @ [34] @ lit '': '' @ [34] @ json_escape (io_text e) @ [34] @ lit ''}'' @ [10]
            else [])"

definition hash_lines :: "ComputedHashes option \<Rightarrow> rstr" where
  "hash_lines computed =
    (case computed of
       None \<Rightarrow> []
     | Some h \<Rightarrow> [10] @ lit ''MD5:    '' @ hex_string (ch_md5 h) @ [10]
         @ lit ''SHA-1:  '' @ hex_string (ch_sha1 h) @ [10]
         @ lit ''SHA-256: '' @ hex_string (ch_sha256 h) @ [10])"

definition report_findings ::
  "check_options \<Rightarrow> EwfIntegrityAnomaly list \<Rightarrow> ComputedHashes option \<Rightarrow> check_exit" where
  "report_findings opt findings computed =
    (let visible = filter (\<lambda>a. severity_gte (severity a) (co_min_severity opt)) findings
     in Exit (if visible = [] then 0 else 1)
          (if co_json_mode opt then print_json visible (co_min_severity opt) computed
           else print_text visible (co_min_severity opt) @ hash_lines computed))"

definition run_check ::
  "externals \<Rightarrow> (path \<Rightarrow> bool) \<Rightarrow> (path \<Rightarrow> bytes io_result) \<Rightarrow> (io_error \<Rightarrow> rstr) \<Rightarrow> check_options \<Rightarrow> check_exit" where
  "run_check X exists FS io_text opt =
    (let checker = options_checker exists opt;
         analysis_result = (if co_show_progress opt then map_ok fst (path_analyse_with_progress X FS checker)
                            else path_analyse X FS checker)
     in case analysis_result of
          Panic \<Rightarrow> Aborted
        | Err e \<Rightarrow> io_failure io_text opt e
        | Ok f \<Rightarrow>
            if co_print_hashes opt then
              (case path_compute_hashes X FS (paths_checker exists (co_paths opt)) of
                 Panic \<Rightarrow> Aborted
               | Err e \<Rightarrow> io_failure io_text opt e
               | Ok hashes \<Rightarrow> report_findings opt f hashes)
            else report_findings opt f None)"

definition ewf_check_main ::
  "externals \<Rightarrow> (path \<Rightarrow> bool) \<Rightarrow> (path \<Rightarrow> bytes io_result) \<Rightarrow> (io_error \<Rightarrow> rstr) \<Rightarrow> (rstr \<Rightarrow> path) \<Rightarrow> rstr
    \<Rightarrow> rstr list \<Rightarrow> check_exit" where
  "ewf_check_main X exists FS io_text path_of version args =
    (if args = [] then Exit 2 []
     else if list_ex (\<lambda>a. a = lit ''--help'' \<or> a = lit ''-h'') args then Exit 0 HELP
     else if list_ex (\<lambda>a. a = lit ''--version'' \<or> a = lit ''-V'') args
     then Exit 0 (lit ''ewf-check '' @ version @ [10])
     else
       (case parse_args path_of args default_options of
          None \<Rightarrow> Exit 2 []
        | Some opt \<Rightarrow>
            if co_paths opt = [] then Exit 2 []
            else run_check X exists FS io_text opt))"

section \<open>Lemmas\<close>

text \<open>Reading a JSON string: the inverse of escaping, strict about quotes and control characters.\<close>

definition simple_escape :: "nat \<Rightarrow> nat option" where
  "simple_escape k =
    (if k = 34 then Some 34 else if k = 92 then Some 92 else if k = 110 then Some 10
     else if k = 114 then Some 13 else if k = 116 then Some 9 else None)"

fun json_unescape :: "rstr \<Rightarrow> rstr option" where
  "json_unescape [] = Some []"
| "json_unescape (c # cs) =
    (if c = 92 then
       (case cs of
          [] \<Rightarrow> None
        | k # ks \<Rightarrow>
            if k = 117 then
              (case ks of
                 p # q # r # s # rest \<Rightarrow>
                   (case digits_value 16 0 [p, q, r, s] of
                      Some n \<Rightarrow> map_option ((#) n) (json_unescape rest)
                    | None \<Rightarrow> None)
               | _ \<Rightarrow> None)
            else (case simple_escape k of
                    Some n \<Rightarrow> map_option ((#) n) (json_unescape ks)
                  | None \<Rightarrow> None))
     else if c < 32 \<or> c = 34 then None
     else map_option ((#) c) (json_unescape cs))"

lemma hex4_control:
  assumes "c < 32"
  obtains p q r s where "pad_zero 4 (show_radix 16 c) = [p, q, r, s]" and "digits_value 16 0 [p, q, r, s] = Some c"
proof -
  have "c div 16 < 16" using assms by linarith
  then have "length (show_radix 16 c) \<le> 2"
    using assms by (simp add: show_radix.simps [of 16 c] show_radix.simps [of 16 "c div 16"])
  then have "length (pad_zero 4 (show_radix 16 c)) = 4" by (simp add: pad_zero_def)
  then obtain p q r s where "pad_zero 4 (show_radix 16 c) = [p, q, r, s]"
    by (auto simp: numeral_eq_Suc length_Suc_conv)
  then show ?thesis using that padded_value [of 16 4 c] by simp
qed

lemma json_unescape_escape: "json_unescape (json_escape s) = Some s"
proof (induction s)
  case (Cons c cs)
  show ?case
  proof (cases "c < 32 \<and> c \<noteq> 10 \<and> c \<noteq> 13 \<and> c \<noteq> 9")
    case True
    then obtain p q r s where "pad_zero 4 (show_radix 16 c) = [p, q, r, s]" "digits_value 16 0 [p, q, r, s] = Some c"
      using hex4_control by blast
    then show ?thesis using True Cons by (simp del: digits_value.simps)
  qed (use Cons in \<open>auto simp: simple_escape_def\<close>)
qed simp

lemma parse_hex_chunks_hex: "parse_hex_chunks (hex_string bs) = Some bs"
proof (induction bs)
  case (Cons b bs)
  obtain u v where h: "hex_byte b = [u, v]" by (simp add: hex_byte_def)
  have "from_utf8_nat [u, v] = Some (hex_byte b)"
    using from_utf8_nat_ascii [OF hex_byte_ascii [of b]] by (simp add: h)
  moreover have "hex_string (b # bs) = u # v # hex_string bs" using h by (simp add: hex_string_def)
  ultimately show ?case using Cons by (simp add: from_str_radix_hex_byte unwrap_or_def)
qed (simp add: hex_string_def)

lemma parse_hex_fixed_hex: "parse_hex_fixed (length bs) (hex_string bs) = Some bs"
  using utf8_encode_ascii [OF hex_string_ascii [of bs]]
  by (simp add: parse_hex_fixed_def utf8_len_def parse_hex_chunks_hex)

text \<open>A plus sign passes as the first digit of a pair.\<close>

lemma parse_hex_plus: "parse_hex_fixed 2 (lit ''+f+0'') = Some [15, 0]"
  by code_simp

text \<open>An option that is not known is refused, the ones handled before the loop included.\<close>

lemma parse_arg_flags:
  "parse_arg path_of (lit ''--help'') opt = None" "parse_arg path_of (lit ''-h'') opt = None"
  "parse_arg path_of (lit ''--version'') opt = None" "parse_arg path_of (lit ''-V'') opt = None"
  by (simp_all add: parse_arg_def strip_prefix_def)

lemma parse_args_flags:
  "parse_args path_of args opt = Some opt' \<Longrightarrow>
    \<not> list_ex (\<lambda>a. a = lit ''--help'' \<or> a = lit ''-h'') args \<and> \<not> list_ex (\<lambda>a. a = lit ''--version'' \<or> a = lit ''-V'') args"
proof (induction args arbitrary: opt)
  case (Cons a args)
  then obtain o1 where "parse_arg path_of a opt = Some o1" "parse_args path_of args o1 = Some opt'"
    by (auto simp: bind_eq_Some_conv)
  then show ?case using Cons.IH [of o1] parse_arg_flags [of path_of opt] by auto
qed simp

lemma options_checker_paths: "ip_segment_paths (options_checker exists opt) = ip_segment_paths (paths_checker exists (co_paths opt))"
  by (simp add: options_checker_def Let_def path_with_expected_md5_def path_with_expected_sha1_def
      path_with_expected_sha256_def split: option.split)

lemma report_findings_code:
  "\<exists>out. report_findings opt iss hashes =
    Exit (if \<exists>a \<in> set iss. severity_gte (severity a) (co_min_severity opt) then 1 else 0) out"
  by (auto simp: report_findings_def Let_def filter_empty_conv)

lemma run_check_code:
  assumes "\<And>p. FS p \<noteq> Panic" and "\<And>p c. FS p = Ok c \<Longrightarrow> length c \<le> u64_max"
  shows "\<exists>out. run_check X exists FS io_text opt =
    Exit (case path_analyse X FS (options_checker exists opt) of
            Ok iss \<Rightarrow> if \<exists>a \<in> set iss. severity_gte (severity a) (co_min_severity opt) then 1 else 0
          | _ \<Rightarrow> 2) out"
proof (rule disjE [OF path_entry_points [of FS "options_checker exists opt" X]], goal_cases)
  case 3
  then obtain iss evs hashes where run: "path_analyse X FS (options_checker exists opt) = Ok iss"
    "path_analyse_with_progress X FS (options_checker exists opt) = Ok (iss, evs)"
    and h: "path_compute_hashes X FS (options_checker exists opt) = Ok hashes" by blast
  have "path_compute_hashes X FS (paths_checker exists (co_paths opt)) = Ok hashes"
    using h by (simp add: path_compute_hashes_def map_segments_def options_checker_paths)
  then have "run_check X exists FS io_text opt =
      report_findings opt iss (if co_print_hashes opt then hashes else None)"
    using run by (simp add: run_check_def Let_def)
  then show ?case by (simp only: run(1) result.case report_findings_code)
next
  case 4
  then obtain e where "path_analyse X FS (options_checker exists opt) = Err e"
    "path_analyse_with_progress X FS (options_checker exists opt) = Err e" by blast
  then show ?case by (simp add: run_check_def Let_def io_failure_def)
qed (use assms in auto)

section \<open>Properties\<close>


text \<open>A truncated segment, and one that cannot be opened.\<close>

definition plain_path :: "rstr \<Rightarrow> path" where
  "plain_path arg = \<lparr>p_parent = None, p_file = Some arg\<rparr>"


text \<open>The messages of a JSON report and of a JSON error, whatever characters the image or a file name
  put into them, are well formed JSON strings that read back as the messages: quotes, backslashes and
  control characters are escaped.
\<close>

theorem json_report_roundtrip:
  "json_unescape (json_escape s) = Some s"
  by (rule json_unescape_escape)

end
