(* ===== verification/Cli_Program.thy ===== *)
theory Cli_Program
  imports Cli_Main Cli_Correct Ewf_Check
begin

text \<open>
  The command line program and the server as a whole: every subcommand returns, \<open>ewf verify\<close>
  and \<open>ewf read\<close> on an intact image, the paths of \<open>ewf ls\<close>, the limits of the tools, and the
  server's answer to every request.
\<close>

section \<open>The hex dump\<close>

lemma dump_bytes_hex_string: "dump_bytes (hex_string bs) = Ok bs"
proof (induction bs)
  case (Cons b bs)
  have ascii: "list_all (\<lambda>c. c < 128) (hex_string (b # bs))" by (rule hex_string_ascii)
  obtain u v where h: "hex_byte b = [u, v]" by (simp add: hex_byte_def)
  then have str: "hex_string (b # bs) = u # v # hex_string bs" by (simp add: hex_string_def)
  have "utf8_lossy_nat [u, v] = hex_byte b" using ascii unfolding str h by (intro utf8_lossy_ascii) auto
  moreover have "char_boundary (u # v # hex_string bs)" "char_boundary (hex_string bs)"
    using ascii unfolding str by (auto simp: char_boundary_def is_cont_def split: list.splits)
  ultimately show ?case using Cons by (simp add: str from_str_radix_hex_byte)
qed (simp add: hex_string_def)

text \<open>The hexadecimal column: 49 characters wide, and its words are the bytes.\<close>

lemma dump_hex_words:
  "split_ws_aux [] (dump_hex j bs @ rest) = map hex_byte bs @ split_ws_aux [] rest"
proof (induction bs arbitrary: j)
  case (Cons b bs)
  have "list_all (\<lambda>c. \<not> is_whitespace c) (hex_byte b)"
    using unat_u8_lt [of b] by (simp add: hex_byte_def digit_not_space less_mult_imp_div_less)
  moreover have "hex_byte b \<noteq> []" by (simp add: hex_byte_def)
  ultimately show ?case
    using Cons split_ws_aux_word [of "hex_byte b" "[]"] by (simp add: is_whitespace_def)
qed simp

lemma spaces_words: "split_ws_aux [] (replicate n 32) = []"
  by (induction n) (simp_all add: is_whitespace_def)

lemma dump_hex_length: "length (dump_hex j bs) = 3 * length bs + (if j \<le> 7 \<and> 7 < j + length bs then 1 else 0)"
  by (induction j bs rule: dump_hex.induct) (auto simp: hex_byte_def)

lemma concat_replicates: "concat (map (\<lambda>j. replicate (f j) x) js) = replicate (sum_list (map f js)) x"
  by (induction js) (simp_all add: replicate_add)

lemma dump_pad_spaces:
  assumes "n \<le> 16"
  shows "dump_pad n = replicate (3 * (16 - n) + (if n \<le> 7 then 1 else 0)) 32"
proof -
  have "[32, 32, 32] @ (if n + j = 7 then [32] else []) = replicate (3 + (if n + j = 7 then 1 else 0)) (32 :: nat)" for j
    by (simp add: numeral_eq_Suc)
  then have "dump_pad n = replicate (sum_list (map (\<lambda>j. 3 + (if n + j = 7 then 1 else 0)) [0..<16 - n])) 32"
    unfolding dump_pad_def by (simp only: concat_replicates)
  moreover have "sum_list (map (\<lambda>j. 3 + (if n + j = 7 then 1 else 0)) [0..<m])
      = 3 * m + (if n \<le> 7 \<and> 7 < n + m then 1 else 0)" for m
    by (induction m) auto
  ultimately show ?thesis using assms by auto
qed

lemma dump_column:
  assumes "length bs \<le> 16"
  shows "length (dump_hex 0 bs @ dump_pad (length bs)) = 49"
    and "split_whitespace (dump_hex 0 bs @ dump_pad (length bs)) = map hex_byte bs"
  using assms by (auto simp: dump_hex_length dump_pad_spaces split_whitespace_def dump_hex_words spaces_words)

text \<open>
  What a dump must show: one line for every 16 bytes, with the address of its first byte, a
  column of 49 characters whose words are the bytes, and the text column.
\<close>

definition dump_shows :: "nat \<Rightarrow> bytes \<Rightarrow> rstr list \<Rightarrow> bool" where
  "dump_shows offset bs ls \<longleftrightarrow>
    length ls = (length bs + 15) div 16 \<and>
    (\<forall>k < length ls. \<exists>h.
       ls ! k = pad_zero 8 (show_radix 16 (offset + 16 * k)) @ [32, 32] @ h @ [32, 124]
         @ dump_ascii (slice (16 * k) (16 * k + 16) bs) @ [124]
       \<and> length h = 49 \<and> split_whitespace h = map hex_byte (slice (16 * k) (16 * k + 16) bs))"

lemma dump_line_shows:
  "\<exists>h. dump_line addr (take 16 bs) = (pad_zero 8 (show_radix 16 addr) @ [32, 32] @ h @ [32, 124]
      @ dump_ascii (slice 0 16 bs) @ [124]) @ [10]
    \<and> length h = 49 \<and> split_whitespace h = map hex_byte (slice 0 16 bs)"
  using dump_column [of "take 16 bs"] by (intro exI conjI) (simp_all add: dump_line_def slice_def)

lemma line_count: "0 < n \<Longrightarrow> (n + 15) div 16 = Suc ((n - 16 + 15) div 16)" for n :: nat
proof (cases "n \<le> 16")
  case True
  moreover assume "0 < n"
  ultimately have "(n + 15) div 16 = 1" by (intro div_nat_eqI) auto
  then show ?thesis using True by simp
next
  case False
  then show ?thesis using le_div_geq [of 16 "n + 15"] by simp
qed

lemma dump_lines_shows:
  "offset + 16 * i + length bs \<le> u64_max \<Longrightarrow>
    \<exists>ls. dump_lines offset i bs = Ok (concat (map (\<lambda>l. l @ [10]) ls)) \<and> dump_shows (offset + 16 * i) bs ls"
proof (induction offset i bs rule: dump_lines.induct)
  case (1 offset i bs)
  show ?case
  proof (cases "bs = []")
    case False
    obtain h where h: "dump_line (offset + i * 16) (take 16 bs) = (pad_zero 8 (show_radix 16 (offset + i * 16)) @ [32, 32] @ h
        @ [32, 124] @ dump_ascii (slice 0 16 bs) @ [124]) @ [10]" (is "_ = ?line @ _")
      "length h = 49" "split_whitespace h = map hex_byte (slice 0 16 bs)"
      using dump_line_shows by metis
    have pos: "0 < length bs" using False by simp
    have "offset + 16 * (i + 1) + length (drop 16 bs) \<le> u64_max \<or> drop 16 bs = []" using 1(2) by auto
    then obtain ls where ls: "dump_lines offset (i + 1) (drop 16 bs) = Ok (concat (map (\<lambda>l. l @ [10]) ls))"
      "dump_shows (offset + 16 * (i + 1)) (drop 16 bs) ls"
    proof
      assume "drop 16 bs = []"
      then show ?thesis
        using that [of "[]"] by (simp add: dump_lines.simps [of _ _ "[]"] dump_shows_def)
    qed (use 1 False in auto)
    have len: "(length bs + 15) div 16 = Suc ((length (drop 16 bs) + 15) div 16)"
      using pos by (simp add: line_count)
    have "dump_shows (offset + 16 * i) bs (?line # ls)"
      unfolding dump_shows_def
    proof (intro conjI allI impI)
      show "length (?line # ls) = (length bs + 15) div 16" using ls(2) len by (simp add: dump_shows_def)
    next
      fix k
      assume "k < length (?line # ls)"
      then show "\<exists>h. (?line # ls) ! k = pad_zero 8 (show_radix 16 (offset + 16 * i + 16 * k)) @ [32, 32] @ h @ [32, 124]
         @ dump_ascii (slice (16 * k) (16 * k + 16) bs) @ [124]
       \<and> length h = 49 \<and> split_whitespace h = map hex_byte (slice (16 * k) (16 * k + 16) bs)"
      proof (cases k)
        case 0
        then show ?thesis using h(2,3) by (intro exI [of _ h]) (simp add: mult.commute)
      next
        case (Suc m)
        then have "m < length ls" using \<open>k < length (?line # ls)\<close> by simp
        moreover have "slice (16 * m) (16 * m + 16) (drop 16 bs) = slice (16 * k) (16 * k + 16) bs"
          "offset + 16 * (i + 1) + 16 * m = offset + 16 * i + 16 * k"
          using Suc by (simp_all add: slice_def add.commute)
        ultimately show ?thesis using ls(2) Suc unfolding dump_shows_def by (metis nth_Cons_Suc)
      qed
    qed
    then show ?thesis
      using 1(2) False pos ls(1) h(1) by (intro exI [of _ "?line # ls"]) (simp add: dump_lines.simps [of offset i bs])
  qed (simp add: dump_lines.simps dump_shows_def)
qed

section \<open>An environment\<close>

text \<open>The sample image as the only file, found in the current directory.\<close>

definition sample_env :: "(Chunk list lru_list, bytes lru_list) env" where
  "sample_env =
    \<lparr>ev_tables = lru_list_ops, ev_pages = lru_list_ops, ev_externals = ref_externals, ev_threads = 2,
     ev_path = (\<lambda>s. \<lparr>p_parent = Some [], p_file = Some s\<rparr>), ev_files = (\<lambda>_. Ok sample_image),
     ev_is_file = (\<lambda>_. False), ev_globs = current_dir, ev_escape = id, ev_is_upper = (\<lambda>_. False),
     ev_create = (\<lambda>_. True), ev_write = (\<lambda>_ _ _. True), ev_error = (\<lambda>_. lit ''error''),
     ev_show = (\<lambda>_ v. case v of JNum n \<Rightarrow> show_radix 10 n | _ \<Rightarrow> lit ''value''), ev_pretty = (\<lambda>_. lit ''value'')\<rparr>"

definition sample_disk_reader :: "(Chunk list lru_list, bytes lru_list) EwfReader" where
  "sample_disk_reader =
    sample_reader (Eager sample_chunks) (lru_new lru_list_ops 100)\<lparr>rd_segments := [File sample_image]\<rparr>"

lemma sample_disk_open:
  "open_v1 lru_list_ops lru_list_ops ref_externals [File sample_image] 100 None = Ok sample_disk_reader"
  using sample_source_open [of lru_list_ops False 100 None] by (simp add: sample_disk_reader_def)

lemma sample_disk_intact: "intact ref_externals sample_disk_reader sample_pages"
  unfolding sample_disk_reader_def
  using sample_source_intact [where m = False, OF disjI1 [OF refl]] by (simp only: sample_source.simps)

lemma sample_disk_size: "rd_total_size sample_disk_reader = 8" "rd_chunk_size sample_disk_reader = 4"
  by (simp_all add: sample_disk_reader_def sample_reader_def)

lemma sample_disk_image: "media_image sample_disk_reader sample_pages = [10, 11, 12, 13, 14, 15, 16, 17]"
  using sample_disk_size by (simp add: media_image_def)

lemma sample_env_open: "ev_open sample_env (lit ''img.E01'') = Ok sample_disk_reader"
proof -
  have "probe_v2 (\<lambda>_. Ok sample_image) p = Ok False" for p :: path by code_simp
  moreover have "DEFAULT_LRU_SIZE = 100" by code_simp
  ultimately show ?thesis
    using sample_disk_open listing_misses_bare_name(2)
    by (simp add: ev_open_def sample_env_def open_path_def open_segments_def open_segments_with_cache_size_def)
qed

section \<open>Reading and verifying from the command line\<close>

text \<open>C31: \<open>ewf read\<close> on an intact image ends with the exit code 0 and prints the dump of exactly the
  bytes of the image from the offset, at most 4096 of them: every 16 bytes have a line with their
  address, a column of 49 characters whose words are the bytes in hexadecimal, and their text.
  Past the end of the image it prints nothing and ends with 1.
\<close>

theorem read_prints_the_image:
  fixes offset len :: nat
  assumes "lru_laws (ev_tables ev) viewS" and "lru_laws (ev_pages ev) viewP" and "ev_open ev path = Ok r0"
    and "open_v1 (ev_tables ev) (ev_pages ev) (ev_externals ev) sources cache_size k = Ok r0"
    and "intact (ev_externals ev) r0 pages" and "rd_total_size r0 < 2 ^ 63"
  shows "\<exists>ls. dump_shows offset (take (min len 4096) (drop offset (media_image r0 pages))) ls \<and>
    main version parse plain ev input (Read path offset len) =
      Some \<lparr>oc_exit = (if rd_total_size r0 \<le> offset then 1 else 0),
            oc_stdout = concat (map (\<lambda>l. l @ [10]) ls), oc_written = []\<rparr>"
proof (cases "rd_total_size r0 \<le> offset")
  case True
  then show ?thesis
    using length_image [OF assms(5)] assms(3)
    by (intro exI [of _ "[]"]) (simp add: dump_shows_def main_def run_read_sectors_def handle_ewf_read_sectors_def
        printed_def finish_def)
next
  case False
  let ?part = "take (min len 4096) (drop offset (media_image r0 pages))"
  have "offset + 16 * 0 + length ?part \<le> u64_max"
    using False assms(6) length_image [OF assms(5)] by (simp add: u64_max_def)
  then obtain ls where ls: "dump_lines offset 0 ?part = Ok (concat (map (\<lambda>l. l @ [10]) ls))" "dump_shows offset ?part ls"
    using dump_lines_shows [of offset 0 ?part] by auto
  have read: "run_read_sectors ev path offset (min len 4096) =
      Ok (JObj [(lit ''offset'', JNum offset), (lit ''length'', JNum (length ?part)), (lit ''hex'', json_hex ?part)])"
    using read_sectors_image [OF assms(1,2,4-6), of offset "min len 4096"] False assms(3)
    by (simp add: run_read_sectors_def)
  have keys: "lit ''hex'' \<noteq> lit ''offset''" "lit ''hex'' \<noteq> lit ''length''" by (simp_all add: lit_def)
  have "format_hex_dump (JObj [(lit ''offset'', JNum offset), (lit ''length'', JNum (length ?part)),
      (lit ''hex'', json_hex ?part)]) = Ok (concat (map (\<lambda>l. l @ [10]) ls))"
    using ls(1) keys by (simp add: format_hex_dump_def jindex_def jmember_def as_str_def as_u64_def unwrap_or_def
        encode_hex_string dump_bytes_hex_string del: lit_Cons)
  then show ?thesis
    using False read ls(2) by (intro exI [of _ ls]) (simp add: main_def printed_def finish_def)
qed

theorem read_prints_the_image_witness:
  "\<exists>ls. dump_shows 6 [16, 17] ls \<and>
    main (''1.0'') (\<lambda>_. Inl []) (\<lambda>_. True) sample_env [] (Read (lit ''img.E01'') 6 100) =
      Some \<lparr>oc_exit = 0, oc_stdout = concat (map (\<lambda>l. l @ [10]) ls), oc_written = []\<rparr>"
proof -
  have env: "ev_tables sample_env = lru_list_ops" "ev_pages sample_env = lru_list_ops" "ev_externals sample_env = ref_externals"
    by (simp_all add: sample_env_def)
  show ?thesis
    using read_prints_the_image [of sample_env, unfolded env, OF lru_list_laws lru_list_laws sample_env_open sample_disk_open
        sample_disk_intact, of 6 100 "''1.0''" "\<lambda>_. Inl []" "\<lambda>_. True" "[]"]
    by (simp add: sample_disk_size sample_disk_image del: lit_Cons)
qed

text \<open>C32: \<open>ewf verify\<close> on an intact image ends with 0 exactly when every digest stored in the image is the
  digest of its content, and with 2 otherwise; the text or JSON report is printed in both cases.
\<close>

theorem verify_exit:
  assumes "lru_laws (ev_tables ev) viewS" and "lru_laws (ev_pages ev) viewP" and "ev_open ev path = Ok r0"
    and "open_v1 (ev_tables ev) (ev_pages ev) (ev_externals ev) sources cache_size k = Ok r0"
    and "intact (ev_externals ev) r0 pages" and "length pages + batch_size (ev_threads ev) \<le> u64_max"
    and "rd_chunk_size r0 * length pages \<le> u64_max"
  shows "\<exists>out. main version parse plain ev input (Verify path json) = Some
    \<lparr>oc_exit = (if rd_stored_md5 r0 \<in> {None, Some (x_md5 (ev_externals ev) (media_image r0 pages))}
                  \<and> rd_stored_sha1 r0 \<in> {None, Some (x_sha1 (ev_externals ev) (media_image r0 pages))}
                then 0 else 2), oc_stdout = out, oc_written = []\<rparr>"
proof -
  let ?X = "ev_externals ev" and ?img = "media_image r0 pages"
  note rc = reader_caches_laws [OF assms(1,2)]
  obtain r' where v: "verify (ev_tables ev) ?X (ev_threads ev) r0 = (Ok \<lparr>vr_computed_md5 = x_md5 ?X ?img,
         vr_computed_sha1 = map_option (\<lambda>_. x_sha1 ?X ?img) (rd_stored_sha1 r0),
         vr_md5_match = map_option (\<lambda>s. s = x_md5 ?X ?img) (rd_stored_md5 r0),
         vr_sha1_match = map_option (\<lambda>s. s = x_sha1 ?X ?img) (rd_stored_sha1 r0),
         vr_addressable_bytes = rd_chunk_size r0 * length pages,
         vr_declared_bytes = rd_total_size r0\<rparr>, r')"
    using reader_caches.opened_verify [OF rc reader_caches.opened_inv [OF rc assms(4) reach_start] assms(5-7)] by blast
  have complete: "rd_total_size r0 \<le> rd_chunk_size r0 * length pages"
    using assms(5) by (simp add: intact_def mult.commute)
  show ?thesis
    using assms(3) complete
    by (auto simp: main_def run_verify_def handle_ewf_verify_def v finish_def bad_report_def jindex_def jmember_def
        as_bool_def json_opt_def unwrap_or_def is_complete_def lit_def split: option.splits)
qed

theorem verify_exit_witness:
  "\<exists>out. main ''1.0'' (\<lambda>_. Inl []) (\<lambda>_. True) sample_env [] (Verify (lit ''img.E01'') False) =
      Some \<lparr>oc_exit = 0, oc_stdout = out, oc_written = []\<rparr>"
proof -
  have env: "ev_tables sample_env = lru_list_ops" "ev_pages sample_env = lru_list_ops" "ev_externals sample_env = ref_externals"
      "ev_threads sample_env = 2" by (simp_all add: sample_env_def)
  have stored: "rd_stored_md5 sample_disk_reader = None" "rd_stored_sha1 sample_disk_reader = None"
    by (simp_all add: sample_disk_reader_def sample_reader_def)
  show ?thesis
    using verify_exit [of sample_env, unfolded env, OF lru_list_laws lru_list_laws sample_env_open sample_disk_open
        sample_disk_intact, of "''1.0''" "\<lambda>_. Inl []" "\<lambda>_. True" "[]" False]
    by (simp add: sample_disk_size stored batch_size_def sat_mul_def u64_max_def del: lit_Cons)
qed

section \<open>The paths of a listing\<close>

text \<open>Parents come before their children, so the walk to the root ends, whatever was collected before.\<close>

lemma path_names:
  assumes "wf_entries es" and "k < length es"
  shows "\<exists>ps. [] \<notin> set ps \<and> (\<forall>acc. path_parts es (Some k) acc = Some (Ok (acc @ ps)))"
  using assms(2)
proof (induction k rule: less_induct)
  case (less k)
  let ?e = "es ! k"
  let ?own = "if le_name ?e \<noteq> [] then [le_name ?e] else []"
  have step: "path_parts es (Some k) acc = path_parts es (le_parent ?e) (acc @ ?own)" for acc
    using less.prems by (subst path_parts.simps) (simp add: get_at_def)
  show ?case
  proof (cases "le_parent ?e")
    case None
    then show ?thesis using step by (intro exI [of _ ?own]) (simp add: path_parts.simps [of _ None])
  next
    case (Some p)
    then have "p < k" using assms(1) less.prems by (simp add: wf_entries_def)
    then obtain ps where "[] \<notin> set ps" "\<And>acc. path_parts es (Some p) acc = Some (Ok (acc @ ps))"
      using less.IH [of p] less.prems by auto
    then show ?thesis using step Some by (intro exI [of _ "?own @ ps"]) simp
  qed
qed

lemma join_with_snoc:
  "join_with c (xs @ [y]) = (if xs = [] then y else join_with c xs @ c # y)"
  by (induction c xs rule: join_with.induct) simp_all

lemma join_with_Nil_iff: "[] \<notin> set xs \<Longrightarrow> join_with c xs = [] \<longleftrightarrow> xs = []"
  by (induction c xs rule: join_with.induct) auto

lemma full_path_step:
  assumes "wf_entries es" and "i < length es"
  shows "\<exists>p. full_path es i = Some (Ok p) \<and>
    (case le_parent (es ! i) of
       None \<Rightarrow> p = le_name (es ! i)
     | Some k \<Rightarrow> k < i \<and> (\<exists>q. full_path es k = Some (Ok q) \<and>
         p = (if q = [] \<or> le_name (es ! i) = [] then q @ le_name (es ! i) else q @ 47 # le_name (es ! i))))"
proof -
  let ?e = "es ! i"
  let ?own = "if le_name ?e \<noteq> [] then [le_name ?e] else []"
  have step: "path_parts es (Some i) [] = path_parts es (le_parent ?e) ?own"
    using assms(2) by (subst path_parts.simps) (simp add: get_at_def)
  show ?thesis
  proof (cases "le_parent ?e")
    case None
    then show ?thesis using step by (simp add: full_path_def path_parts.simps [of _ None])
  next
    case (Some k)
    then have k: "k < i" using assms by (simp add: wf_entries_def)
    then obtain ps where ps: "[] \<notin> set ps" "\<And>acc. path_parts es (Some k) acc = Some (Ok (acc @ ps))"
      using path_names [OF assms(1), of k] assms(2) by auto
    moreover have "join_with 47 (rev ps) = [] \<longleftrightarrow> ps = []" using ps(1) by (simp add: join_with_Nil_iff)
    ultimately show ?thesis
      using step Some k by (simp add: full_path_def join_with_snoc)
  qed
qed

lemma ls_rows_returns:
  assumes "wf_entries es" and "set is \<subseteq> {..<length es}"
  shows "\<exists>rs. ls_rows plain json es is = Some (Ok rs)"
  using assms(2)
proof (induction "is")
  case (Cons i "is")
  then show ?case using full_path_step [OF assms(1), of i] by auto
qed simp

lemma report_eq_Ok [simp]: "report r = Ok x \<longleftrightarrow> r = Ok x"
  by (cases r) simp_all

lemma list_tree_returns: "list_tree plain X header body json summary \<noteq> None"
proof -
  have "\<exists>rs. ls_rows plain json (lt_entries tree) [0..<length (lt_entries tree)] = Some (Ok rs)"
    if "parse_entry_tree t = Ok tree" for t tree
    by (rule ls_rows_returns [OF parse_entry_tree_wf [OF that]]) auto
  then show ?thesis
    by (fastforce simp: list_tree_def split: prod.split result.split)
qed

text \<open>In the listing of a parsed tree every entry has a path, and the path of an entry below another one
  is the parent's path, a slash and the entry's name; an empty name adds nothing.
\<close>

theorem ls_paths:
  assumes "parse_entry_tree text = Ok tree" and "i < length (lt_entries tree)"
  shows "\<exists>p. full_path (lt_entries tree) i = Some (Ok p) \<and>
    (case le_parent (lt_entries tree ! i) of
       None \<Rightarrow> p = le_name (lt_entries tree ! i)
     | Some k \<Rightarrow> k < i \<and> (\<exists>q. full_path (lt_entries tree) k = Some (Ok q) \<and>
         p = (if q = [] \<or> le_name (lt_entries tree ! i) = [] then q @ le_name (lt_entries tree ! i)
              else q @ 47 # le_name (lt_entries tree ! i))))"
  using parse_entry_tree_wf [OF assms(1)] assms(2) by (rule full_path_step)

theorem ls_paths_witness:
  "\<exists>tree. parse_entry_tree sample_ltree = Ok tree \<and> full_path (lt_entries tree) 1 = Some (Ok (lit ''dir/a''))"
proof -
  obtain tree where t: "parse_entry_tree sample_ltree = Ok tree"
    "map (\<lambda>e. (le_name e, le_parent e, le_children e)) (lt_entries tree) =
      [(lit ''dir'', None, [1, 2]), (lit ''a'', Some 0, []), (lit ''b'', Some 0, []), (lit ''c'', None, [])]"
    using sample_ltree_parses by (auto simp: map_ok_eq_Ok)
  have len: "length (lt_entries tree) = 4" using arg_cong [OF t(2), of length] by (simp only: length_map) simp
  have "lt_entries tree ! 0 \<in> {e. le_name e = lit ''dir'' \<and> le_parent e = None}"
    "lt_entries tree ! 1 \<in> {e. le_name e = lit ''a'' \<and> le_parent e = Some 0}"
    using arg_cong [OF t(2), of "\<lambda>es. es ! 0"] arg_cong [OF t(2), of "\<lambda>es. es ! 1"] len by auto
  then show ?thesis
    using ls_paths [OF t(1), of 0] ls_paths [OF t(1), of 1] t(1) len by (simp add: lit_def)
qed

lemma finish_code:
  assumes "\<And>v. fst (f v) \<in> codes" and "1 \<in> codes" and "101 \<in> codes"
  shows "oc_exit (finish (map_ok f r)) \<in> codes"
proof (cases r)
  case (Ok v)
  then show ?thesis using assms(1) [of v] by (auto simp: finish_def split: prod.split)
qed (use assms in \<open>simp_all add: finish_def crashed_def\<close>)


text \<open>A tree that does not match its stored MD5 is listed with the exit code 0, as any other.\<close>

lemma ls_exit_ignores_integrity:
  assumes "find_ltree (ev_is_upper ev) (ev_is_file ev) (ev_externals ev) (ev_files ev) (ev_path ev path) = Ok (header, body)"
    and "parse_entry_tree (fst (decode_ltree_text body)) = Ok tree"
    and "sum_u64 0 (map le_size (filter (\<lambda>e. \<not> le_is_dir e) (lt_entries tree))) = Ok n"
  shows "\<exists>oc. main version parse plain ev input (Ls path json summary) = Some oc \<and> oc_exit oc = 0"
proof -
  obtain rs where "ls_rows plain json (lt_entries tree) [0..<length (lt_entries tree)] = Some (Ok rs)"
    using ls_rows_returns [OF parse_entry_tree_wf [OF assms(2)], of "[0..<length (lt_entries tree)]" plain json]
    by (auto simp: atLeast0LessThan)
  moreover obtain t replaced where "decode_ltree_text body = (t, replaced)" by fastforce
  ultimately show ?thesis
    using assms by (cases summary) (simp_all add: main_def handle_ls_def list_tree_def printed_def finish_def)
qed

section \<open>The JSON rows of a listing\<close>

text \<open>
  \<open>ewf ls --json\<close> writes its strings with Rust's \<open>{:?}\<close>. Inside the quotes this is what JSON reads
  back only as long as no escape of the other kinds is needed.
\<close>

definition json_safe :: "(nat \<Rightarrow> bool) \<Rightarrow> nat \<Rightarrow> bool" where
  "json_safe plain c \<longleftrightarrow> c \<in> {9, 10, 13, 34, 92} \<or> c \<noteq> 0 \<and> plain c"

lemma json_unescape_debug_char:
  assumes "\<And>c. plain c \<Longrightarrow> 32 \<le> c"
  shows "json_unescape (debug_char plain c @ rest) =
    (if json_safe plain c then map_option ((#) c) (json_unescape rest) else None)"
proof -
  have brace: "digits_value 16 0 [123, q, r, s] = None" for q r s
    by (simp add: to_digit_def Let_def)
  show ?thesis
  proof (cases "c = 0 \<or> json_safe plain c")
    case True
    then show ?thesis
      using assms [of c] by (auto simp: debug_char_def json_safe_def simple_escape_def lit_def)
  next
    case False
    then have "debug_char plain c @ rest = 92 # 117 # 123 # show_radix 16 c @ 125 # rest"
      by (auto simp: debug_char_def json_safe_def lit_def)
    then show ?thesis
      using False brace by (auto simp: json_safe_def simp del: digits_value.simps split: list.split)
  qed
qed

lemma json_unescape_debug:
  assumes "\<And>c. plain c \<Longrightarrow> 32 \<le> c"
  shows "json_unescape (concat (map (debug_char plain) s)) = (if list_all (json_safe plain) s then Some s else None)"
proof (induction s)
  case (Cons c s)
  then show ?case using json_unescape_debug_char [OF assms] by simp
qed simp



section \<open>The limits of the tools\<close>

lemma located_part:
  assumes "(case x of None \<Rightarrow> (Panic, s) | Some part \<Rightarrow> if b then (Panic, s) else f part) = (Ok y, s')"
  obtains part where "x = Some part" and "f part = (Ok y, s')"
  using assms by (auto split: option.splits if_splits)

lemma read_at_loop_length:
  "read_at_loop LS LP X r n off acc = (Ok bs, r') \<Longrightarrow> length acc \<le> n \<Longrightarrow> length bs \<le> n"
proof (induction "n - length acc" arbitrary: r off acc rule: less_induct)
  case less
  let ?cs = "rd_chunk_size r"
  let ?m = "min (min (?cs - off mod ?cs) (rd_total_size r - off)) (n - length acc)"
  note step = read_at_loop.simps [of LS LP X r n off acc]
  obtain res r1 where rc: "read_chunk LS LP X r (off div ?cs) = (res, r1)" by fastforce
  consider "?cs = 0 \<or> ?m = 0" | "\<forall>page. res \<noteq> Ok page" | page where "?cs \<noteq> 0" "?m \<noteq> 0" "res = Ok page"
    by blast
  then show ?case
  proof cases
    case 1
    with less.prems step show ?thesis by (auto simp: Let_def split: if_splits)
  next
    case 2
    with less.prems step rc show ?thesis
      by (cases res) (auto simp: Let_def split: if_splits)
  next
    case 3
    have "(case get_range page (off mod ?cs) (off mod ?cs + ?m) of
         None \<Rightarrow> (Panic, r1)
       | Some part \<Rightarrow> if u64_max < off + ?m then (Panic, r1)
                      else read_at_loop LS LP X r1 n (off + ?m) (acc @ part)) = (Ok bs, r')"
      using 3 rc less.prems(1) [unfolded step] by (simp only: Let_def if_False case_prod_conv result.case)
    then obtain part where part: "get_range page (off mod ?cs) (off mod ?cs + ?m) = Some part"
      "read_at_loop LS LP X r1 n (off + ?m) (acc @ part) = (Ok bs, r')"
      by (rule located_part)
    have len: "length part = ?m" using part(1) by (auto simp: get_range_def split: if_splits)
    have "?m \<le> n - length acc" "0 < ?m" using 3(2) by (simp_all only: min.cobounded2 neq0_conv)
    then have "length (acc @ part) \<le> n" "n - length (acc @ part) < n - length acc"
      using less.prems(2) unfolding length_append len by linarith+
    then show ?thesis using less.hyps part(2) by blast
  qed
qed

lemma reader_read_length: "reader_read LS LP X r n = (Ok bs, r') \<Longrightarrow> length bs \<le> n"
  using read_at_loop_length
  by (fastforce simp: reader_read_def reader_read_at_def split: prod.splits result.splits if_splits)

lemma reader_read_exact_length:
  "reader_read_exact LS LP X r n acc = Ok bs \<Longrightarrow> length acc \<le> n \<Longrightarrow> length bs = n"
proof (induction LS LP X r n acc rule: reader_read_exact.induct)
  case (1 LS LP X r n acc)
  show ?case
  proof (cases "n \<le> length acc")
    case False
    then obtain part r1 where "reader_read LS LP X r (n - length acc) = (Ok part, r1)" "part \<noteq> []"
      "reader_read_exact LS LP X r1 n (acc @ part) = Ok bs"
      using 1(2) by (auto simp: reader_read_exact.simps [of LS LP X r n acc] split: prod.splits result.splits if_splits)
    then show ?thesis using 1(1) [OF False] reader_read_length [of LS LP X r "n - length acc" part r1] False by simp
  qed (use 1(2,3) in \<open>simp add: reader_read_exact.simps\<close>)
qed

lemma scan_window_length:
  "length found < m \<Longrightarrow> length (scan_window pattern m window start is found) \<le> m"
  by (induction pattern m window start "is" found rule: scan_window.induct) (auto simp: Let_def)

lemma search_loop_length:
  "search_loop LS LP X pattern m image_len r off carried found = Ok out \<Longrightarrow> length found \<le> m \<Longrightarrow> length out \<le> m"
proof (induction "image_len - off" arbitrary: r off carried found rule: less_induct)
  case less
  note step = search_loop.simps [of LS LP X pattern m image_len r off carried found]
  show ?case
  proof (cases "off < image_len \<and> length found < m")
    case True
    obtain res r1 where rd: "reader_read LS LP X r (min SEARCH_BUF (image_len - off)) = (res, r1)" by fastforce
    show ?thesis
    proof (cases "res = Ok [] \<or> (\<forall>bs. res \<noteq> Ok bs)")
      case True
      with less.prems step \<open>off < image_len \<and> length found < m\<close> rd show ?thesis by (cases res) auto
    next
      case False
      then obtain bs where bs: "res = Ok bs" "bs \<noteq> []" by auto
      from less.prems(1) True rd bs obtain w st "is" c where
        rest: "search_loop LS LP X pattern m image_len r1 (off + length bs) c (scan_window pattern m w st is found) = Ok out"
        unfolding step Let_def by (auto split: if_splits)
      have "length (scan_window pattern m w st is found) \<le> m" using True by (simp add: scan_window_length)
      moreover have "image_len - (off + length bs) < image_len - off" using True bs(2) by (simp add: less_after_read)
      ultimately show ?thesis using less.hyps rest by blast
    qed
  qed (use less.prems step in \<open>simp split: if_splits\<close>)
qed

text \<open>An answer within the limits of the tool definitions, with true counts.\<close>

definition within_limits :: "json \<Rightarrow> bool" where
  "within_limits v \<longleftrightarrow>
    (case as_str (jindex v ''hex'') of
       None \<Rightarrow> True
     | Some h \<Rightarrow> length h \<le> 2 * 4096 \<and> as_u64 (jindex v ''length'') = Some (length h div 2)) \<and>
    (case as_array (jindex v ''matches'') of
       None \<Rightarrow> True
     | Some ms \<Rightarrow> length ms \<le> 100 \<and> as_u64 (jindex v ''total_found'') = Some (length ms))"

lemmas json_access = jindex_def jmember_def as_str_def as_u64_def as_array_def unwrap_or_def lit_def

lemma info_limits: "run_info ev path = Ok v \<Longrightarrow> within_limits v"
  by (auto simp: run_info_def handle_ewf_info_def map_ok_eq_Ok within_limits_def json_access)

lemma verify_limits: "run_verify ev path = Ok v \<Longrightarrow> within_limits v"
  by (auto simp: run_verify_def handle_ewf_verify_def and_then_eq_Ok map_ok_eq_Ok within_limits_def json_access)

lemma sections_limits:
  assumes "run_list_sections ev path = Ok v"
  shows "within_limits v"
proof -
  have "\<exists>rows. v = JObj [(lit ''sections'', JArr rows)]"
    using assms by (auto simp: run_list_sections_def handle_ewf_list_sections_def Let_def split: option.splits if_splits)
  then show ?thesis by (auto simp: within_limits_def json_access)
qed

lemma read_limits:
  assumes "run_read_sectors ev path offset (min n 4096) = Ok v"
  shows "within_limits v"
proof -
  from assms obtain avail r bs where
    "reader_read_exact (ev_tables ev) (ev_pages ev) (ev_externals ev) r (min (min n 4096) avail) [] = Ok bs"
    "v = JObj [(lit ''offset'', JNum offset), (lit ''length'', JNum (min (min n 4096) avail)), (lit ''hex'', json_hex bs)]"
    by (auto simp: run_read_sectors_def handle_ewf_read_sectors_def Let_def split: if_splits prod.splits)
  then show ?thesis
    using reader_read_exact_length [of _ _ _ r "min (min n 4096) avail" "[]" bs]
    by (simp add: within_limits_def json_access length_hex_string)
qed

lemma search_limits:
  assumes "run_search ev path pattern (min n 100) = Ok v"
  shows "within_limits v"
proof -
  from assms obtain r found image_len p where
    "search_loop (ev_tables ev) (ev_pages ev) (ev_externals ev) p (min n 100) image_len r 0 [] [] = Ok found"
    "v = JObj [(lit ''pattern'', JStr pattern), (lit ''matches'', JArr (map (\<lambda>off. JObj [(lit ''offset'', JNum off)]) found)),
               (lit ''total_found'', JNum (length found))]"
    by (auto simp: run_search_def handle_ewf_search_def split: if_splits prod.splits)
  then show ?thesis
    using search_loop_length [of _ _ _ p "min n 100" image_len r 0 "[]" "[]" found] by (simp add: within_limits_def json_access)
qed

lemma extract_limits:
  assumes "run_extract ev path offset n output = Ok (v, bs)"
  shows "within_limits v"
proof -
  have "\<exists>m. v = JObj [(lit ''offset'', JNum offset), (lit ''bytes_written'', JNum m), (lit ''output'', JStr output)]"
    using assms by (fastforce simp: run_extract_def handle_ewf_extract_def Let_def split: if_splits prod.splits)
  then show ?thesis by (auto simp: within_limits_def json_access)
qed

lemma dispatched_eq_Ok [simp]: "dispatched r = Ok x \<longleftrightarrow> r = Ok x"
  by (cases r) simp_all

text \<open>C35: whatever a request asks for, a tool's answer holds at most 4096 bytes and at most 100 matches, the
  counts it reports are those of the answer, and only the extraction writes a file, the one that
  was named.
\<close>

theorem tool_limits:
  assumes "dispatch_tool ev name args = Ok (v, w)"
  shows "within_limits v \<and>
    (case w of None \<Rightarrow> name \<noteq> lit ''ewf_extract''
     | Some (output, _) \<Rightarrow> name = lit ''ewf_extract'' \<and> arg_str args ''output'' = Ok output)"
proof -
  have names: "lit ''ewf_info'' \<noteq> lit ''ewf_extract''" "lit ''ewf_verify'' \<noteq> lit ''ewf_extract''"
    "lit ''ewf_read_sectors'' \<noteq> lit ''ewf_extract''" "lit ''ewf_list_sections'' \<noteq> lit ''ewf_extract''"
    "lit ''ewf_search'' \<noteq> lit ''ewf_extract''" by (simp_all add: lit_def)
  show ?thesis
    using assms info_limits verify_limits sections_limits read_limits search_limits extract_limits names
    by (auto simp: dispatch_tool_def plain_answer_def Let_def simp del: lit_Cons split: if_splits)
qed

text \<open>A request for 100 bytes, two before the end of the image.\<close>

definition sample_read_args :: json where
  "sample_read_args = JObj [(lit ''path'', JStr (lit ''img.E01'')), (lit ''offset'', JNum 6), (lit ''length'', JNum 100)]"

theorem tool_limits_witness:
  "\<exists>v. dispatch_tool sample_env (lit ''ewf_read_sectors'') sample_read_args = Ok (v, None) \<and> within_limits v"
proof -
  have env: "ev_tables sample_env = lru_list_ops" "ev_pages sample_env = lru_list_ops" "ev_externals sample_env = ref_externals"
    by (simp_all add: sample_env_def)
  have args: "arg_str sample_read_args ''path'' = Ok (lit ''img.E01'')" "arg_default sample_read_args ''offset'' 0 = 6"
    "arg_default sample_read_args ''length'' 512 = 100"
    by (simp_all add: arg_str_def arg_default_def sample_read_args_def json_access)
  have names: "lit ''ewf_read_sectors'' \<noteq> lit ''ewf_info''" "lit ''ewf_read_sectors'' \<noteq> lit ''ewf_verify''"
    by (simp_all add: lit_def)
  have "run_read_sectors sample_env (lit ''img.E01'') 6 100 = Ok (JObj [(lit ''offset'', JNum 6), (lit ''length'', JNum 2),
      (lit ''hex'', json_hex [16, 17])])"
    using read_sectors_image [OF lru_list_laws lru_list_laws sample_disk_open sample_disk_intact, of 6 100]
    by (simp add: run_read_sectors_def env sample_env_open sample_disk_size sample_disk_image del: lit_Cons)
  then obtain v where "dispatch_tool sample_env (lit ''ewf_read_sectors'') sample_read_args = Ok (v, None)"
    using args names by (auto simp: dispatch_tool_def plain_answer_def Let_def simp del: lit_Cons)
  then show ?thesis using tool_limits by blast
qed

section \<open>The server\<close>

text \<open>The response a line must get: none for an empty line and for the one known notification.\<close>

definition awaited :: "(rstr \<Rightarrow> rstr + json) \<Rightarrow> rstr \<Rightarrow> json list" where
  "awaited parse line =
    (if line = [] then []
     else case parse line of
            Inl _ \<Rightarrow> [JNull]
          | Inr req \<Rightarrow> if request_method req = lit ''notifications/initialized'' then [] else [request_id req])"

definition heard :: "(rstr option \<times> 'e) list \<Rightarrow> (rstr \<times> 'e) list" where
  "heard input = map (\<lambda>(l, ev). (the l, ev)) (takeWhile (\<lambda>(l, ev). l \<noteq> None) input)"

definition response_id :: "json \<Rightarrow> json" where
  "response_id v = jindex v ''id''"

lemma response_ids [simp]:
  "response_id (rpc_result v rid) = rid" "response_id (rpc_error c m rid) = rid"
  by (simp_all add: response_id_def rpc_result_def rpc_error_def json_access)

text \<open>The line is a tool call whose handler panics.\<close>

definition tool_panics :: "(rstr \<Rightarrow> rstr + json) \<Rightarrow> rstr \<times> ('s, 'p) env \<Rightarrow> bool" where
  "tool_panics parse lev = (case lev of (line, ev) \<Rightarrow>
    line \<noteq> [] \<and>
    (case parse line of
       Inl _ \<Rightarrow> False
     | Inr req \<Rightarrow> request_method req = lit ''tools/call''
         \<and> (case request_tool req of (n, args) \<Rightarrow> dispatch_tool ev n args = Panic)))"

lemma react_line_answer:
  "case react_line version parse ev line of
     Silent \<Rightarrow> awaited parse line = [] \<and> \<not> tool_panics parse (line, ev)
   | Reply v w \<Rightarrow> awaited parse line = [response_id v] \<and> \<not> tool_panics parse (line, ev)
   | Died \<Rightarrow> tool_panics parse (line, ev)"
proof -
  have meths: "lit ''initialize'' \<noteq> lit ''notifications/initialized''" "lit ''tools/list'' \<noteq> lit ''notifications/initialized''"
    "lit ''tools/call'' \<noteq> lit ''notifications/initialized''" "lit ''tools/call'' \<noteq> lit ''initialize''"
    "lit ''tools/call'' \<noteq> lit ''tools/list''" by (simp_all add: lit_def)
  show ?thesis
    using meths
    by (auto simp: react_line_def react_def awaited_def tool_panics_def call_result_def Let_def simp del: lit_Cons
        split: sum.split prod.split result.split option.split)
qed

lemma run_answers:
  "run version parse input = (out, ws, alive) \<Longrightarrow>
    map response_id out = concat (map (awaited parse \<circ> fst) (takeWhile (Not \<circ> tool_panics parse) (heard input)))
    \<and> (alive \<longleftrightarrow> list_all (Not \<circ> tool_panics parse) (heard input))"
proof (induction version parse input arbitrary: out ws alive rule: run.induct)
  case (3 version parse line ev rest)
  show ?case
    using 3 react_line_answer [where version = version and parse = parse and ev = ev and line = line]
    by (cases "react_line version parse ev line") (auto simp: heard_def split: prod.splits)
qed (simp_all add: heard_def)

text \<open>C33: the server answers every request with exactly one response that carries the request's id, in the order
  of the requests, text that is no JSON with the id null, and nothing else, up to the first request
  whose tool panics; when none does, all lines are answered and the server lives on.
\<close>

theorem server_answers:
  assumes "run version parse input = (out, ws, alive)"
  shows "map response_id out = concat (map (awaited parse \<circ> fst) (takeWhile (Not \<circ> tool_panics parse) (heard input)))
    \<and> (alive \<longleftrightarrow> list_all (Not \<circ> tool_panics parse) (heard input))"
  using assms by (rule run_answers)

text \<open>
  Any other message without an id, a JSON-RPC notification, is answered with an error whose id is
  null.
\<close>

lemma other_notification_answered:
  "react version ev (JObj [(lit ''method'', JStr (lit ''notifications/cancelled''))])
    = Reply (rpc_error ''-32601'' (lit ''Method not found: '' @ lit ''notifications/cancelled'') JNull) None"
  by (simp add: react_def request_method_def request_id_def json_access)

text \<open>
  A parser of the request texts below: an initialization, the notification after it, a search for
  a pattern with an accented letter, and a listing of the tools.
\<close>

definition sample_request :: "nat \<Rightarrow> string \<Rightarrow> json" where
  "sample_request n meth = JObj [(lit ''id'', JNum n), (lit ''method'', JStr (lit meth)),
     (lit ''params'', JObj [(lit ''name'', JStr (lit ''ewf_search'')),
       (lit ''arguments'', JObj [(lit ''path'', JStr (lit ''img.E01'')), (lit ''pattern'', JStr [97, 233, 98])])])]"

definition sample_parse :: "rstr \<Rightarrow> rstr + json" where
  "sample_parse line =
    (if line = lit ''i'' then Inr (sample_request 1 ''initialize'')
     else if line = lit ''n'' then Inr (sample_request 2 ''notifications/initialized'')
     else if line = lit ''s'' then Inr (sample_request 3 ''tools/call'')
     else if line = lit ''l'' then Inr (sample_request 4 ''tools/list'')
     else Inl line)"

definition sample_input :: "(rstr option \<times> (Chunk list lru_list, bytes lru_list) env) list" where
  "sample_input = map (\<lambda>l. (Some (lit l), sample_env)) [''i'', ''n'', ''?'', ''l'', ''s'', ''l'']"

lemma search_request_panics: "tool_panics sample_parse (lit ''s'', ev)"
proof -
  have tool: "request_tool (sample_request 3 ''tools/call'') = (lit ''ewf_search'',
      JObj [(lit ''path'', JStr (lit ''img.E01'')), (lit ''pattern'', JStr [97, 233, 98])])"
    by (simp add: request_tool_def sample_request_def json_access)
  have "dispatch_tool ev (lit ''ewf_search'') (JObj [(lit ''path'', JStr (lit ''img.E01'')), (lit ''pattern'', JStr [97, 233, 98])])
      = Panic"
    by (simp add: dispatch_tool_def arg_str_def json_access plain_answer_def run_search_def
        search_panics_inside_character)
  moreover have "sample_parse (lit ''s'') = Inr (sample_request 3 ''tools/call'')"
    "request_method (sample_request 3 ''tools/call'') = lit ''tools/call''"
    by (simp_all add: sample_parse_def request_method_def sample_request_def json_access)
  moreover have "lit ''s'' \<noteq> []" by (simp add: lit_def)
  ultimately show ?thesis unfolding tool_panics_def by (simp only: tool case_prod_conv sum.case not_False_eq_True simp_thms)
qed

theorem server_answers_witness:
  "\<exists>out ws. run ''1.0'' sample_parse sample_input = (out, ws, False)
    \<and> map response_id out = [JNum 1, JNull, JNum 4]"
proof -
  obtain out ws alive where r: "run ''1.0'' sample_parse sample_input = (out, ws, alive)" by (metis prod_cases3)
  have heard: "heard sample_input = map (\<lambda>l. (lit l, sample_env)) [''i'', ''n'', ''?'', ''l'', ''s'', ''l'']"
    by (simp add: heard_def sample_input_def)
  have calm: "\<not> tool_panics sample_parse (lit l, sample_env)" if "l \<in> {''i'', ''n'', ''?'', ''l''}" for l
    using that by (auto simp: tool_panics_def sample_parse_def request_method_def sample_request_def json_access)
  have ids: "awaited sample_parse (lit ''i'') = [JNum 1]" "awaited sample_parse (lit ''n'') = []"
    "awaited sample_parse (lit ''?'') = [JNull]" "awaited sample_parse (lit ''l'') = [JNum 4]"
    by (simp_all add: awaited_def sample_parse_def request_method_def request_id_def sample_request_def json_access)
  show ?thesis
    using server_answers [OF r] r calm search_request_panics [of sample_env] ids unfolding heard
    by (simp del: lit_Cons)
qed

end
