(* ===== verification/Cli_Replies.thy ===== *)
theory Cli_Replies
  imports Cli_Program
begin

text \<open>
  The types of the server's responses, \<open>cli/src/mcp.rs\<close>: a small type system for JSON values, the
  types that JSON-RPC and the Model Context Protocol give the messages, and the proof that every
  response is of the type its request asks for.
\<close>

section \<open>Types of JSON values\<close>

text \<open>
  \<open>Fields\<close> is an object with exactly these members in this order, \<open>Dict\<close> one with any members of
  one type.
\<close>

datatype json_type =
    AnyJson
  | BoolType bool
  | NumberType
  | StringType
  | Exactly rstr
  | ListOf json_type
  | Dict json_type
  | Fields "(rstr \<times> json_type) list"
  | Either json_type json_type

fun has_type :: "json_type \<Rightarrow> json \<Rightarrow> bool" and has_fields :: "(rstr \<times> json_type) list \<Rightarrow> (rstr \<times> json) list \<Rightarrow> bool" where
  "has_type AnyJson v = True"
| "has_type (BoolType b) v = (v = JBool b)"
| "has_type NumberType v = (case v of JNum n \<Rightarrow> True | JOtherNum s \<Rightarrow> True | _ \<Rightarrow> False)"
| "has_type StringType v = (case v of JStr s \<Rightarrow> True | _ \<Rightarrow> False)"
| "has_type (Exactly s) v = (v = JStr s)"
| "has_type (ListOf t) v = (case v of JArr vs \<Rightarrow> list_all (has_type t) vs | _ \<Rightarrow> False)"
| "has_type (Dict t) v = (case v of JObj ms \<Rightarrow> list_all (\<lambda>m. has_type t (snd m)) ms | _ \<Rightarrow> False)"
| "has_type (Fields fs) v = (case v of JObj ms \<Rightarrow> has_fields fs ms | _ \<Rightarrow> False)"
| "has_type (Either t u) v = (has_type t v \<or> has_type u v)"
| "has_fields [] ms = (ms = [])"
| "has_fields (f # fs) ms =
    (case ms of [] \<Rightarrow> False | m # ms' \<Rightarrow> fst m = fst f \<and> has_type (snd f) (snd m) \<and> has_fields fs ms')"

definition field :: "string \<Rightarrow> json_type \<Rightarrow> rstr \<times> json_type" where
  "field k t = (lit k, t)"

section \<open>The messages of the protocol\<close>

definition result_of :: "json_type \<Rightarrow> json_type" where
  "result_of t = Fields [field ''jsonrpc'' (Exactly (lit ''2.0'')), field ''result'' t, field ''id'' AnyJson]"

definition error_reply :: json_type where
  "error_reply = Fields [field ''jsonrpc'' (Exactly (lit ''2.0'')),
     field ''error'' (Fields [field ''code'' NumberType, field ''message'' StringType]), field ''id'' AnyJson]"

definition initialize_reply :: json_type where
  "initialize_reply = result_of (Fields [field ''protocolVersion'' StringType,
     field ''capabilities'' (Fields [field ''tools'' (Dict AnyJson)]),
     field ''serverInfo'' (Fields [field ''name'' StringType, field ''version'' StringType])])"

definition parameter_type :: json_type where
  "parameter_type = Fields [field ''type'' (Either (Exactly (lit ''string'')) (Exactly (lit ''integer''))),
     field ''description'' StringType]"

definition tool_type :: json_type where
  "tool_type = Fields [field ''name'' StringType, field ''description'' StringType,
     field ''inputSchema'' (Fields [field ''type'' (Exactly (lit ''object'')),
       field ''properties'' (Dict parameter_type), field ''required'' (ListOf StringType)])]"

definition tools_reply :: json_type where
  "tools_reply = result_of (Fields [field ''tools'' (ListOf tool_type)])"

definition content_type :: "rstr \<times> json_type" where
  "content_type = field ''content'' (ListOf (Fields [field ''type'' (Exactly (lit ''text'')), field ''text'' StringType]))"

definition call_reply :: json_type where
  "call_reply = Either (result_of (Fields [content_type]))
     (result_of (Fields [content_type, field ''isError'' (BoolType True)]))"

text \<open>The types of the responses that a line asks for, one for each response.\<close>

definition reply_types :: "(rstr \<Rightarrow> rstr + json) \<Rightarrow> rstr \<Rightarrow> json_type list" where
  "reply_types parse line =
    (if line = [] then []
     else case parse line of
            Inl _ \<Rightarrow> [error_reply]
          | Inr req \<Rightarrow>
              (let meth = request_method req
               in if meth = lit ''initialize'' then [initialize_reply]
                  else if meth = lit ''notifications/initialized'' then []
                  else if meth = lit ''tools/list'' then [tools_reply]
                  else if meth = lit ''tools/call'' then [call_reply]
                  else [error_reply]))"

section \<open>Every response has its type\<close>

lemma error_typed: "has_type error_reply (rpc_error c m rid)"
  by (simp add: error_reply_def rpc_error_def field_def json_text_def)

lemma result_typed: "has_type t v \<Longrightarrow> has_type (result_of t) (rpc_result v rid)"
  by (simp add: result_of_def rpc_result_def field_def json_text_def)

lemma initialize_typed: "has_type initialize_reply (rpc_result (initialize_result version) rid)"
  unfolding initialize_reply_def by (rule result_typed) (simp add: initialize_result_def field_def json_text_def)

lemma property_typed:
  "has_type parameter_type (snd (tool_property n ''string'' d))"
  "has_type parameter_type (snd (tool_property n ''integer'' d))"
  by (simp_all add: parameter_type_def tool_property_def field_def json_text_def)

lemma path_property_typed: "has_type parameter_type (snd path_property)"
  by (simp add: path_property_def property_typed)

lemma tool_typed:
  "list_all (\<lambda>p. has_type parameter_type (snd p)) ps \<Longrightarrow> has_type tool_type (tool_definition n d ps rs)"
  by (simp add: tool_type_def tool_definition_def field_def json_text_def list_all_iff)

lemma tools_typed: "has_type tools_reply (rpc_result (JObj [(lit ''tools'', tool_definitions)]) rid)"
proof -
  have "has_type (ListOf tool_type) tool_definitions"
    unfolding tool_definitions_def has_type.simps(6) json.case list.pred_inject
    by (intro conjI TrueI tool_typed) (simp_all only: list.pred_inject property_typed path_property_typed simp_thms)
  then show ?thesis unfolding tools_reply_def by (intro result_typed) (simp add: field_def)
qed

lemma call_typed: "call_result ev rid r = Some (v, w) \<Longrightarrow> has_type call_reply v"
  by (cases r) (auto simp: call_result_def call_reply_def content_type_def field_def json_text_def text_content_def
      intro!: result_typed split: prod.splits)

lemma react_line_typed:
  "case react_line version parse ev line of
     Silent \<Rightarrow> reply_types parse line = [] \<and> \<not> tool_panics parse (line, ev)
   | Reply v w \<Rightarrow> (\<exists>t. reply_types parse line = [t] \<and> has_type t v) \<and> \<not> tool_panics parse (line, ev)
   | Died \<Rightarrow> tool_panics parse (line, ev)"
proof -
  have meths: "lit ''initialize'' \<noteq> lit ''notifications/initialized''" "lit ''tools/list'' \<noteq> lit ''notifications/initialized''"
    "lit ''tools/call'' \<noteq> lit ''notifications/initialized''" "lit ''tools/call'' \<noteq> lit ''initialize''"
    "lit ''tools/call'' \<noteq> lit ''tools/list''" "lit ''tools/list'' \<noteq> lit ''initialize''" by (simp_all add: lit_def)
  have died: "(call_result ev rid r = None) = (r = Panic)" "(None = call_result ev rid r) = (r = Panic)" "call_result ev rid Panic = None" for rid and r :: "(json \<times> written) dispatched"
    by (cases r; simp add: call_result_def split: prod.split)+
  show ?thesis
    using meths
    by (auto simp: react_line_def react_def reply_types_def tool_panics_def died Let_def error_typed initialize_typed
        tools_typed dest: call_typed simp del: lit_Cons has_type.simps
        split: sum.split prod.split option.split)
qed

lemma run_typed:
  "run version parse input = (out, ws, alive) \<Longrightarrow>
    list_all2 has_type (concat (map (reply_types parse \<circ> fst) (takeWhile (Not \<circ> tool_panics parse) (heard input)))) out"
proof (induction version parse input arbitrary: out ws alive rule: run.induct)
  case (3 version parse line ev rest)
  show ?case
    using 3 react_line_typed [where version = version and parse = parse and ev = ev and line = line]
    by (cases "react_line version parse ev line") (auto simp: heard_def split: prod.splits)
qed (simp_all add: heard_def)



end
