(* ===== verification/Integrity_Header.thy ===== *)
theory Integrity_Header
  imports Integrity
begin

text \<open>
  The acquisition metadata that the analyser reads from the \<open>header\<close> section of a segment:
  \<open>header_metadata\<close>, \<open>parse_header_section\<close> and \<open>parse_header_text\<close> of
  \<open>forensic/src/integrity.rs\<close>. Its keys are not those of the reader's parser in
  \<open>Header_Parse\<close>.
\<close>

section \<open>Definitions\<close>

definition header_metadata_empty :: EwfHeaderMetadata where
  "header_metadata_empty = \<lparr>hm_description = [], hm_case_number = [], hm_evidence_number = [],
     hm_examiner_name = [], hm_acquisition_date = [], hm_system_date = [], hm_password_hash = [],
     hm_acquisition_software = []\<rparr>"

definition set_header_field :: "rstr \<Rightarrow> rstr \<Rightarrow> EwfHeaderMetadata \<Rightarrow> EwfHeaderMetadata" where
  "set_header_field key val m =
    (if key = lit ''a'' then m\<lparr>hm_description := val\<rparr>
     else if key = lit ''c'' then m\<lparr>hm_case_number := val\<rparr>
     else if key = lit ''e'' then m\<lparr>hm_evidence_number := val\<rparr>
     else if key = lit ''t'' then m\<lparr>hm_examiner_name := val\<rparr>
     else if key = lit ''m'' then m\<lparr>hm_acquisition_date := val\<rparr>
     else if key = lit ''u'' then m\<lparr>hm_system_date := val\<rparr>
     else if key = lit ''p'' then m\<lparr>hm_password_hash := val\<rparr>
     else if key = lit ''r'' then m\<lparr>hm_acquisition_software := val\<rparr>
     else m)"

text \<open>The loop over the keys, each with the value at its position or an empty one.\<close>

fun set_header_fields :: "rstr list \<Rightarrow> rstr list \<Rightarrow> EwfHeaderMetadata \<Rightarrow> EwfHeaderMetadata" where
  "set_header_fields [] vals m = m"
| "set_header_fields (key # keys) vals m =
    (case vals of
       v # vs \<Rightarrow> set_header_fields keys vs (set_header_field key v m)
     | [] \<Rightarrow> set_header_fields keys [] (set_header_field key [] m))"

definition parse_acquisition_text :: "rstr \<Rightarrow> EwfHeaderMetadata option" where
  "parse_acquisition_text contents =
    (let ls = filter (\<lambda>l. l \<noteq> []) (map (trim_end_matches 13) (lines contents))
     in if length ls < 4 then None
        else Some (set_header_fields (split_on 9 (ls ! 2)) (split_on 9 (ls ! 3)) header_metadata_empty))"

definition parse_header_section :: "externals \<Rightarrow> bytes \<Rightarrow> EwfHeaderMetadata option" where
  "parse_header_section X data =
    (if length data < FILE_HEADER_SIZE + SECTION_DESCRIPTOR_SIZE then None
     else
       let desc_off = FILE_HEADER_SIZE
       in Option.bind (ok (descriptor_parse X (drop desc_off data) desc_off)) (\<lambda>desc.
            if sd_type desc \<noteq> lit ''header'' then None
            else
              let body_start = sat_add desc_off SECTION_DESCRIPTOR_SIZE;
                  body_end = min (sat_add desc_off (unat (sd_size desc))) (length data)
              in if body_end \<le> body_start then None
                 else Option.bind (x_zlib_read_to_end X (slice body_start body_end data) None) (\<lambda>raw.
                      Option.bind (from_utf8 raw) parse_acquisition_text)))"

fun header_metadata_of :: "externals \<Rightarrow> bytes list \<Rightarrow> EwfHeaderMetadata option" where
  "header_metadata_of X [] = None"
| "header_metadata_of X (data # segments) =
    (case parse_header_section X data of
       Some meta \<Rightarrow> Some meta
     | None \<Rightarrow> header_metadata_of X segments)"

definition header_metadata :: "externals \<Rightarrow> EwfIntegrity \<Rightarrow> EwfHeaderMetadata option" where
  "header_metadata X s = header_metadata_of X (in_segments s)"

section \<open>The text as it is written\<close>

definition header_keys :: "rstr list" where
  "header_keys = [lit ''a'', lit ''c'', lit ''e'', lit ''t'', lit ''m'', lit ''u'', lit ''p'', lit ''r'']"

definition header_values :: "EwfHeaderMetadata \<Rightarrow> rstr list" where
  "header_values m = [hm_description m, hm_case_number m, hm_evidence_number m, hm_examiner_name m,
     hm_acquisition_date m, hm_system_date m, hm_password_hash m, hm_acquisition_software m]"

definition write_header :: "rstr \<Rightarrow> EwfHeaderMetadata \<Rightarrow> rstr" where
  "write_header eol m =
    lit ''1'' @ eol @ lit ''main'' @ eol @ join_with 9 header_keys @ eol @ join_with 9 (header_values m) @ eol"

text \<open>A field that fits on its line: ASCII, no tab and no line ending.\<close>

definition plain_field :: "rstr \<Rightarrow> bool" where
  "plain_field v \<longleftrightarrow> list_all (\<lambda>c. c < 128 \<and> c \<noteq> 9 \<and> c \<noteq> 10 \<and> c \<noteq> 13) v"

section \<open>Lemmas\<close>

lemma set_header_fields_values:
  "set_header_fields header_keys (header_values m) header_metadata_empty = m"
  by (simp add: header_keys_def header_values_def header_metadata_empty_def set_header_field_def lit_def)

text \<open>A text of lines that are ended alike gives the lines.\<close>

lemma strip_cr_line: "eol = [10] \<or> eol = [13, 10] \<Longrightarrow> 13 \<notin> set l \<Longrightarrow> strip_cr (l @ butlast eol) = l"
  by (cases l rule: rev_cases) (auto simp: strip_cr_def butlast_append)

lemma split_lines:
  assumes "eol = [10] \<or> eol = [13, 10]" and "list_all (\<lambda>l. 10 \<notin> set l) ls"
  shows "split_on 10 (concat (map (\<lambda>l. l @ eol) ls)) = map (\<lambda>l. l @ butlast eol) ls @ [[]]"
  using assms(2)
proof (induction ls)
  case (Cons l ls)
  have "split_on 10 ((l @ butlast eol) @ 10 # rest) = (l @ butlast eol) # split_on 10 rest" for rest
    using assms(1) Cons.prems by (intro split_on_append) auto
  moreover have "(l @ butlast eol) @ 10 # rest = l @ eol @ rest" for rest using assms(1) by auto
  ultimately have "split_on 10 (l @ eol @ rest) = (l @ butlast eol) # split_on 10 rest" for rest by metis
  then show ?case using Cons by simp
qed simp

lemma lines_written:
  assumes "eol = [10] \<or> eol = [13, 10]" and "list_all (\<lambda>l. 10 \<notin> set l \<and> 13 \<notin> set l) ls"
  shows "lines (concat (map (\<lambda>l. l @ eol) ls)) = ls"
proof -
  have "map (\<lambda>l. strip_cr (l @ butlast eol)) ls = ls"
    using assms by (intro map_idI strip_cr_line) (auto simp: list_all_iff)
  then show ?thesis
    using split_lines [of eol ls] assms by (simp add: lines_def Let_def comp_def list_all_iff)
qed

lemma join_with_set: "x \<in> set (join_with c ps) \<Longrightarrow> x = c \<or> (\<exists>p \<in> set ps. x \<in> set p)"
  by (induction c ps rule: join_with.induct) auto

lemma parse_written_header:
  assumes "eol = [10] \<or> eol = [13, 10]" and "list_all plain_field (header_values m)"
  shows "parse_acquisition_text (write_header eol m) = Some m"
proof -
  let ?ls = "[lit ''1'', lit ''main'', join_with 9 header_keys, join_with 9 (header_values m)]"
  have form: "write_header eol m = concat (map (\<lambda>l. l @ eol) ?ls)" by (simp add: write_header_def)
  have vals: "list_all (\<lambda>v. 9 \<notin> set v \<and> 10 \<notin> set v \<and> 13 \<notin> set v) (header_values m)"
    using assms(2) by (auto simp: plain_field_def list_all_iff)
  have keys: "list_all (\<lambda>v. 9 \<notin> set v \<and> 10 \<notin> set v \<and> 13 \<notin> set v) header_keys"
    by (simp add: header_keys_def lit_def)
  have clean: "list_all (\<lambda>l. 10 \<notin> set l \<and> 13 \<notin> set l) ?ls"
    using vals keys by (auto simp: list_all_iff lit_def dest!: join_with_set)
  have some: "header_keys \<noteq> []" "header_values m \<noteq> []" by (simp_all add: header_keys_def header_values_def)
  have joined_nonempty: "join_with 9 header_keys \<noteq> []" "join_with 9 (header_values m) \<noteq> []"
    by (simp_all add: header_keys_def header_values_def)
  have nonempty: "l \<noteq> []" "trim_end_matches 13 l = l" if "l \<in> set ?ls" for l
  proof -
    show "l \<noteq> []" using that joined_nonempty by auto
    have "13 \<notin> set l" using clean that unfolding list_all_iff by blast
    then show "trim_end_matches 13 l = l" by (cases l rule: rev_cases) (auto simp: trim_end_matches_def)
  qed
  then have "map (trim_end_matches 13) ?ls = ?ls" by (intro map_idI) blast
  moreover have "filter (\<lambda>l. l \<noteq> []) ?ls = ?ls" using nonempty(1) by (intro filter_True) blast
  moreover have "split_on 9 (join_with 9 header_keys) = header_keys"
    "split_on 9 (join_with 9 (header_values m)) = header_values m"
    by (rule split_on_join [OF some(1)], use keys in \<open>auto simp: list_all_iff\<close>)
      (rule split_on_join [OF some(2)], use vals in \<open>auto simp: list_all_iff\<close>)
  ultimately show ?thesis
    unfolding parse_acquisition_text_def form lines_written [OF assms(1) clean]
    by (simp add: set_header_fields_values)
qed

lemma write_header_ascii:
  assumes "eol = [10] \<or> eol = [13, 10]" and "list_all plain_field (header_values m)"
  shows "list_all (\<lambda>c. c < 128) (write_header eol m)"
proof -
  have "c < 128" if "c \<in> set (join_with 9 ps)" "\<forall>p \<in> set ps. \<forall>c \<in> set p. c < 128" for c ps
    using that join_with_set [of c 9 ps] by auto
  moreover have "\<forall>p \<in> set (header_values m). \<forall>c \<in> set p. c < 128"
    using assms(2) by (auto simp: list_all_iff plain_field_def)
  moreover have "\<forall>p \<in> set header_keys. \<forall>c \<in> set p. c < 128" by (simp add: header_keys_def lit_def)
  ultimately show ?thesis using assms(1) by (auto simp: write_header_def list_all_iff lit_def)
qed

lemma from_utf8_written:
  assumes "eol = [10] \<or> eol = [13, 10]" and "list_all plain_field (header_values m)"
  shows "from_utf8 (map of_nat (write_header eol m)) = Some (write_header eol m)"
proof -
  have "map unat (map of_nat (write_header eol m) :: bytes) = write_header eol m"
    using write_header_ascii [OF assms] by (auto simp: list_all_iff unsigned_of_nat take_bit_nat_eq_self intro!: map_idI)
  then show ?thesis using from_utf8_nat_ascii [OF write_header_ascii [OF assms]] by (simp add: from_utf8_def)
qed

section \<open>Properties\<close>



end
