(* ===== verification/Written_Image.thy ===== *)
theory Written_Image
  imports Reader_Sessions No_Panic
begin

text \<open>
  The image an acquisition tool writes for given chunks, after the layouts that the doc comments
  of \<open>core/src/sections.rs\<close> tabulate: a file header, a volume section with its checksum, a sectors
  section with the stored chunks, a table, a hash section and a done section, one after the other.
  The stored bytes of a chunk are a compressed stream or a page with a checksum; they may be damaged. This is
  specification, not code of the repository: it is what the readers of the repository are run
  on in the theorems about whole images.
\<close>

section \<open>The writer\<close>

record acquisition =
  aq_spc :: nat
  aq_bps :: nat
  aq_sectors :: nat
  aq_chunks :: "(bool \<times> bytes) list"
  aq_md5 :: bytes

definition ascii :: "string \<Rightarrow> bytes" where
  "ascii s = map of_nat (lit s)"

definition chunk_area :: "(bool \<times> bytes) list \<Rightarrow> bytes" where
  "chunk_area chs = concat (map snd chs)"

text \<open>Where the chunks lie when the first one starts at \<open>off\<close>.\<close>

fun places :: "nat \<Rightarrow> (bool \<times> bytes) list \<Rightarrow> (bool \<times> nat) list" where
  "places off [] = []"
| "places off (ch # chs) = (fst ch, off) # places (off + length (snd ch)) chs"

text \<open>A descriptor with its checksum.\<close>

definition sealed_descriptor :: "externals \<Rightarrow> string \<Rightarrow> nat \<Rightarrow> nat \<Rightarrow> bytes" where
  "sealed_descriptor X t nxt sz =
    (let d = encode_descriptor (ascii t) (of_nat nxt) (of_nat sz)
     in d (adler32 X (take 72 (d 0))))"

definition volume_front :: "acquisition \<Rightarrow> bytes" where
  "volume_front a = [1, 0, 0, 0] @ to_le 4 (length (aq_chunks a)) @ to_le 4 (aq_spc a) @ to_le 4 (aq_bps a)
     @ to_le 8 (aq_sectors a) @ replicate 1024 0"

definition volume_body :: "externals \<Rightarrow> acquisition \<Rightarrow> bytes" where
  "volume_body X a = volume_front a @ to_le 4 (unat (adler32 X (volume_front a)))"

definition table_head :: "externals \<Rightarrow> acquisition \<Rightarrow> bytes" where
  "table_head X a =
    (let h = encode_table_header (of_nat (length (aq_chunks a))) 0
     in h (adler32 X (take 16 (h 0))))"

text \<open>The positions of the sections. The volume lies at 13, the sectors at 1141.\<close>

abbreviation (input) AREA_START :: nat where "AREA_START \<equiv> 1217"

definition table_pos :: "acquisition \<Rightarrow> nat" where
  "table_pos a = AREA_START + length (chunk_area (aq_chunks a))"

definition hash_pos :: "acquisition \<Rightarrow> nat" where
  "hash_pos a = table_pos a + 100 + 4 * length (aq_chunks a)"

definition image_parts :: "externals \<Rightarrow> acquisition \<Rightarrow> bytes list" where
  "image_parts X a =
    [EVF_SIGNATURE @ [1, 1, 0, 0, 0],
     sealed_descriptor X ''volume'' 1141 1128, volume_body X a,
     sealed_descriptor X ''sectors'' (table_pos a) (76 + length (chunk_area (aq_chunks a))),
     chunk_area (aq_chunks a),
     sealed_descriptor X ''table'' (hash_pos a) (100 + 4 * length (aq_chunks a)), table_head X a,
     encode_table_entries (places AREA_START (aq_chunks a)),
     sealed_descriptor X ''hash'' (hash_pos a + 92) 92, aq_md5 a,
     sealed_descriptor X ''done'' (hash_pos a + 92) 76]"

definition write_image :: "externals \<Rightarrow> acquisition \<Rightarrow> bytes" where
  "write_image X a = concat (image_parts X a)"

section \<open>What makes an acquisition writable\<close>

text \<open>
  The contract of a decoder over the compressed form \<open>z\<close> of \<open>page\<close>: each \<open>read\<close> continues where
  the last one stopped and returns at least one byte of what is left when there is room for one;
  \<open>take(k).read_to_end\<close> returns the first \<open>k\<close> bytes.
\<close>

definition inflates :: "externals \<Rightarrow> bytes \<Rightarrow> bytes \<Rightarrow> bool" where
  "inflates X z page \<longleftrightarrow>
    (\<exists>pos. pos [] = 0 \<and>
      (\<forall>hist n. \<exists>k \<le> n. x_zlib_read X z hist n = Some (take k (drop (pos hist) page))
         \<and> pos (hist @ [n]) = pos hist + k \<and> pos (hist @ [n]) \<le> length page
         \<and> (0 < n \<and> pos hist < length page \<longrightarrow> 0 < k))) \<and>
    (\<forall>k. x_zlib_read_to_end X z (Some k) = Some (take k page))"

text \<open>
  What the stored bytes of a chunk are: those of a page; a page with a checksum that is not its
  own; a compressed stream that the decoder refuses.
\<close>

datatype chunk_state = Sound bytes | WrongSum bytes u32 | Garbled

fun stores :: "externals \<Rightarrow> nat \<Rightarrow> bool \<times> bytes \<Rightarrow> chunk_state \<Rightarrow> bool" where
  "stores X cs (c, raw) (Sound page) \<longleftrightarrow>
    length page = cs \<and> (if c then inflates X raw page else raw = page @ to_le 4 (unat (adler32 X page)))"
| "stores X cs (c, raw) (WrongSum page crc) \<longleftrightarrow>
    length page = cs \<and> \<not> c \<and> raw = page @ to_le 4 (unat crc) \<and> crc \<noteq> adler32 X page"
| "stores X cs (c, raw) Garbled \<longleftrightarrow> c \<and> (\<forall>k. x_zlib_read_to_end X raw (Some k) = None)"

text \<open>A compressed chunk is not longer than a page, as a tool stores a longer one uncompressed.\<close>

definition well_sized :: "nat \<Rightarrow> bool \<times> bytes \<Rightarrow> bool" where
  "well_sized cs ch \<longleftrightarrow>
    (if fst ch then 0 < length (snd ch) \<and> length (snd ch) \<le> cs else length (snd ch) = cs + 4)"

definition writable :: "externals \<Rightarrow> acquisition \<Rightarrow> chunk_state list \<Rightarrow> bool" where
  "writable X a states \<longleftrightarrow>
    0 < aq_spc a \<and> 0 < aq_bps a \<and> aq_spc a * aq_bps a \<le> MAX_CHUNK_SIZE \<and>
    length (aq_chunks a) \<le> MAX_TABLE_ENTRIES \<and>
    0 < aq_sectors a \<and> aq_sectors a \<le> length (aq_chunks a) * aq_spc a \<and>
    table_pos a < 2 ^ 31 \<and> length (aq_md5 a) = 16 \<and>
    list_all (well_sized (aq_spc a * aq_bps a)) (aq_chunks a) \<and>
    list_all2 (stores X (aq_spc a * aq_bps a)) (aq_chunks a) states"

text \<open>What a reader makes of a chunk; zeros stand for what is lost.\<close>

fun state_page :: "nat \<Rightarrow> chunk_state \<Rightarrow> bytes" where
  "state_page cs (Sound page) = page"
| "state_page cs (WrongSum page crc) = page"
| "state_page cs Garbled = replicate cs 0"

text \<open>The media, and the media as they were acquired when no chunk is damaged.\<close>

definition acquired :: "acquisition \<Rightarrow> chunk_state list \<Rightarrow> bytes" where
  "acquired a states =
    take (aq_sectors a * aq_bps a) (concat (map (state_page (aq_spc a * aq_bps a)) states))"

lemma length_state_page: "stores X cs ch s \<Longrightarrow> length (state_page cs s) = cs"
  by (cases "(X, cs, ch, s)" rule: stores.cases) auto

lemma states_length: "list_all2 (stores X cs) chs states \<Longrightarrow> s \<in> set states \<Longrightarrow> length (state_page cs s) = cs"
  by (induction rule: list_all2_induct) (auto simp: length_state_page)

text \<open>The two ways a chunk is stored.\<close>

lemma stores_plain:
  assumes "stores X cs ch s" and "\<not> fst ch"
  obtains crc where "snd ch = state_page cs s @ to_le 4 (unat crc)"
    and "s = (if crc = adler32 X (state_page cs s) then Sound (state_page cs s) else WrongSum (state_page cs s) crc)"
  using assms by (cases "(X, cs, ch, s)" rule: stores.cases) auto

lemma stores_compressed:
  assumes "stores X cs ch s" and "fst ch"
  obtains "s = Garbled" and "\<And>k. x_zlib_read_to_end X (snd ch) (Some k) = None"
  | "s = Sound (state_page cs s)" and "inflates X (snd ch) (state_page cs s)"
  using assms by (cases "(X, cs, ch, s)" rule: stores.cases) auto

section \<open>Parts of the image\<close>

lemma ascii_lits [simp]:
  "length (ascii s) = length s"
  by (simp add: ascii_def lit_def)

lemma length_sealed [simp]: "length t \<le> 16 \<Longrightarrow> length (sealed_descriptor X t nxt sz) = 76"
  by (simp add: sealed_descriptor_def length_encode_descriptor Let_def)

lemma length_volume_body [simp]: "length (volume_body X a) = 1052"
  by (simp add: volume_body_def volume_front_def)

lemma length_table_head [simp]: "length (table_head X a) = 24"
  by (simp add: table_head_def encode_table_header_def Let_def)

lemma length_places [simp]: "length (places off chs) = length chs"
  by (induction chs arbitrary: off) simp_all

lemma length_signature [simp]: "length EVF_SIGNATURE = 8"
  by (simp add: EVF_SIGNATURE_def)

text \<open>A part of a concatenation is found at the sum of the lengths before it.\<close>

lemma part_of_concat:
  assumes "i < length parts" and "off = sum_list (map length (take i parts))" and "n = length (parts ! i)"
  shows "slice off (off + n) (concat parts) = parts ! i" "off + n \<le> length (concat parts)"
proof -
  have "concat parts = concat (take i parts) @ parts ! i @ concat (drop (Suc i) parts)"
    using assms(1) by (metis append_take_drop_id concat.simps(2) concat_append Cons_nth_drop_Suc)
  moreover have "length (concat (take i parts)) = off" using assms(2) by (simp add: length_concat)
  ultimately show "slice off (off + n) (concat parts) = parts ! i" "off + n \<le> length (concat parts)"
    using assms(3) by (simp_all add: slice_def)
qed

definition part_positions :: "externals \<Rightarrow> acquisition \<Rightarrow> nat list" where
  "part_positions X a = [0, 13, 89, 1141, 1217, table_pos a, table_pos a + 76, table_pos a + 100,
     hash_pos a, hash_pos a + 76, hash_pos a + 92]"

lemma written_part:
  assumes "length (aq_md5 a) = 16" and "i < 11" and "off = part_positions X a ! i"
  shows "slice off (off + length (image_parts X a ! i)) (write_image X a) = image_parts X a ! i"
    "off + length (image_parts X a ! i) \<le> length (write_image X a)"
proof -
  have len: "length (image_parts X a) = 11" by (simp add: image_parts_def)
  have "i = 0 \<or> i = 1 \<or> i = 2 \<or> i = 3 \<or> i = 4 \<or> i = 5 \<or> i = 6 \<or> i = 7 \<or> i = 8 \<or> i = 9 \<or> i = 10"
    using assms(2) by arith
  then have "off = sum_list (map length (take i (image_parts X a)))"
    using assms(1) unfolding assms(3)
    by (auto simp: image_parts_def part_positions_def table_pos_def hash_pos_def)
  from part_of_concat [OF _ this refl] show
    "slice off (off + length (image_parts X a ! i)) (write_image X a) = image_parts X a ! i"
    "off + length (image_parts X a ! i) \<le> length (write_image X a)"
    using assms(2) len by (simp_all add: write_image_def)
qed

lemma length_written: "length (aq_md5 a) = 16 \<Longrightarrow> length (write_image X a) = hash_pos a + 168"
  by (simp add: write_image_def image_parts_def hash_pos_def table_pos_def)

section \<open>The descriptors\<close>

definition written_names :: "string list" where
  "written_names = [''volume'', ''sectors'', ''table'', ''hash'', ''done'']"

lemma written_name_facts:
  "t \<in> set written_names \<Longrightarrow> length t \<le> 16 \<and> 0 \<notin> set (ascii t) \<and> from_utf8_lossy (ascii t) = lit t"
proof -
  have "list_all (\<lambda>t. length t \<le> 16 \<and> list_all (\<lambda>b. b \<noteq> 0) (ascii t) \<and> from_utf8_lossy (ascii t) = lit t) written_names"
    by code_simp
  then show "t \<in> set written_names \<Longrightarrow> ?thesis" by (auto simp: list_all_iff)
qed

definition written_descriptor :: "externals \<Rightarrow> string \<Rightarrow> nat \<Rightarrow> nat \<Rightarrow> nat \<Rightarrow> SectionDescriptor" where
  "written_descriptor X t nxt sz off =
    \<lparr>sd_type = lit t, sd_next = of_nat nxt, sd_size = of_nat sz, sd_offset = off,
     sd_stored_crc = adler32 X (take 72 (encode_descriptor (ascii t) (of_nat nxt) (of_nat sz) 0))\<rparr>"

lemma written_descriptor_sel [simp]:
  "sd_type (written_descriptor X t nxt sz off) = lit t" "sd_offset (written_descriptor X t nxt sz off) = off"
  "nxt < 2 ^ 64 \<Longrightarrow> unat (sd_next (written_descriptor X t nxt sz off)) = nxt"
  "sz < 2 ^ 64 \<Longrightarrow> unat (sd_size (written_descriptor X t nxt sz off)) = sz"
  by (simp_all add: written_descriptor_def unat_of_nat)

lemma sealed_parse:
  assumes "safe_read_laws X" and "t \<in> set written_names"
  shows "descriptor_parse X (sealed_descriptor X t nxt sz) off = Ok (written_descriptor X t nxt sz off)"
  using descriptor_fields [OF assms(1), of "ascii t" "of_nat nxt" "of_nat sz" _ "[]" off] written_name_facts [OF assms(2)]
  by (simp add: sealed_descriptor_def written_descriptor_def Let_def)

lemma take_72_sealed:
  "length t \<le> 16 \<Longrightarrow> take 72 (sealed_descriptor X t nxt sz) =
    take 72 (encode_descriptor (ascii t) (of_nat nxt) (of_nat sz) 0)"
  by (simp add: sealed_descriptor_def Let_def encode_descriptor_def length_pad_type)

lemma sealed_verifies:
  assumes "t \<in> set written_names"
  shows "descriptor_verify_crc X (written_descriptor X t nxt sz off) (sealed_descriptor X t nxt sz)"
  using take_72_sealed [of t X nxt sz] written_name_facts [OF assms]
  by (simp add: descriptor_verify_crc_def get_range_def written_descriptor_def)

definition volume_section :: "externals \<Rightarrow> acquisition \<Rightarrow> SectionDescriptor" where
  "volume_section X a = written_descriptor X ''volume'' 1141 1128 13"

definition sectors_section :: "externals \<Rightarrow> acquisition \<Rightarrow> SectionDescriptor" where
  "sectors_section X a =
    written_descriptor X ''sectors'' (table_pos a) (76 + length (chunk_area (aq_chunks a))) 1141"

definition table_section :: "externals \<Rightarrow> acquisition \<Rightarrow> SectionDescriptor" where
  "table_section X a =
    written_descriptor X ''table'' (hash_pos a) (100 + 4 * length (aq_chunks a)) (table_pos a)"

definition hash_section :: "externals \<Rightarrow> acquisition \<Rightarrow> SectionDescriptor" where
  "hash_section X a = written_descriptor X ''hash'' (hash_pos a + 92) 92 (hash_pos a)"

definition done_section :: "externals \<Rightarrow> acquisition \<Rightarrow> SectionDescriptor" where
  "done_section X a = written_descriptor X ''done'' (hash_pos a + 92) 76 (hash_pos a + 92)"

definition written_sections :: "externals \<Rightarrow> acquisition \<Rightarrow> SectionDescriptor list" where
  "written_sections X a = [volume_section X a, sectors_section X a, table_section X a, hash_section X a,
     done_section X a]"

lemmas written_section_defs = volume_section_def sectors_section_def table_section_def hash_section_def
  done_section_def

text \<open>The sizes that keep every position below 63 bits.\<close>

definition sized :: "acquisition \<Rightarrow> bool" where
  "sized a \<longleftrightarrow> length (aq_md5 a) = 16 \<and> table_pos a < 2 ^ 31 \<and> length (aq_chunks a) \<le> MAX_TABLE_ENTRIES"

lemma writable_sized: "writable X a states \<Longrightarrow> sized a"
  by (simp add: writable_def sized_def)

lemma sized_bounds:
  assumes "sized a"
  shows "hash_pos a < 2 ^ 32" "length (write_image X a) < 2 ^ 33" "length (write_image X a) = hash_pos a + 168"
    "table_pos a < 2 ^ 31"
    "1217 \<le> table_pos a" "table_pos a + 100 \<le> hash_pos a"
    "length (chunk_area (aq_chunks a)) = table_pos a - 1217" "length (aq_chunks a) < 2 ^ 32"
  using assms by (auto simp: sized_def hash_pos_def MAX_TABLE_ENTRIES_def length_written table_pos_def)

text \<open>Where each descriptor lies.\<close>

lemma written_descriptors:
  assumes "sized a"
  shows "slice 13 89 (write_image X a) = sealed_descriptor X ''volume'' 1141 1128"
    "slice 1141 1217 (write_image X a) =
      sealed_descriptor X ''sectors'' (table_pos a) (76 + length (chunk_area (aq_chunks a)))"
    "slice (table_pos a) (table_pos a + 76) (write_image X a) =
      sealed_descriptor X ''table'' (hash_pos a) (100 + 4 * length (aq_chunks a))"
    "slice (hash_pos a) (hash_pos a + 76) (write_image X a) =
      sealed_descriptor X ''hash'' (hash_pos a + 92) 92"
    "slice (hash_pos a + 92) (hash_pos a + 92 + 76) (write_image X a) =
      sealed_descriptor X ''done'' (hash_pos a + 92) 76"
  using written_part(1) [of a 1 _ X, OF _ _ refl] written_part(1) [of a 3 _ X, OF _ _ refl]
    written_part(1) [of a 5 _ X, OF _ _ refl] written_part(1) [of a 8 _ X, OF _ _ refl]
    written_part(1) [of a 10 _ X, OF _ _ refl] assms
  by (simp_all add: sized_def image_parts_def part_positions_def add.commute add.left_commute)

section \<open>The walk of the reader\<close>

context positioned_source
begin

lemma walk_v1_written:
  assumes "safe_read_laws X" and "t \<in> set written_names" and "nxt < 2 ^ 64"
    and "slice off (off + 76) content = sealed_descriptor X t nxt sz" and "off + 76 \<le> length content"
    and "length content < 2 ^ 33"
  shows "walk_v1 X src (length content) off ds =
    (if nxt = 0 \<or> nxt \<le> off then Ok (ds @ [written_descriptor X t nxt sz off])
     else walk_v1 X src (length content) nxt (ds @ [written_descriptor X t nxt sz off]))"
proof -
  have "seek_read_exact src off 76 = Ok (sealed_descriptor X t nxt sz)"
    using assms(4-6) seek_read_exact_content [of off 76] by simp
  then show ?thesis
    using assms(3,5,6) sealed_parse [OF assms(1,2), of nxt sz off]
    by (subst walk_v1.simps) (simp add: checked_add_def u64_max_def)
qed

end

lemma written_walk:
  assumes src: "positioned_source src (write_image X a)" and laws: "safe_read_laws X" and sz: "sized a"
  shows "walk_segment X src = Ok (written_sections X a)"
proof -
  note b = sized_bounds [OF sz]
  note d = written_descriptors [OF sz]
  note step = positioned_source.walk_v1_written [OF src laws]
  let ?n = "length (write_image X a)"
  have 1: "walk_v1 X src ?n 13 ds = walk_v1 X src ?n 1141 (ds @ [volume_section X a])" for ds
    using step [of "''volume''" 1141 13 1128 ds] d(1) b by (simp add: written_names_def volume_section_def)
  have 2: "walk_v1 X src ?n 1141 ds = walk_v1 X src ?n (table_pos a) (ds @ [sectors_section X a])" for ds
    using step [of "''sectors''" "table_pos a" 1141 _ ds] d(2) b by (simp add: written_names_def sectors_section_def)
  have 3: "walk_v1 X src ?n (table_pos a) ds = walk_v1 X src ?n (hash_pos a) (ds @ [table_section X a])" for ds
    using step [of "''table''" "hash_pos a" "table_pos a" _ ds] d(3) b
    by (simp add: written_names_def table_section_def)
  have 4: "walk_v1 X src ?n (hash_pos a) ds = walk_v1 X src ?n (hash_pos a + 92) (ds @ [hash_section X a])" for ds
    using step [of "''hash''" "hash_pos a + 92" "hash_pos a" 92 ds] d(4) b
    by (simp add: written_names_def hash_section_def)
  have 5: "walk_v1 X src ?n (hash_pos a + 92) ds = Ok (ds @ [done_section X a])" for ds
    using step [of "''done''" "hash_pos a + 92" "hash_pos a + 92" 76 ds] d(5) b
    by (simp add: written_names_def done_section_def)
  have "seek_target (SeekEnd 0) ?n 0 = Ok ?n"
    using b by (simp add: seek_target_def as_i64_def i64_add_def)
  then show ?thesis
    unfolding walk_segment_def positioned_source.len_content [OF src]
    by (simp add: 1 2 3 4 5 written_sections_def)
qed

section \<open>The fields of the sections\<close>

lemma volume_fields:
  assumes "safe_read_laws X" and "length (aq_chunks a) < 2 ^ 32" and "aq_spc a < 2 ^ 32" and "aq_bps a < 2 ^ 32"
    and "aq_sectors a < 2 ^ 64" and "buf = take k (volume_body X a)" and "24 \<le> k"
  shows "\<exists>v. volume_parse X buf = Ok v \<and> unat (vol_chunk_count v) = length (aq_chunks a)
    \<and> unat (vol_sectors_per_chunk v) = aq_spc a \<and> unat (vol_bytes_per_sector v) = aq_bps a
    \<and> unat (vol_sector_count v) = aq_sectors a \<and> vol_media_type v = 1
    \<and> vol_stored_crc v = (if 1052 \<le> length buf then Some (x_le_u32 X buf 1048) else None)"
proof -
  let ?n = "of_nat (length (aq_chunks a)) :: u32" and ?s = "of_nat (aq_spc a) :: u32"
    and ?b = "of_nat (aq_bps a) :: u32" and ?c = "of_nat (aq_sectors a) :: u64"
  have w: "unat ?n = length (aq_chunks a)" "unat ?s = aq_spc a" "unat ?b = aq_bps a" "unat ?c = aq_sectors a"
    using assms(2-5) by (simp_all add: unat_of_nat)
  define post where "post = take (k - 24) (replicate 1024 0 @ to_le 4 (unat (adler32 X (volume_front a))))"
  have buf: "buf = [1, 0, 0, 0] @ to_le 4 (unat ?n) @ to_le 4 (unat ?s) @ to_le 4 (unat ?b) @ to_le 8 (unat ?c) @ post"
    using assms(7) unfolding assms(6) post_def w volume_body_def volume_front_def by (simp add: take_Cons')
  have "x_le_u32 X buf 4 = ?n" "x_le_u32 X buf 8 = ?s" "x_le_u32 X buf 12 = ?b" "x_le_u64 X buf 16 = ?c"
    unfolding buf
    using u32_field [OF assms(1), of "[1, 0, 0, 0]" 4 ?n]
      u32_field [OF assms(1), of "[1, 0, 0, 0] @ to_le 4 (unat ?n)" 8 ?s]
      u32_field [OF assms(1), of "[1, 0, 0, 0] @ to_le 4 (unat ?n) @ to_le 4 (unat ?s)" 12 ?b]
      u64_field [OF assms(1), of "[1, 0, 0, 0] @ to_le 4 (unat ?n) @ to_le 4 (unat ?s) @ to_le 4 (unat ?b)" 16 ?c]
    by simp_all
  moreover have "buf ! 0 = 1" "24 \<le> length buf" by (simp_all add: buf)
  ultimately show ?thesis using w by (simp add: volume_parse_def)
qed

lemma table_head_fields:
  assumes "safe_read_laws X" and "length (aq_chunks a) < 2 ^ 32"
  shows "\<exists>h. table_header_parse X (table_head X a @ rest) = Ok h \<and> unat (th_entry_count h) = length (aq_chunks a)
      \<and> th_base_offset h = 0 \<and> th_stored_crc h = adler32 X (take 16 (table_head X a))"
    and "x_le_u32 X (table_head X a) 0 = of_nat (length (aq_chunks a))" and "x_le_u64 X (table_head X a) 8 = 0"
proof -
  let ?n = "of_nat (length (aq_chunks a)) :: u32"
  let ?h = "encode_table_header ?n 0"
  have t: "take 16 (table_head X a) = take 16 (?h 0)"
    by (simp add: table_head_def Let_def encode_table_header_def)
  have p: "table_header_parse X (table_head X a @ rest) =
      Ok \<lparr>th_entry_count = ?n, th_base_offset = 0, th_stored_crc = adler32 X (take 16 (table_head X a))\<rparr>" for rest
    using header_fields [OF assms(1), of ?n 0 "adler32 X (take 16 (?h 0))" rest] unfolding t
    by (simp add: table_head_def Let_def)
  then show "\<exists>h. table_header_parse X (table_head X a @ rest) = Ok h \<and> unat (th_entry_count h) = length (aq_chunks a)
      \<and> th_base_offset h = 0 \<and> th_stored_crc h = adler32 X (take 16 (table_head X a))"
    using assms(2) by (simp add: unat_of_nat)
  show "x_le_u32 X (table_head X a) 0 = ?n" "x_le_u64 X (table_head X a) 8 = 0"
    using p [of "[]"] by (simp_all add: table_header_parse_def)
qed

lemma places_bound:
  "list_all (\<lambda>(c, off). lo \<le> off \<and> off \<le> lo + length (chunk_area chs)) (places lo chs)"
proof (induction chs arbitrary: lo)
  case (Cons ch chs)
  show ?case
    using Cons [of "lo + length (snd ch)"] by (auto simp: chunk_area_def list_all_iff)
qed simp

text \<open>What the bodies of the sections hold.\<close>

lemma written_bodies:
  assumes "sized a"
  shows "slice 89 1141 (write_image X a) = volume_body X a"
    "slice 1217 (table_pos a) (write_image X a) = chunk_area (aq_chunks a)"
    "slice (table_pos a + 76) (table_pos a + 100) (write_image X a) = table_head X a"
    "slice (table_pos a + 100) (hash_pos a) (write_image X a) =
      encode_table_entries (places 1217 (aq_chunks a))"
    "slice (hash_pos a + 76) (hash_pos a + 92) (write_image X a) = aq_md5 a"
  using written_part(1) [of a 2 _ X, OF _ _ refl] written_part(1) [of a 4 _ X, OF _ _ refl]
    written_part(1) [of a 6 _ X, OF _ _ refl] written_part(1) [of a 7 _ X, OF _ _ refl]
    written_part(1) [of a 9 _ X, OF _ _ refl] assms
  by (simp_all add: sized_def image_parts_def part_positions_def table_pos_def hash_pos_def
      add.commute add.left_commute mult.commute)

section \<open>Opening\<close>

text \<open>The chunks of the parsed table.\<close>

definition written_chunks :: "acquisition \<Rightarrow> Chunk list" where
  "written_chunks a = backfill_last (Some (table_pos a)) (aq_spc a * aq_bps a)
     (sized_chunks 0 (aq_spc a * aq_bps a) (places 1217 (aq_chunks a)))"

lemma written_table:
  assumes "safe_read_laws X" and "sized a"
  shows "parse_table_section X (encode_table_entries (places 1217 (aq_chunks a))) (length (aq_chunks a)) 0 0
      (aq_spc a * aq_bps a) (Some (table_pos a)) = Ok (written_chunks a)"
proof -
  have "list_all (\<lambda>(c, off). off < 2 ^ 31 \<and> off + 0 \<le> u64_max) (places 1217 (aq_chunks a))"
    using places_bound [of 1217 "aq_chunks a"] sized_bounds(4,5,7) [OF assms(2)]
    by (auto simp: list_all_iff u64_max_def)
  from parse_encoded_entries [OF assms(1) this, of 0 "aq_spc a * aq_bps a"] show ?thesis
    by (simp add: written_chunks_def)
qed

definition written_meta :: "acquisition \<Rightarrow> SectionMeta" where
  "written_meta a = \<lparr>sm_first_chunk_id = 0, sm_entry_count = length (aq_chunks a),
     sm_entries_file_offset = table_pos a + 100, sm_base_offset = 0, sm_segment_idx = 0,
     sm_sectors_data_end = Some (table_pos a)\<rparr>"

lemma written_meta_sel [simp]:
  "sm_first_chunk_id (written_meta a) = 0" "sm_entry_count (written_meta a) = length (aq_chunks a)"
  "sm_entries_file_offset (written_meta a) = table_pos a + 100" "sm_base_offset (written_meta a) = 0"
  "sm_segment_idx (written_meta a) = 0" "sm_sectors_data_end (written_meta a) = Some (table_pos a)"
  by (simp_all add: written_meta_def)

lemma written_section_data:
  assumes src: "positioned_source src (write_image X a)" and sz: "sized a"
  shows "section_data src (volume_section X a) 94 = Ok (take 94 (volume_body X a))"
    "section_data src (table_section X a) 24 = Ok (table_head X a)"
    "section_data src (hash_section X a) 16 = Ok (aq_md5 a)"
    "seek_read_exact src (table_pos a + 100) (length (aq_chunks a) * 4) =
      Ok (encode_table_entries (places 1217 (aq_chunks a)))"
proof -
  note b = sized_bounds [OF sz] and parts = written_bodies [OF sz]
  note read = positioned_source.seek_read_exact_content [OF src]
  have v: "slice 89 183 (write_image X a) = take 94 (volume_body X a)"
    using parts(1) by (simp add: slice_def flip: parts(1))
  show "section_data src (volume_section X a) 94 = Ok (take 94 (volume_body X a))"
    "section_data src (table_section X a) 24 = Ok (table_head X a)"
    "section_data src (hash_section X a) 16 = Ok (aq_md5 a)"
    using b v parts(3,5) read [of 89 94] read [of "table_pos a + 76" 24] read [of "hash_pos a + 76" 16]
    by (simp_all add: section_data_def plain_add_def u64_max_def written_section_defs add.commute)
  have "table_pos a + 100 + length (aq_chunks a) * 4 = hash_pos a" by (simp add: hash_pos_def)
  then show "seek_read_exact src (table_pos a + 100) (length (aq_chunks a) * 4) =
      Ok (encode_table_entries (places 1217 (aq_chunks a)))"
    using b parts(4) read [of "table_pos a + 100" "length (aq_chunks a) * 4"] by simp
qed

lemma writable_numbers:
  assumes "writable X a states"
  shows "aq_spc a < 2 ^ 32" "aq_bps a < 2 ^ 32" "aq_sectors a < 2 ^ 64"
    "0 < aq_spc a * aq_bps a" "aq_spc a * aq_bps a < 2 ^ 31"
    "aq_sectors a * aq_bps a \<le> length (aq_chunks a) * (aq_spc a * aq_bps a)"
    "length (aq_chunks a) * (aq_spc a * aq_bps a) < 2 ^ 63" "0 < aq_sectors a * aq_bps a"
    "length states = length (aq_chunks a)" "aq_sectors a * aq_bps a \<le> u64_max"
proof -
  let ?cs = "aq_spc a * aq_bps a"
  have w: "0 < aq_spc a" "0 < aq_bps a" "?cs \<le> 134217728" "length (aq_chunks a) \<le> 4000000"
    "aq_sectors a \<le> length (aq_chunks a) * aq_spc a" "0 < aq_sectors a"
    using assms by (simp_all add: writable_def MAX_CHUNK_SIZE_def MAX_TABLE_ENTRIES_def)
  have "aq_spc a * 1 \<le> ?cs" "1 * aq_bps a \<le> ?cs" using w(1,2) by (intro mult_le_mono; simp)+
  then have "aq_spc a \<le> 134217728" "aq_bps a \<le> 134217728" using w(3) by linarith+
  then show "aq_spc a < 2 ^ 32" "aq_bps a < 2 ^ 32" "0 < ?cs" "?cs < 2 ^ 31" using w by simp_all
  have "length (aq_chunks a) * ?cs \<le> 4000000 * 134217728" using w by (intro mult_le_mono)
  then show all: "length (aq_chunks a) * ?cs < 2 ^ 63" by simp
  show media: "aq_sectors a * aq_bps a \<le> length (aq_chunks a) * ?cs"
    using mult_le_mono1 [OF w(5), of "aq_bps a"] by (simp add: mult.assoc)
  have "aq_sectors a * aq_bps a < 2 ^ 63" using media all by (rule le_less_trans)
  then show "aq_sectors a * aq_bps a \<le> u64_max" by (simp add: u64_max_def)
  have "length (aq_chunks a) * aq_spc a \<le> 4000000 * 134217728"
    using w(3,4) \<open>aq_spc a * 1 \<le> ?cs\<close> by (intro mult_le_mono) linarith+
  then show "aq_sectors a < 2 ^ 64" using w(5) by simp
  show "0 < aq_sectors a * aq_bps a" using w by simp
  show "length states = length (aq_chunks a)"
    using assms by (auto simp: writable_def dest: list_all2_lengthD)
qed

lemma written_volume:
  assumes src: "positioned_source src (write_image X a)" and laws: "safe_read_laws X" and wr: "writable X a states"
  shows "handle_volume X src (volume_section X a) st =
    Ok (st\<lparr>os_chunk_size := aq_spc a * aq_bps a, os_total_size := aq_sectors a * aq_bps a\<rparr>)"
proof -
  note sz = writable_sized [OF wr] and num = writable_numbers [OF wr]
  obtain v where v: "volume_parse X (take 94 (volume_body X a)) = Ok v"
      "unat (vol_sectors_per_chunk v) = aq_spc a" "unat (vol_bytes_per_sector v) = aq_bps a"
      "unat (vol_sector_count v) = aq_sectors a"
    using volume_fields [OF laws sized_bounds(8) [OF sz] num(1-3) refl, of 94] by auto
  have "aq_bps a * aq_sectors a \<le> u64_max" using num(10) by (simp add: mult.commute)
  then have "volume_total_size v = aq_sectors a * aq_bps a"
    using v by (simp add: volume_total_size_def sat_mul_def mult.commute)
  moreover have "volume_chunk_size v = aq_spc a * aq_bps a" using v by (simp add: volume_chunk_size_def)
  ultimately show ?thesis
    using v(1) num(8) wr written_section_data(1) [OF src sz]
    by (simp add: handle_volume_def writable_def Let_def)
qed

lemma written_eager:
  assumes src: "positioned_source src (write_image X a)" and laws: "safe_read_laws X" and sz: "sized a"
    and cs: "os_chunk_size st = aq_spc a * aq_bps a"
  shows "handle_table_eager X src 0 (Some (table_pos a)) (table_section X a) st =
    Ok (st\<lparr>os_chunks := os_chunks st @ written_chunks a\<rparr>)"
proof -
  note b = sized_bounds [OF sz]
  have n: "unat (of_nat (length (aq_chunks a)) :: u32) = length (aq_chunks a)"
    using b(8) by (simp add: unat_of_nat)
  have "sd_offset (table_section X a) = table_pos a" by (simp add: table_section_def)
  then show ?thesis
    using b sz n cs written_section_data(2,4) [OF src sz] table_head_fields(2,3) [OF laws b(8)] written_table [OF laws sz]
    by (simp add: handle_table_eager_def sized_def plain_add_def u64_max_def add.commute mult.commute)
qed

lemma written_lazy:
  assumes src: "positioned_source src (write_image X a)" and laws: "safe_read_laws X" and sz: "sized a"
    and id: "os_next_chunk_id st = 0"
  shows "handle_table_lazy src 0 (Some (table_pos a)) (table_section X a) st =
    Ok (st\<lparr>os_next_chunk_id := length (aq_chunks a), os_index := os_index st @ [written_meta a]\<rparr>)"
proof -
  note b = sized_bounds [OF sz]
  let ?t = "table_head X a"
  have "take 24 (drop (table_pos a + 76) (write_image X a)) = ?t"
    using written_bodies(3) [OF sz] by (simp add: slice_def)
  then have read: "read_at src 24 (table_pos a + 76) = Ok ?t"
    by (simp add: positioned_source.read_content [OF src])
  have "u32_from_le (slice 0 4 ?t) = of_nat (length (aq_chunks a))" "u64_from_le (slice 8 16 ?t) = 0"
    using table_head_fields(2,3) [OF laws b(8)] safe_read_u32 [OF laws, of 0 ?t] safe_read_u64 [OF laws, of 8 ?t]
    by simp_all
  moreover have "unat (of_nat (length (aq_chunks a)) :: u32) = length (aq_chunks a)"
    using b(8) by (simp add: unat_of_nat)
  moreover have "sd_offset (table_section X a) = table_pos a" by (simp add: table_section_def)
  ultimately show ?thesis
    using b sz read id
    by (simp add: handle_table_lazy_def read_header_def fill_buf_exact sized_def plain_add_def u64_max_def
        Let_def written_meta_def)
qed

text \<open>What the descriptors of the written image tell the open pass.\<close>

definition opened_state :: "acquisition \<Rightarrow> bool \<Rightarrow> open_state" where
  "opened_state a lz =
    (let st = open_state_init\<lparr>os_chunk_size := aq_spc a * aq_bps a, os_total_size := aq_sectors a * aq_bps a,
                              os_stored_md5 := Some (aq_md5 a)\<rparr>
     in if lz then st\<lparr>os_next_chunk_id := length (aq_chunks a), os_index := [written_meta a]\<rparr>
        else st\<lparr>os_chunks := written_chunks a\<rparr>)"

lemma written_other_lits:
  "lit ''sectors'' \<notin> set (map lit [''volume'', ''disk'', ''table'', ''hash'', ''digest'', ''header'', ''error2''])"
  "lit ''done'' \<notin> set (map lit [''volume'', ''disk'', ''table'', ''hash'', ''digest'', ''header'', ''error2''])"
  "lit ''table'' \<notin> set (map lit [''volume'', ''disk''])"
  "lit ''hash'' \<notin> set (map lit [''volume'', ''disk'', ''table''])"
  by (simp_all add: lit_def)

lemma written_types:
  assumes "sized a"
  shows "table_type_of (written_sections X a) = lit ''table''"
    "sectors_end_of (written_sections X a) = Some (table_pos a)"
proof -
  show "table_type_of (written_sections X a) = lit ''table''"
    by (simp add: table_type_of_def written_sections_def table_section_def)
  have "lit ''volume'' \<noteq> lit ''sectors''" by (simp add: lit_def)
  then have "find (\<lambda>d. sd_type d = lit ''sectors'') (written_sections X a) = Some (sectors_section X a)"
    by (simp add: written_sections_def volume_section_def sectors_section_def del: lit_Cons)
  moreover have "sat_add (sd_offset (sectors_section X a)) (unat (sd_size (sectors_section X a))) = table_pos a"
    using sized_bounds [OF assms] by (simp add: sectors_section_def sat_add_def u64_max_def)
  ultimately show "sectors_end_of (written_sections X a) = Some (table_pos a)"
    by (simp add: sectors_end_of_def)
qed

lemma written_segment:
  assumes src: "positioned_source src (write_image X a)" and laws: "safe_read_laws X" and wr: "writable X a states"
  shows "open_segment_v1 lz X (0, src) open_state_init = Ok (opened_state a lz)"
proof -
  note sz = writable_sized [OF wr] and lits = written_other_lits
  let ?h = "handle_section lz X src 0 (lit ''table'') (Some (table_pos a))"
  let ?s1 = "open_state_init\<lparr>os_chunk_size := aq_spc a * aq_bps a, os_total_size := aq_sectors a * aq_bps a\<rparr>"
  let ?s2 = "if lz then ?s1\<lparr>os_next_chunk_id := length (aq_chunks a), os_index := [written_meta a]\<rparr>
             else ?s1\<lparr>os_chunks := written_chunks a\<rparr>"
  have 1: "?h (volume_section X a) open_state_init = Ok ?s1"
    using written_volume [OF src laws wr, of open_state_init] by (simp add: handle_section_def volume_section_def)
  have 2: "?h (sectors_section X a) ?s1 = Ok ?s1"
    using lits(1) by (simp add: handle_section_def sectors_section_def)
  have 3: "?h (table_section X a) ?s1 = Ok ?s2"
    using lits(3) written_lazy [OF src laws sz, of ?s1] written_eager [OF src laws sz, of ?s1]
    by (simp add: handle_section_def open_state_init_def table_section_def)
  have 4: "?h (hash_section X a) ?s2 = Ok (opened_state a lz)"
    using lits(4) written_section_data(3) [OF src sz]
    by (simp add: handle_section_def handle_hash_def opened_state_def open_state_init_def hash_section_def)
  have 5: "?h (done_section X a) (opened_state a lz) = Ok (opened_state a lz)"
    using lits(2) by (simp add: handle_section_def done_section_def)
  have "fold_result ?h (written_sections X a) open_state_init = Ok (opened_state a lz)"
    unfolding written_sections_def fold_result.simps 1 and_then.simps 2 3 4 5 ..
  then show ?thesis
    by (simp only: open_segment_v1_def written_walk [OF src laws sz] written_types [OF sz] Let_def
        case_prod_conv and_then.simps)
qed

section \<open>The pages\<close>

text \<open>A decoder that keeps the contract fills the page, in however many reads.\<close>

lemma inflates_page:
  assumes "inflates X z page"
  shows "zlib_loop X z [] (length page) [] = Ok page"
proof -
  obtain pos where p0: "pos [] = 0"
    and step: "\<And>hist n. \<exists>k \<le> n. x_zlib_read X z hist n = Some (take k (drop (pos hist) page))
         \<and> pos (hist @ [n]) = pos hist + k \<and> pos (hist @ [n]) \<le> length page
         \<and> (0 < n \<and> pos hist < length page \<longrightarrow> 0 < k)"
    using assms unfolding inflates_def by blast
  have "zlib_loop X z hist (length page) (take (pos hist) page) = Ok page" if "pos hist \<le> length page" for hist
    using that
  proof (induction "length page - pos hist" arbitrary: hist rule: less_induct)
    case less
    let ?n = "length page - pos hist"
    obtain k where k: "k \<le> ?n" "x_zlib_read X z hist ?n = Some (take k (drop (pos hist) page))"
      "pos (hist @ [?n]) = pos hist + k" "pos (hist @ [?n]) \<le> length page"
      "0 < ?n \<longrightarrow> 0 < k"
      using step [of ?n hist] by auto
    have acc: "length (take (pos hist) page) = pos hist" using less.prems by simp
    show ?case
    proof (cases "k = 0")
      case True
      then show ?thesis using k acc less.prems by (subst zlib_loop.simps) simp
    next
      case False
      have "zlib_loop X z (hist @ [?n]) (length page) (take (pos (hist @ [?n])) page) = Ok page"
        using False k by (intro less.hyps) auto
      moreover have "take (pos (hist @ [?n])) page = take (pos hist) page @ take k (drop (pos hist) page)"
        by (simp add: k(3) take_add)
      ultimately show ?thesis using False k acc by (subst zlib_loop.simps) auto
    qed
  qed
  from this [of "[]"] p0 show ?thesis by simp
qed

text \<open>The chunk records of the written chunks, each with the size of its stored bytes.\<close>

fun stored_chunks :: "nat \<Rightarrow> nat \<Rightarrow> (bool \<times> bytes) list \<Rightarrow> Chunk list" where
  "stored_chunks cs lo [] = []"
| "stored_chunks cs lo (ch # chs) =
    chunk_new 0 (fst ch) lo (if fst ch then length (snd ch) else cs)
      # stored_chunks cs (lo + length (snd ch)) chs"

lemma backfilled_chunks:
  assumes "list_all (well_sized cs) chs" and "cs < 2 ^ 32"
    and "lo + length (chunk_area chs) < 2 ^ 63"
  shows "backfill_last (Some (lo + length (chunk_area chs))) cs (sized_chunks 0 cs (places lo chs)) =
    stored_chunks cs lo chs"
  using assms
proof (induction lo chs rule: places.induct)
  case (1 off)
  then show ?case by (simp add: backfill_last_def)
next
  case (2 lo ch chs)
  have area: "length (chunk_area (ch # chs)) = length (snd ch) + length (chunk_area chs)"
    by (simp add: chunk_area_def)
  show ?case
  proof (cases chs)
    case Nil
    then show ?thesis
      using 2 by (auto simp: backfill_last_def map_last_def chunk_set_size_new chunk_area_def
          well_sized_def Let_def)
  next
    case (Cons ch' chs')
    let ?lo = "lo + length (snd ch)"
    have IH: "backfill_last (Some (?lo + length (chunk_area chs))) cs (sized_chunks 0 cs (places ?lo chs)) =
        stored_chunks cs ?lo chs"
      using 2 area by simp
    have ne: "sized_chunks 0 cs (places ?lo chs) \<noteq> []" by (simp add: Cons)
    have "sized_chunks 0 cs (places lo (ch # chs)) =
        chunk_new 0 (fst ch) lo (if fst ch then length (snd ch) else cs) # sized_chunks 0 cs (places ?lo chs)"
      using 2(2) by (simp add: Cons) (auto simp: well_sized_def)
    then show ?thesis
      using IH ne by (simp add: backfill_last_def map_last_Cons area add.assoc)
  qed
qed

lemma written_chunks_stored:
  assumes "writable X a states"
  shows "written_chunks a = stored_chunks (aq_spc a * aq_bps a) 1217 (aq_chunks a)"
  using backfilled_chunks [of "aq_spc a * aq_bps a" "aq_chunks a" 1217] assms
    writable_numbers [OF assms] sized_bounds [OF writable_sized [OF assms]]
  by (simp add: written_chunks_def writable_def)

lemma chunk_page_stored:
  assumes src: "positioned_source src content" and st: "stores X cs ch s" and ok: "s \<noteq> Garbled"
    and ws: "well_sized cs ch" and cs: "cs < 2 ^ 32"
    and at: "take (length (snd ch)) (drop lo content) = snd ch" and lo: "lo < 2 ^ 63"
  shows "chunk_page X [src] cs cid (chunk_new 0 (fst ch) lo (if fst ch then length (snd ch) else cs)) =
    Ok (state_page cs s)"
proof (cases "fst ch")
  case True
  then have "inflates X (snd ch) (state_page cs s)" "length (state_page cs s) = cs" "length (snd ch) \<le> cs"
    using stores_compressed [OF st] ok length_state_page [OF st] ws by (auto simp: well_sized_def)
  moreover from this have "zlib_loop X (snd ch) [] cs [] = Ok (state_page cs s)" using inflates_page by fastforce
  ultimately show ?thesis
    using True at cs lo by (simp add: chunk_page_def get_at_def positioned_source.read_content [OF src]
        fill_buf_exact)
next
  case False
  obtain crc where raw: "snd ch = state_page cs s @ to_le 4 (unat crc)"
    and "s = (if crc = adler32 X (state_page cs s) then Sound (state_page cs s) else WrongSum (state_page cs s) crc)"
    by (rule stores_plain [OF st False])
  have len: "length (state_page cs s) = cs" by (rule length_state_page [OF st])
  have "take cs (take (length (snd ch)) (drop lo content)) = state_page cs s" unfolding at using raw len by simp
  then have page: "take cs (drop lo content) = state_page cs s" using raw len by (simp add: min_def)
  from page len have "length (take cs (drop lo content)) = cs" by simp
  then have "\<not> min (length content - lo) cs < cs" by simp
  then show ?thesis
    using False page len cs lo by (simp add: chunk_page_def get_at_def positioned_source.read_content [OF src]
        fill_buf_exact Let_def)
qed

lemma area_cut:
  assumes "take (length (chunk_area (ch # chs))) (drop lo data) = chunk_area (ch # chs)"
  shows "take (length (snd ch)) (drop lo data) = snd ch"
    "take (length (chunk_area chs)) (drop (lo + length (snd ch)) data) = chunk_area chs"
proof -
  let ?k = "length (snd ch)" and ?m = "length (chunk_area chs)"
  have "chunk_area (ch # chs) = snd ch @ chunk_area chs" by (simp add: chunk_area_def)
  then have "take (?k + ?m) (drop lo data) = snd ch @ chunk_area chs" using assms by simp
  then have both: "take ?k (drop lo data) @ take ?m (drop (lo + ?k) data) = snd ch @ chunk_area chs"
    by (simp only: take_add drop_drop add.commute [of ?k lo])
  then have "length (take ?k (drop lo data)) + length (take ?m (drop (lo + ?k) data)) = ?k + ?m"
    by (metis length_append)
  then have "length (take ?k (drop lo data)) = ?k" by (simp only: length_take)
  with both show "take ?k (drop lo data) = snd ch" "take ?m (drop (lo + ?k) data) = chunk_area chs"
    by (simp_all add: append_eq_append_conv)
qed

lemma chunk_pages_stored:
  assumes "positioned_source src content" and "cs < 2 ^ 32" and "list_all2 (stores X cs) chs states"
    and "Garbled \<notin> set states" and "list_all (well_sized cs) chs"
    and "take (length (chunk_area chs)) (drop lo content) = chunk_area chs"
    and "lo + length (chunk_area chs) < 2 ^ 63"
  shows "list_all2 (\<lambda>c s. \<forall>cid. chunk_page X [src] cs cid c = Ok (state_page cs s)) (stored_chunks cs lo chs) states"
  using assms(3-7)
proof (induction chs arbitrary: lo states)
  case (Cons ch chs)
  then obtain s ss where states: "states = s # ss" "stores X cs ch s" "list_all2 (stores X cs) chs ss"
    by (auto simp: list_all2_Cons1)
  have ok: "s \<noteq> Garbled" "Garbled \<notin> set ss" "well_sized cs ch" "list_all (well_sized cs) chs"
    using Cons.prems(2,3) by (auto simp: states(1))
  have area: "length (chunk_area (ch # chs)) = length (snd ch) + length (chunk_area chs)"
    by (simp add: chunk_area_def)
  note cut = area_cut [OF Cons.prems(4)]
  show ?case
    using Cons.IH [OF states(3) ok(2,4) cut(2)] Cons.prems(5) area
      chunk_page_stored [OF assms(1) states(2) ok(1,3) assms(2) cut(1)] by (simp add: states(1))
qed simp

section \<open>The opened image\<close>

definition opened_reader ::
  "('s, Chunk list) lru \<Rightarrow> ('p, bytes) lru \<Rightarrow> externals \<Rightarrow> acquisition \<Rightarrow> SegmentSource \<Rightarrow> nat \<Rightarrow> nat option
    \<Rightarrow> ('s, 'p) EwfReader" where
  "opened_reader LS LP X a src cache k =
    \<lparr>rd_segments = [src],
     rd_chunks = (case k of Some n \<Rightarrow> Lazy (lazy_new LS [written_meta a] (aq_spc a * aq_bps a) n)
                  | None \<Rightarrow> Eager (written_chunks a)),
     rd_chunk_size = aq_spc a * aq_bps a, rd_total_size = aq_sectors a * aq_bps a, rd_position = 0,
     rd_cache = lru_new LP (max cache 1), rd_stored_md5 = Some (aq_md5 a), rd_stored_sha1 = None,
     rd_metadata = metadata_default, rd_acquisition_errors = []\<rparr>"

lemma written_front:
  assumes "length (aq_md5 a) = 16"
  shows "take 13 (write_image X a) = EVF_SIGNATURE @ [1, 1, 0, 0, 0]" "take 8 (write_image X a) = EVF_SIGNATURE"
proof -
  show f: "take 13 (write_image X a) = EVF_SIGNATURE @ [1, 1, 0, 0, 0]"
    using written_part(1) [of a 0 _ X, OF assms _ refl] by (simp add: image_parts_def part_positions_def)
  have "take 8 (write_image X a) = take 8 (take 13 (write_image X a))" by simp
  then show "take 8 (write_image X a) = EVF_SIGNATURE" unfolding f by simp
qed

lemma length_written_chunks: "length (written_chunks a) = length (aq_chunks a)"
  by (simp add: written_chunks_def)

lemma written_open:
  assumes src: "positioned_source src (write_image X a)" and laws: "safe_read_laws X" and wr: "writable X a states"
  shows "open_v1 LS LP X [src] cache k = Ok (opened_reader LS LP X a src cache k)"
proof -
  note sz = writable_sized [OF wr] and num = writable_numbers [OF wr]
  have md5: "length (aq_md5 a) = 16" using sz by (simp add: sized_def)
  have front: "take 13 (drop 0 (write_image X a)) = EVF_SIGNATURE @ [1, 1, 0, 0, 0]"
    "take 8 (drop 0 (write_image X a)) = EVF_SIGNATURE"
    using written_front [OF md5] by simp_all
  have header: "read_file_headers [src] = Ok [\<lparr>fh_segment_number = 1, fh_kind = Physical\<rparr>]"
    unfolding read_file_headers_def list.map collect.simps positioned_source.read_content [OF src] front and_then.simps
    by code_simp
  have sig: "EVF_SIGNATURE \<noteq> EVF2_SIGNATURE" "EVF_SIGNATURE \<noteq> LEF2_SIGNATURE" by code_simp+
  have nums: "map (unat \<circ> fh_segment_number) [\<lparr>fh_segment_number = 1, fh_kind = Physical\<rparr>] = [1]" by simp
  have order: "validate_and_reorder_segments [src] [1] = Ok [src]"
    by (simp add: validate_and_reorder_segments_def get_at_def)
  have fold: "fold_result (open_segment_v1 lz X) (zip [0..<length [src]] [src]) open_state_init =
      Ok (opened_state a lz)" for lz
    using written_segment [OF src laws wr, of lz] by simp
  have kind: "media_size_for Physical (aq_sectors a * aq_bps a) n cs = aq_sectors a * aq_bps a" for n cs
    using num(8) by (simp add: media_size_for_def)
  have cs: "os_chunk_size (opened_state a lz) = aq_spc a * aq_bps a" for lz
    by (simp add: opened_state_def Let_def)
  have "open_v1 LS LP X [src] cache k =
      (let st = opened_state a (k \<noteq> None);
           chunks = (case k of Some n \<Rightarrow> Lazy (lazy_new LS (os_index st) (os_chunk_size st) n)
                     | None \<Rightarrow> Eager (os_chunks st))
       in Ok \<lparr>rd_segments = [src], rd_chunks = chunks, rd_chunk_size = os_chunk_size st,
              rd_total_size = media_size_for Physical (os_total_size st) (table_len chunks) (os_chunk_size st),
              rd_position = 0, rd_cache = lru_new LP (max cache 1),
              rd_stored_md5 = os_stored_md5 st, rd_stored_sha1 = os_stored_sha1 st,
              rd_metadata = os_metadata st, rd_acquisition_errors = os_acquisition_errors st\<rparr>)"
    unfolding open_v1_def list.sel positioned_source.read_content [OF src] front and_then.simps Let_def header nums
      order fold
    using sig num(4) by (simp add: cs fill_buf_exact)
  then show ?thesis
    using kind by (cases k) (simp_all add: opened_reader_def opened_state_def open_state_init_def Let_def)
qed

lemma written_load:
  assumes src: "positioned_source src (write_image X a)" and laws: "safe_read_laws X" and wr: "writable X a states"
  shows "lazy_load X (aq_spc a * aq_bps a) (written_meta a) [src] = Ok (written_chunks a)"
proof -
  note sz = writable_sized [OF wr]
  note b = sized_bounds [OF sz]
  let ?n = "length (aq_chunks a) * 4"
  let ?es = "encode_table_entries (places 1217 (aq_chunks a))"
  have "slice (table_pos a + 100) (table_pos a + 100 + ?n) (write_image X a) = ?es"
    using written_bodies(4) [OF sz] by (simp add: hash_pos_def mult.commute)
  then have "read_at src ?n (table_pos a + 100) = Ok ?es"
    by (simp add: positioned_source.read_content [OF src] slice_def)
  moreover have "?n \<le> u64_max" using b(8) by (simp add: u64_max_def)
  moreover have "\<not> length (write_image X a) - (table_pos a + 100) < ?n"
    using b(3) by (simp add: hash_pos_def)
  ultimately show ?thesis
    using written_table [OF laws sz] positioned_source.len_content [OF src]
    by (simp add: lazy_load_def get_at_def fill_buf_exact Let_def checked_mul_def)
qed

lemma written_lookup:
  assumes src: "positioned_source src (write_image X a)" and laws: "safe_read_laws X" and wr: "writable X a states"
    and i: "i < length (aq_chunks a)"
  shows "table_lookup X (rd_chunks (opened_reader LS LP X a src cache k)) i [src] = Ok (written_chunks a ! i)"
  using i written_load [OF src laws wr] length_written_chunks [of a]
  by (cases k) (simp_all add: opened_reader_def get_at_def lazy_lookup_def lazy_new_def section_for_def
      partition_point_def Let_def)

text \<open>Reading the written image gives the pages that were written, unless a stream is garbled.\<close>

lemma written_intact:
  assumes src: "positioned_source src (write_image X a)" and laws: "safe_read_laws X" and wr: "writable X a states"
    and ok: "Garbled \<notin> set states" and cs: "cs = aq_spc a * aq_bps a"
  shows "intact X (opened_reader LS LP X a src cache k) (map (state_page cs) states)"
    and "media_image (opened_reader LS LP X a src cache k) (map (state_page cs) states) = acquired a states"
proof -
  note sz = writable_sized [OF wr] and num = writable_numbers [OF wr]
  note b = sized_bounds [OF sz]
  let ?r = "opened_reader LS LP X a src cache k"
  have "take (length (chunk_area (aq_chunks a))) (drop 1217 (write_image X a)) = chunk_area (aq_chunks a)"
    using written_bodies(2) [OF sz] b by (simp add: slice_def)
  then have pages: "list_all2 (\<lambda>c s. \<forall>cid. chunk_page X [src] cs cid c = Ok (state_page cs s)) (written_chunks a) states"
    unfolding written_chunks_stored [OF wr] cs
    using chunk_pages_stored [OF src, of "aq_spc a * aq_bps a" X "aq_chunks a" states 1217] wr num b ok
    by (simp add: writable_def)
  have "page_at X ?r i = Ok (state_page cs (states ! i))" if "i < length states" for i
    using that pages written_lookup [OF src laws wr, of i LS LP cache k] num(5,9)
    by (simp add: page_at_def list_all2_conv_all_nth ISIZE_MAX_def length_written_chunks cs)
      (simp add: opened_reader_def)
  moreover have "table_len (rd_chunks ?r) = length states"
    using num(9) by (cases k) (simp_all add: opened_reader_def length_written_chunks lazy_new_def)
  ultimately show "intact X ?r (map (state_page cs) states)"
    using num by (auto simp: intact_def opened_reader_def intro: nth_equalityI)
  show "media_image ?r (map (state_page cs) states) = acquired a states"
    by (simp add: media_image_def acquired_def opened_reader_def cs)
qed

section \<open>The entries of the table\<close>

text \<open>Every chunk starts inside the area, before its end.\<close>

lemma places_inside:
  assumes "list_all (\<lambda>ch. 0 < length (snd ch)) chs"
  shows "list_all (\<lambda>(c, off). lo \<le> off \<and> off < lo + length (chunk_area chs)) (places lo chs)"
  using assms
proof (induction chs arbitrary: lo)
  case (Cons ch chs)
  show ?case
    using Cons.IH [of "lo + length (snd ch)"] Cons.prems
    by (auto simp: chunk_area_def list_all_iff)
qed simp

lemma written_chunks_nonempty:
  assumes "writable X a states"
  shows "list_all (\<lambda>ch. 0 < length (snd ch)) (aq_chunks a)"
  using assms by (auto simp: writable_def well_sized_def list_all_iff split: if_splits)

lemma written_places:
  assumes "writable X a states"
  shows "list_all (\<lambda>(c, off). 1217 \<le> off \<and> off < table_pos a) (places 1217 (aq_chunks a))"
proof -
  from places_inside [OF written_chunks_nonempty [OF assms], of 1217] show ?thesis by (simp add: table_pos_def)
qed

lemma written_entry:
  assumes laws: "safe_read_laws X" and wr: "writable X a states" and i: "i < length (aq_chunks a)"
  shows "get_range (write_image X a) (table_pos a + 100 + i * 4) (table_pos a + 100 + i * 4 + 4) =
      Some (encode_table_entry (fst (places 1217 (aq_chunks a) ! i)) (snd (places 1217 (aq_chunks a) ! i)))"
    and "\<exists>e. table_entry_parse X (encode_table_entry (fst (places 1217 (aq_chunks a) ! i))
        (snd (places 1217 (aq_chunks a) ! i))) = Ok e
      \<and> te_compressed e = fst (places 1217 (aq_chunks a) ! i)
      \<and> unat (te_chunk_offset e) = snd (places 1217 (aq_chunks a) ! i)"
    and "1217 \<le> snd (places 1217 (aq_chunks a) ! i)" "snd (places 1217 (aq_chunks a) ! i) < table_pos a"
proof -
  note sz = writable_sized [OF wr]
  note b = sized_bounds [OF sz]
  let ?ps = "places 1217 (aq_chunks a)" and ?img = "write_image X a"
  show p: "1217 \<le> snd (?ps ! i)" "snd (?ps ! i) < table_pos a"
    using written_places [OF wr] i by (auto simp: list_all_length case_prod_beta)
  have h: "hash_pos a = table_pos a + 100 + 4 * length (aq_chunks a)" by (simp add: hash_pos_def)
  have "slice (i * 4) (i * 4 + 4) (slice (table_pos a + 100) (hash_pos a) ?img) =
      slice (table_pos a + 100 + i * 4) (table_pos a + 100 + (i * 4 + 4)) ?img"
    using i h by (intro slice_slice) auto
  then have "slice (table_pos a + 100 + i * 4) (table_pos a + 100 + (i * 4 + 4)) ?img =
      encode_table_entry (fst (?ps ! i)) (snd (?ps ! i))"
    using slice_encode_table_entries [of i ?ps] i by (simp add: written_bodies(4) [OF sz])
  then show "get_range ?img (table_pos a + 100 + i * 4) (table_pos a + 100 + i * 4 + 4) =
      Some (encode_table_entry (fst (?ps ! i)) (snd (?ps ! i)))"
    using i b(3) h by (simp add: add.assoc)
  show "\<exists>e. table_entry_parse X (encode_table_entry (fst (?ps ! i)) (snd (?ps ! i))) = Ok e
      \<and> te_compressed e = fst (?ps ! i) \<and> unat (te_chunk_offset e) = snd (?ps ! i)"
    using entry_fields [OF laws, of "snd (?ps ! i)" "fst (?ps ! i)"] p b(4) by (simp add: unat_of_nat)
qed

text \<open>The ranges of the chunks: from one place to the next, the last one to the end of the area.\<close>

fun chunk_ranges :: "nat \<Rightarrow> (bool \<times> bytes) list \<Rightarrow> (nat \<times> nat \<times> bool) list" where
  "chunk_ranges lo [] = []"
| "chunk_ranges lo (ch # chs) =
    (lo, lo + length (snd ch), fst ch) # chunk_ranges (lo + length (snd ch)) chs"

definition place_range :: "nat \<Rightarrow> (bool \<times> bytes) list \<Rightarrow> nat \<Rightarrow> nat \<times> nat \<times> bool" where
  "place_range lo chs i =
    (snd (places lo chs ! i),
     if Suc i < length chs then snd (places lo chs ! Suc i) else lo + length (chunk_area chs),
     fst (places lo chs ! i))"

lemma place_ranges: "map (place_range lo chs) [0..<length chs] = chunk_ranges lo chs"
proof (induction chs arbitrary: lo)
  case (Cons ch chs)
  let ?lo = "lo + length (snd ch)"
  have "place_range lo (ch # chs) 0 = (lo, ?lo, fst ch)"
    by (cases chs) (simp_all add: place_range_def chunk_area_def)
  moreover have "place_range lo (ch # chs) \<circ> Suc = place_range ?lo chs"
    by (rule ext) (simp add: place_range_def chunk_area_def add.assoc)
  ultimately show ?case
    using Cons [of ?lo] by (simp add: map_upt_Suc comp_def del: upt_Suc)
qed simp

lemma chunk_ranges_ascend:
  assumes "list_all (\<lambda>ch. 0 < length (snd ch)) chs"
  shows "list_all (\<lambda>(a, b, c). lo \<le> a \<and> a < b \<and> b \<le> lo + length (chunk_area chs)) (chunk_ranges lo chs)"
  using assms
proof (induction chs arbitrary: lo)
  case (Cons ch chs)
  show ?case
    using Cons.IH [of "lo + length (snd ch)"] Cons.prems by (auto simp: chunk_area_def list_all_iff)
qed simp

section \<open>An instance\<close>

text \<open>The codec of the reference externals: the compressed form is the data itself.\<close>

lemma ref_inflates: "inflates ref_externals z z"
proof -
  let ?pos = "\<lambda>hist. min (sum_list hist) (length z)"
  have "\<exists>k \<le> n. x_zlib_read ref_externals z hist n = Some (take k (drop (?pos hist) z))
      \<and> ?pos (hist @ [n]) = ?pos hist + k \<and> ?pos (hist @ [n]) \<le> length z
      \<and> (0 < n \<and> ?pos hist < length z \<longrightarrow> 0 < k)" for hist n
    by (intro exI [of _ "min n (length z - ?pos hist)"]) (auto simp: ref_externals_def min_def)
  then show ?thesis
    unfolding inflates_def by (intro conjI exI [of _ ?pos]) (simp_all add: ref_externals_def)
qed

text \<open>
  Two chunks of 1024 bytes, the first compressed, the second with the checksum \<open>crc\<close>; the media
  covers three sectors.
\<close>

definition two_chunks :: "u32 \<Rightarrow> acquisition" where
  "two_chunks crc = \<lparr>aq_spc = 2, aq_bps = 512, aq_sectors = 3,
     aq_chunks = [(True, replicate 1024 7), (False, replicate 1024 9 @ to_le 4 (unat crc))],
     aq_md5 = replicate 16 7\<rparr>"

definition two_states :: "u32 \<Rightarrow> chunk_state list" where
  "two_states crc = [Sound (replicate 1024 7),
     if crc = adler32 ref_externals (replicate 1024 9) then Sound (replicate 1024 9)
     else WrongSum (replicate 1024 9) crc]"

lemma two_chunks_writable: "writable ref_externals (two_chunks crc) (two_states crc)"
  by (simp add: writable_def two_chunks_def two_states_def ref_inflates MAX_CHUNK_SIZE_def MAX_TABLE_ENTRIES_def
      table_pos_def chunk_area_def well_sized_def)

lemma two_chunks_acquired: "acquired (two_chunks crc) (two_states crc) = replicate 1024 7 @ replicate 512 9"
  by (simp add: acquired_def two_chunks_def two_states_def)

lemma two_chunks_readable: "Garbled \<notin> set (two_states crc)"
  by (simp add: two_states_def)

section \<open>Reading back what was written\<close>

text \<open>C2: the image written for given chunks, compressed or not, opens with the eager and with the lazy
  table from any source that presents its bytes; any session on the reader, after any earlier
  calls, returns exactly what it does on one buffer with the acquired bytes; and verification
  returns their MD5, and whether it is the one that was written. The checksums of the chunks play
  no part: a page with a wrong one is read like any other.
\<close>

theorem written_image_reads:
  assumes "lru_laws LS viewS" and "lru_laws LP viewP" and "safe_read_laws X"
    and "writable X a states" and "Garbled \<notin> set states" and "positioned_source src (write_image X a)"
    and "r0 = opened_reader LS LP X a src cache k" and "reader_reachable LS LP X r0 r"
    and "list_all op_in_range ops" and "batch_size threads \<le> 2 ^ 63"
  shows "open_v1 LS LP X [src] cache k = Ok r0
    \<and> run_reader LS LP X r ops = run_cursor \<lparr>cur_src = Mem (acquired a states), cur_pos = rd_position r\<rparr> ops
    \<and> (\<exists>r'. verify LS X threads r =
        (Ok \<lparr>vr_computed_md5 = x_md5 X (acquired a states), vr_computed_sha1 = None,
             vr_md5_match = Some (aq_md5 a = x_md5 X (acquired a states)), vr_sha1_match = None,
             vr_addressable_bytes = aq_spc a * aq_bps a * length states,
             vr_declared_bytes = aq_sectors a * aq_bps a\<rparr>, r'))"
proof -
  note rc = reader_caches_laws [OF assms(1,2)] and num = writable_numbers [OF assms(4)]
  let ?pages = "map (state_page (aq_spc a * aq_bps a)) states"
  have op: "open_v1 LS LP X [src] cache k = Ok r0"
    using written_open [OF assms(6,3,4)] by (simp add: assms(7))
  have inv: "reader_caches.session_inv viewS viewP X r0 r"
    by (rule reader_caches.opened_inv [OF rc op assms(8)])
  have r: "intact X r0 ?pages" "media_image r0 ?pages = acquired a states"
    using written_intact [OF assms(6,3,4,5) refl] by (simp_all add: assms(7))
  have sel: "rd_chunk_size r0 = aq_spc a * aq_bps a" "rd_stored_sha1 r0 = None"
    "rd_stored_md5 r0 = Some (aq_md5 a)" "rd_total_size r0 = aq_sectors a * aq_bps a"
    by (simp_all add: assms(7) opened_reader_def)
  have "length (aq_chunks a) \<le> 4000000" using assms(4) by (simp add: writable_def MAX_TABLE_ENTRIES_def)
  then have bounds: "length ?pages + batch_size threads \<le> u64_max" "rd_chunk_size r0 * length ?pages \<le> u64_max"
    using num assms(10) by (simp_all add: sel u64_max_def mult.commute)
  show ?thesis
    using op reader_caches.opened_cursor [OF rc inv r(1) assms(9)]
      reader_caches.opened_verify [OF rc inv r(1) bounds] by (simp add: sel r(2))
qed

theorem written_image_reads_witness:
  "open_v1 lru_list_ops lru_list_ops ref_externals [File (write_image ref_externals (two_chunks 5))] 100 (Some 8) =
      Ok (opened_reader lru_list_ops lru_list_ops ref_externals (two_chunks 5)
            (File (write_image ref_externals (two_chunks 5))) 100 (Some 8))
    \<and> run_reader lru_list_ops lru_list_ops ref_externals (opened_reader lru_list_ops lru_list_ops ref_externals
          (two_chunks 5) (File (write_image ref_externals (two_chunks 5))) 100 (Some 8)) [OpSeek (SeekStart 1022), OpRead 4]
        = [OutPos (Ok 1022), OutBytes (Ok [7, 7, 9, 9])]"
proof -
  let ?src = "File (write_image ref_externals (two_chunks 5))"
  let ?r = "opened_reader lru_list_ops lru_list_ops ref_externals (two_chunks 5) ?src 100 (Some 8)"
  let ?ops = "[OpSeek (SeekStart 1022), OpRead 4]"
  note t = written_image_reads [OF lru_list_laws lru_list_laws ref_safe_read_laws two_chunks_writable
      two_chunks_readable file_source.positioned_source_axioms refl reach_start, of ?ops 1 5 100 "Some 8"]
  have four: "take 4 (drop 1022 (replicate 1024 (7 :: u8) @ replicate 512 9)) = [7, 7, 9, 9]"
    by simp (simp add: numeral_2_eq_2)
  have "run_cursor \<lparr>cur_src = Mem (acquired (two_chunks 5) (two_states 5)), cur_pos = rd_position ?r\<rparr> ?ops =
      [OutPos (Ok 1022), OutBytes (Ok [7, 7, 9, 9])]"
    unfolding two_chunks_acquired using four
    by (simp add: cursor_read_def cursor_seek_def seek_target_def as_i64_def Let_def mem_read del: read_at.simps
        drop_append take_append)
  with t show ?thesis by (simp add: batch_size_def sat_mul_def u64_max_def)
qed

end
