(* ===== verification/Written_Analysis.thy ===== *)
theory Written_Analysis
  imports Written_Image Integrity
begin

text \<open>
  The integrity analysis of a written image, \<open>forensic/src/integrity.rs\<close> on the image of
  \<open>Written_Image\<close>: every structural check passes, the hashers are fed the bytes of the chunks that
  can be read, and the anomalies are exactly the damaged chunks and the digests that differ.
\<close>

section \<open>Sections\<close>

definition written_entries :: "acquisition \<Rightarrow> SectionEntry list" where
  "written_entries a =
    [\<lparr>se_type_name = lit ''volume'', se_offset = 13, se_size = 1128\<rparr>,
     \<lparr>se_type_name = lit ''sectors'', se_offset = 1141, se_size = 76 + length (chunk_area (aq_chunks a))\<rparr>,
     \<lparr>se_type_name = lit ''table'', se_offset = table_pos a, se_size = 100 + 4 * length (aq_chunks a)\<rparr>,
     \<lparr>se_type_name = lit ''hash'', se_offset = hash_pos a, se_size = 92\<rparr>,
     \<lparr>se_type_name = lit ''done'', se_offset = hash_pos a + 92, se_size = 76\<rparr>]"

lemma written_known:
  "t \<in> set written_names \<Longrightarrow> lit t \<in> set KNOWN_TYPES \<and> lit t \<noteq> lit ''next''"
  by (auto simp: written_names_def KNOWN_TYPES_def lit_def)

lemma walk_written_step:
  assumes laws: "safe_read_laws X" and t: "t \<in> set written_names" and small: "length data < 2 ^ 33"
    and at: "slice off (off + 76) data = sealed_descriptor X t nxt sz" "off + 76 \<le> length data"
    and nums: "nxt < 2 ^ 34" "sz < 2 ^ 34"
  shows "walk_sections_v1_from X data off ss iss =
    (let ss' = ss @ [\<lparr>se_type_name = lit t, se_offset = off, se_size = sz\<rparr>]
     in if lit t = lit ''done'' then Ok (ss', iss)
        else if nxt = 0 \<or> length data < nxt \<or> nxt \<le> off then Ok (ss', iss @ [SectionChainBroken off nxt])
        else walk_sections_v1_from X data nxt ss' (iss @ gap_issues data (off + sz) nxt))"
proof -
  have sat: "sat_add off 76 = off + 76" "sat_add off sz = off + sz"
    using small at(2) nums by (simp_all add: sat_add_def u64_max_def)
  have raw: "index_range data off (off + 76) = (Ok (sealed_descriptor X t nxt sz) :: bytes run)"
    using at by (simp add: index_range_def get_range_def)
  have u: "unat (sd_next (written_descriptor X t nxt sz off)) = nxt"
    "unat (sd_size (written_descriptor X t nxt sz off)) = sz"
    using nums by simp_all
  have inside: "(length data < off + 76) = False" using at(2) by simp
  have good: "(lit t \<in> set KNOWN_TYPES) = True" "(lit t = lit ''next'') = False"
    "descriptor_verify_crc X (written_descriptor X t nxt sz off) (sealed_descriptor X t nxt sz) = True"
    using written_known [OF t] sealed_verifies [OF t] by blast+
  show ?thesis
    by (simp only: walk_sections_v1_from.simps [of X data off] sat inside if_False raw result.case
        sealed_parse [OF laws t] Let_def written_descriptor_sel(1,2) u good if_True append_Nil2 simp_thms)
qed

lemma gap_none [simp]: "gap_issues data n n = []"
  by (simp add: gap_issues_def)

lemma walk_written:
  assumes laws: "safe_read_laws X" and sz: "sized a"
  shows "walk_sections_v1 X (write_image X a) = Ok (written_entries a, [])"
proof -
  note b = sized_bounds [OF sz]
  note d = written_descriptors [OF sz]
  let ?f = "walk_sections_v1_from X (write_image X a)"
  note step = walk_written_step [OF laws _ b(2) [of X]]
  have nd: "lit ''volume'' \<noteq> lit ''done''" "lit ''sectors'' \<noteq> lit ''done''" "lit ''table'' \<noteq> lit ''done''"
    "lit ''hash'' \<noteq> lit ''done''"
    by (simp_all add: lit_def)
  have names: "''volume'' \<in> set written_names" "''sectors'' \<in> set written_names" "''table'' \<in> set written_names"
    "''hash'' \<in> set written_names" "''done'' \<in> set written_names"
    by (simp_all add: written_names_def)
  have tp: "76 + (1141 + length (chunk_area (aq_chunks a))) = table_pos a"
    "table_pos a + (100 + 4 * length (aq_chunks a)) = hash_pos a"
    by (simp_all add: table_pos_def hash_pos_def)
  have 1: "?f 13 ss iss = ?f 1141 (ss @ [written_entries a ! 0]) iss" for ss iss
    using step [OF names(1), of 13 1141 1128] d(1) b nd
    by (simp add: written_entries_def Let_def del: lit_Cons)
  have 2: "?f 1141 ss iss = ?f (table_pos a) (ss @ [written_entries a ! 1]) iss" for ss iss
    using step [OF names(2), of 1141 "table_pos a" "76 + length (chunk_area (aq_chunks a))"] d(2) b nd tp
    by (simp add: written_entries_def Let_def del: lit_Cons)
  have 3: "?f (table_pos a) ss iss = ?f (hash_pos a) (ss @ [written_entries a ! 2]) iss" for ss iss
    using step [OF names(3) d(3)] b nd tp
    by (simp add: written_entries_def Let_def del: lit_Cons)
  have 4: "?f (hash_pos a) ss iss = ?f (hash_pos a + 92) (ss @ [written_entries a ! 3]) iss" for ss iss
    using step [OF names(4) d(4)] b nd
    by (simp add: written_entries_def Let_def del: lit_Cons)
  have 5: "?f (hash_pos a + 92) ss iss = Ok (ss @ [written_entries a ! 4], iss)" for ss iss
    using step [OF names(5) d(5)] b
    by (simp add: written_entries_def Let_def del: lit_Cons)
  have "?f 13 [] [] = Ok ([written_entries a ! 0, written_entries a ! 1, written_entries a ! 2,
      written_entries a ! 3, written_entries a ! 4], [])"
    unfolding 1 2 3 4 5 by simp
  then show ?thesis
    by (simp add: walk_sections_v1_def written_entries_def)
qed

text \<open>Where the checks find the sections they ask for.\<close>

lemma written_found:
  "find_section ''sectors'' (written_entries a) =
    Some \<lparr>se_type_name = lit ''sectors'', se_offset = 1141, se_size = 76 + length (chunk_area (aq_chunks a))\<rparr>"
  "find_section ''table'' (written_entries a) =
    Some \<lparr>se_type_name = lit ''table'', se_offset = table_pos a, se_size = 100 + 4 * length (aq_chunks a)\<rparr>"
  "find_section ''hash'' (written_entries a) =
    Some \<lparr>se_type_name = lit ''hash'', se_offset = hash_pos a, se_size = 92\<rparr>"
  "find_section ''done'' (written_entries a) =
    Some \<lparr>se_type_name = lit ''done'', se_offset = hash_pos a + 92, se_size = 76\<rparr>"
  "find_section ''table2'' (written_entries a) = None" "find_section ''error2'' (written_entries a) = None"
  "find_section ''digest'' (written_entries a) = None"
  "find_volume (written_entries a) = Some \<lparr>se_type_name = lit ''volume'', se_offset = 13, se_size = 1128\<rparr>"
  by (simp_all add: find_section_def find_volume_def written_entries_def lit_def)

section \<open>Volume\<close>

text \<open>
  What the analyser expects of the geometry beyond what the reader needs: a usual sector size, a
  power of two of sectors in a chunk, and no more chunks than the sectors need.
\<close>

definition conventional :: "acquisition \<Rightarrow> bool" where
  "conventional a \<longleftrightarrow> (aq_bps a = 512 \<or> aq_bps a = 4096) \<and> is_power_of_two (of_nat (aq_spc a)) \<and>
    length (aq_chunks a) * aq_spc a < aq_sectors a + aq_spc a"

definition geometry_matches :: "acquisition \<Rightarrow> VolumeGeometry \<Rightarrow> bool" where
  "geometry_matches a g \<longleftrightarrow> vg_chunk_count g = of_nat (length (aq_chunks a)) \<and>
    unat (vg_sectors_per_chunk g) = aq_spc a \<and> unat (vg_bytes_per_sector g) = aq_bps a \<and>
    unat (vg_sector_count g) = aq_sectors a"

lemma volume_crc_read:
  assumes "safe_read_laws X"
  shows "x_le_u32 X (volume_body X a) 1048 = adler32 X (take 1048 (volume_body X a))"
proof -
  have len: "length (volume_front a) = 1048" by (simp add: volume_front_def)
  then have "take 1048 (volume_body X a) = volume_front a" by (simp add: volume_body_def)
  then show ?thesis
    using u32_field [OF assms len, of "adler32 X (volume_front a)" "[]"] by (simp add: volume_body_def)
qed

lemma written_volume_checked:
  assumes laws: "safe_read_laws X" and wr: "writable X a states" and conv: "conventional a"
  shows "\<exists>g. check_volume_v1 X (write_image X a) 13 1128 = Ok (Some g, []) \<and> geometry_matches a g"
proof -
  note sz = writable_sized [OF wr] and num = writable_numbers [OF wr]
  note b = sized_bounds [OF sz]
  let ?v = "volume_body X a"
  obtain v where v: "volume_parse X ?v = Ok v" "unat (vol_chunk_count v) = length (aq_chunks a)"
      "unat (vol_sectors_per_chunk v) = aq_spc a" "unat (vol_bytes_per_sector v) = aq_bps a"
      "unat (vol_sector_count v) = aq_sectors a" "vol_media_type v = 1"
      "vol_stored_crc v = Some (adler32 X (take 1048 ?v))"
    using volume_fields [OF laws b(8) num(1-3), where k = 1052 and buf = ?v] volume_crc_read [OF laws, of a] by auto
  have words: "vol_chunk_count v = of_nat (length (aq_chunks a))" "vol_sectors_per_chunk v = of_nat (aq_spc a)"
    "vol_bytes_per_sector v = of_nat (aq_bps a)"
    using v(2-4) by (metis of_nat_unat ucast_id)+
  have bps: "vol_bytes_per_sector v = 512 \<or> vol_bytes_per_sector v = 4096"
    using conv words(3) by (auto simp: conventional_def)
  have "0 < aq_spc a" "length (aq_chunks a) \<le> 4000000" using wr by (simp_all add: writable_def MAX_TABLE_ENTRIES_def)
  then have spc: "vol_sectors_per_chunk v \<noteq> 0" "length (aq_chunks a) * aq_spc a \<le> u64_max"
    using v(3) num(1) mult_le_mono [of "length (aq_chunks a)" 4000000 "aq_spc a" "2 ^ 32"]
    by (auto simp: u64_max_def)
  then have sectors: "sat_mul (length (aq_chunks a)) (aq_spc a) = length (aq_chunks a) * aq_spc a"
    by (simp add: sat_mul_def)
  have "aq_sectors a \<le> length (aq_chunks a) * aq_spc a" "0 < aq_sectors a" using wr by (simp_all add: writable_def)
  moreover from this have "\<not> aq_sectors a \<le> length (aq_chunks a) * aq_spc a - aq_spc a"
    using conv unfolding conventional_def by linarith
  ultimately have "volume_issues X ?v v = []"
    using v bps spc sectors conv words(2)
    by (auto simp: volume_issues_def Let_def VALID_MEDIA_TYPES_def conventional_def volume_verify_crc_def
        get_range_def)
  moreover have "sat_add 13 76 = 89" "sat_add 89 24 = 113" "sat_add 89 1052 = 1141"
    by (simp_all add: sat_add_def u64_max_def)
  moreover have "index_range (write_image X a) 89 1141 = (Ok ?v :: bytes run)"
    using written_bodies(1) [OF sz] b by (simp add: index_range_def get_range_def)
  ultimately show ?thesis
    using v(1-5) words b by (auto simp: check_volume_v1_def geometry_matches_def Let_def index_range_def min_def)
qed

section \<open>Table\<close>

lemma written_entry_issues:
  assumes laws: "safe_read_laws X" and wr: "writable X a states" and "\<forall>i \<in> set is. i < length (aq_chunks a)"
  shows "table_entry_issues X (write_image X a) (table_pos a + 100) 0 (length (write_image X a))
      (Some (1217, table_pos a)) is = []"
  using assms(3)
proof (induction "is")
  case (Cons i "is")
  note b = sized_bounds [OF writable_sized [OF wr]]
  have i: "i < length (aq_chunks a)" using Cons.prems by simp
  obtain e where e: "table_entry_parse X (encode_table_entry (fst (places 1217 (aq_chunks a) ! i))
        (snd (places 1217 (aq_chunks a) ! i))) = Ok e"
      "unat (te_chunk_offset e) = snd (places 1217 (aq_chunks a) ! i)"
    using written_entry(2) [OF laws wr i] by auto
  have sat: "sat_mul i 4 = i * 4" "sat_add (table_pos a + 100) (i * 4) = table_pos a + 100 + i * 4"
    "sat_add (table_pos a + 100 + i * 4) 4 = table_pos a + 100 + i * 4 + 4" "sat_add 0 n = min n u64_max" for n
    using b i by (simp_all add: sat_add_def sat_mul_def u64_max_def)
  show ?case
    unfolding table_entry_issues.simps sat(1-3) written_entry(1) [OF laws wr i] Let_def option.case e(1) result.case
    using Cons written_entry(3,4) [OF laws wr i] b by (simp add: sat(4) e(2) u64_max_def)
qed simp

lemma written_table_rest:
  assumes "sized a"
  shows "slice (table_pos a + 76) (length (write_image X a)) (write_image X a) =
    table_head X a @ drop (table_pos a + 100) (write_image X a)"
proof -
  note b = sized_bounds [OF assms]
  let ?img = "write_image X a" and ?n = "length (write_image X a)"
  have "slice (table_pos a + 76) (table_pos a + 100) ?img @ slice (table_pos a + 100) ?n ?img =
      slice (table_pos a + 76) ?n ?img"
    using b by (intro slice_append_slice) auto
  moreover have "slice (table_pos a + 100) ?n ?img = drop (table_pos a + 100) ?img" by (simp add: slice_def)
  ultimately show ?thesis by (simp only: written_bodies(3) [OF assms])
qed

lemma written_table_checked:
  assumes laws: "safe_read_laws X" and wr: "writable X a states"
  shows "check_table_v1 X (write_image X a) (table_pos a) (Some (of_nat (length (aq_chunks a))))
      (length (write_image X a)) (Some (1217, table_pos a)) = Ok []"
proof -
  note sz = writable_sized [OF wr]
  note b = sized_bounds [OF sz]
  let ?img = "write_image X a" and ?n = "length (write_image X a)"
  define rest where "rest = drop (table_pos a + 100) ?img"
  have tbl: "slice (table_pos a + 76) ?n ?img = table_head X a @ rest"
    unfolding rest_def by (rule written_table_rest [OF sz])
  obtain h where h: "table_header_parse X (table_head X a @ rest) = Ok h"
      "unat (th_entry_count h) = length (aq_chunks a)" "th_base_offset h = 0"
      "th_stored_crc h = adler32 X (take 16 (table_head X a))"
    using table_head_fields(1) [OF laws b(8)] by blast
  have n: "th_entry_count h = of_nat (length (aq_chunks a))" using h(2) by (metis of_nat_unat ucast_id)
  have sat: "sat_add (table_pos a) 76 = table_pos a + 76" "sat_add (table_pos a + 76) 24 = table_pos a + 100"
    using b by (simp_all add: sat_add_def u64_max_def)
  have crc: "table_header_verify_crc X h (table_head X a @ rest) \<noteq> Some False"
    using h(4) by (simp add: table_header_verify_crc_def get_range_def)
  have "index_range ?img (table_pos a + 76) ?n = (Ok (table_head X a @ rest) :: bytes run)"
    using b tbl by (simp add: index_range_def get_range_def)
  moreover have "\<not> ?n < table_pos a + 100" using b by simp
  moreover have "unat (of_nat (length (aq_chunks a)) :: u32) = length (aq_chunks a)" using h(2) n by simp
  ultimately show ?thesis
    using crc written_entry_issues [OF laws wr, of "[0..<length (aq_chunks a)]"]
    by (simp add: check_table_v1_def sat h n Let_def index_range_def)
qed

section \<open>What the hashers are fed\<close>

lemma written_seg_entry:
  assumes laws: "safe_read_laws X" and wr: "writable X a states" and i: "i < length (aq_chunks a)"
  shows "seg_entry_at X (write_image X a) (table_pos a + 100) i = Some (places 1217 (aq_chunks a) ! i)"
proof -
  note b = sized_bounds [OF writable_sized [OF wr]]
  have sat: "sat_mul i 4 = i * 4" "sat_add (table_pos a + 100) (i * 4) = table_pos a + 100 + i * 4"
    "sat_add (table_pos a + 100 + i * 4) 4 = table_pos a + 100 + i * 4 + 4"
    using b i by (simp_all add: sat_add_def sat_mul_def u64_max_def)
  show ?thesis
    unfolding seg_entry_at_def sat Let_def written_entry(1) [OF laws wr i]
    using written_entry(2) [OF laws wr i] by (cases "places 1217 (aq_chunks a) ! i") auto
qed

lemma written_chunk_loop:
  assumes laws: "safe_read_laws X" and wr: "writable X a states" and "\<forall>i \<in> set is. i < length (aq_chunks a)"
  shows "segment_chunks_loop X (write_image X a) (table_pos a + 100) 0 (length (aq_chunks a)) (table_pos a) is =
    map (place_range 1217 (aq_chunks a)) is"
  using assms(3)
proof (induction "is")
  case (Cons i "is")
  note b = sized_bounds [OF writable_sized [OF wr]]
  let ?ps = "places 1217 (aq_chunks a)" and ?n = "length (aq_chunks a)"
  have i: "i < ?n" using Cons.prems by simp
  have sat: "sat_add i (Suc 0) = Suc i" "sat_add 0 m = min m u64_max" for m
    using b i by (simp_all add: sat_add_def u64_max_def)
  have "place_range 1217 (aq_chunks a) i \<in> set (chunk_ranges 1217 (aq_chunks a))"
    using i unfolding place_ranges [symmetric] by simp
  then have r: "snd (?ps ! i) < fst (snd (place_range 1217 (aq_chunks a) i))"
      "fst (snd (place_range 1217 (aq_chunks a) i)) \<le> table_pos a"
    using chunk_ranges_ascend [OF written_chunks_nonempty [OF wr], of 1217]
    by (auto simp: list_all_iff table_pos_def place_range_def)
  have tp: "1217 + length (chunk_area (aq_chunks a)) = table_pos a" by (simp add: table_pos_def)
  show ?case
  proof (cases "Suc i < ?n")
    case True
    then show ?thesis
      using Cons r b written_seg_entry [OF laws wr i] written_seg_entry [OF laws wr True]
      by (auto simp: sat place_range_def Let_def u64_max_def split: prod.split)
  next
    case False
    then show ?thesis
      using Cons r b tp written_seg_entry [OF laws wr i]
      by (auto simp: sat place_range_def Let_def u64_max_def split: prod.split)
  qed
qed simp

lemma written_ranges:
  assumes laws: "safe_read_laws X" and wr: "writable X a states"
  shows "iter_segment_chunks X (write_image X a) (written_entries a) = Ok (chunk_ranges 1217 (aq_chunks a))"
proof -
  note sz = writable_sized [OF wr]
  note b = sized_bounds [OF sz]
  let ?img = "write_image X a" and ?n = "length (write_image X a)"
  obtain h where h: "table_header_parse X (slice (table_pos a + 76) ?n ?img) = Ok h"
      "unat (th_entry_count h) = length (aq_chunks a)" "th_base_offset h = 0"
    using table_head_fields(1) [OF laws b(8)] written_table_rest [OF sz] by metis
  have sat: "sat_add (table_pos a) 76 = table_pos a + 76" "sat_add (table_pos a + 76) 24 = table_pos a + 100"
    "sat_add 1141 (76 + length (chunk_area (aq_chunks a))) = table_pos a"
    using b by (simp_all add: sat_add_def u64_max_def)
  have "index_range ?img (table_pos a + 76) ?n = (Ok (slice (table_pos a + 76) ?n ?img) :: bytes run)"
    using b by (simp add: index_range_def get_range_def)
  moreover have "\<not> ?n < table_pos a + 100" using b by simp
  moreover have "segment_chunks_loop X ?img (table_pos a + 100) 0 (length (aq_chunks a)) (table_pos a)
      [0..<length (aq_chunks a)] = chunk_ranges 1217 (aq_chunks a)"
    using written_chunk_loop [OF laws wr, of "[0..<length (aq_chunks a)]"] by (simp add: place_ranges)
  ultimately show ?thesis
    by (simp add: iter_segment_chunks_def written_found sat h Let_def index_range_def)
qed

lemma u32_to_le: "u32_from_le (to_le 4 (unat (w :: u32))) = w"
proof -
  have "from_le (to_le 4 (unat w)) = unat w"
    using unsigned_less [of w, where ?'a = nat] by (intro from_le_to_le) simp
  then show ?thesis by (simp add: u32_from_le_def)
qed

lemma stored_trailer:
  assumes "length page = cs" and "cs < 2 ^ 32"
  shows "le_u32 (page @ to_le 4 (unat (w :: u32))) cs = w"
  using assms by (simp add: le_u32_def array_at_def get_range_def slice_def sat_add_def u64_max_def fill_buf_exact u32_to_le)

text \<open>What a chunk contributes to the hashes and to the anomalies.\<close>

fun state_fed :: "chunk_state \<Rightarrow> bytes" where
  "state_fed (Sound page) = page"
| "state_fed (WrongSum page crc) = page"
| "state_fed Garbled = []"

fun state_issues :: "externals \<Rightarrow> nat \<Rightarrow> chunk_state \<Rightarrow> EwfIntegrityAnomaly list" where
  "state_issues X i (Sound page) = []"
| "state_issues X i (WrongSum page crc) = [ChunkChecksumMismatch i (adler32 X page) crc]"
| "state_issues X i Garbled = [ChunkDecompressionError i]"

fun fed_media :: "nat \<Rightarrow> nat \<Rightarrow> chunk_state list \<Rightarrow> bytes" where
  "fed_media cs left [] = []"
| "fed_media cs left (s # ss) = take left (state_fed s) @ fed_media cs (left - cs) ss"

fun damage_from :: "externals \<Rightarrow> nat \<Rightarrow> chunk_state list \<Rightarrow> EwfIntegrityAnomaly list" where
  "damage_from X i [] = []"
| "damage_from X i (s # ss) = state_issues X i s @ damage_from X (Suc i) ss"

lemma fed_media_pages:
  assumes "list_all2 (stores X cs) chs states" and "Garbled \<notin> set states"
  shows "fed_media cs left states = take left (concat (map (state_page cs) states))"
  using assms
proof (induction arbitrary: left rule: list_all2_induct)
  case (Cons ch chs s ss)
  have "state_fed s = state_page cs s" using Cons.prems by (cases s) auto
  then show ?case using Cons.IH Cons.prems length_state_page [OF Cons.hyps(1)] by simp
qed simp

text \<open>One stored chunk: the hashers get its page, cut to what remains, and its damage is reported.\<close>

lemma hash_stored_chunk:
  assumes st: "stores X cs ch s" and cs: "0 < cs" "cs < 2 ^ 32" and i: "hs_chunk_idx h < 2 ^ 63"
  shows "hs_fed (hash_chunk X cs t (snd ch) (fst ch) h) = hs_fed h @ take (hs_remaining h) (state_fed s)"
    "hs_remaining (hash_chunk X cs t (snd ch) (fst ch) h) = hs_remaining h - cs"
    "hs_issues (hash_chunk X cs t (snd ch) (fst ch) h) = hs_issues h @ state_issues X (hs_chunk_idx h) s"
    "hs_chunk_idx (hash_chunk X cs t (snd ch) (fst ch) h) = Suc (hs_chunk_idx h)"
proof -
  let ?n = "min (hs_remaining h) cs"
  have room: "sat_add ?n (Suc 0) = Suc ?n" "sat_add cs 4 = cs + 4"
    using cs by (simp_all add: sat_add_def u64_max_def)
  have idx: "sat_add (hs_chunk_idx h) (Suc 0) = Suc (hs_chunk_idx h)"
    using i by (simp add: sat_add_def u64_max_def)
  show "hs_remaining (hash_chunk X cs t (snd ch) (fst ch) h) = hs_remaining h - cs"
    "hs_chunk_idx (hash_chunk X cs t (snd ch) (fst ch) h) = Suc (hs_chunk_idx h)"
    by (cases "fst ch"; auto simp: hash_chunk_def Let_def idx split: option.split)+
  have "hs_fed (hash_chunk X cs t (snd ch) (fst ch) h) = hs_fed h @ take (hs_remaining h) (state_fed s)
    \<and> hs_issues (hash_chunk X cs t (snd ch) (fst ch) h) = hs_issues h @ state_issues X (hs_chunk_idx h) s"
  proof (cases s)
    case (Sound page)
    then have len: "length page = cs" using length_state_page [OF st] by simp
    have cut: "take (min (length d) ?n) d = take (hs_remaining h) page" if "take ?n d = take ?n page" for d :: bytes
    proof -
      have "take (min (length d) ?n) d = take ?n d" by (simp add: min_def)
      moreover have "take ?n page = take (hs_remaining h) page" using len by (simp add: min_def)
      ultimately show ?thesis using that by simp
    qed
    show ?thesis
    proof (cases "fst ch")
      case True
      then have "x_zlib_read_to_end X (snd ch) (Some (Suc ?n)) = Some (take (Suc ?n) page)"
        using st Sound by (cases ch) (simp add: inflates_def)
      then show ?thesis
        using True Sound cut [of "take (Suc ?n) page"] by (simp add: hash_chunk_def Let_def room)
    next
      case False
      then have "snd ch = page @ to_le 4 (unat (adler32 X page))" using st Sound by (cases ch) simp
      then show ?thesis
        using False Sound len cut [of "snd ch"] stored_trailer [OF len cs(2), of "adler32 X page"]
        by (simp add: hash_chunk_def Let_def)
    qed
  next
    case (WrongSum page crc)
    then have raw: "length page = cs" "\<not> fst ch" "snd ch = page @ to_le 4 (unat crc)" "crc \<noteq> adler32 X page"
      using st by (cases ch; simp)+
    have "take (min (length (snd ch)) ?n) (snd ch) = take (hs_remaining h) page"
      using raw(1,3) by (simp add: min_def)
    then show ?thesis
      using WrongSum raw stored_trailer [OF raw(1) cs(2), of crc] by (auto simp: hash_chunk_def Let_def room)
  next
    case Garbled
    then show ?thesis using st by (cases ch) (simp add: hash_chunk_def Let_def)
  qed
  then show "hs_fed (hash_chunk X cs t (snd ch) (fst ch) h) = hs_fed h @ take (hs_remaining h) (state_fed s)"
    "hs_issues (hash_chunk X cs t (snd ch) (fst ch) h) = hs_issues h @ state_issues X (hs_chunk_idx h) s"
    by blast+
qed

lemma hash_written_chunks:
  assumes cs: "0 < cs" "cs < 2 ^ 32" and "list_all2 (stores X cs) chs states"
    and "take (length (chunk_area chs)) (drop lo data) = chunk_area chs"
    and "lo + length (chunk_area chs) \<le> length data"
    and "length chs * cs < hs_remaining h + cs" and "hs_chunk_idx h + length chs < 2 ^ 63"
  shows "\<exists>h' stop. hash_chunks X cs t data (chunk_ranges lo chs) h = Ok (h', stop)
    \<and> hs_fed h' = hs_fed h @ fed_media cs (hs_remaining h) states
    \<and> hs_issues h' = hs_issues h @ damage_from X (hs_chunk_idx h) states"
  using assms(3-7)
proof (induction chs arbitrary: lo states h)
  case (Cons ch chs)
  then obtain s ss where states: "states = s # ss" "stores X cs ch s" "list_all2 (stores X cs) chs ss"
    by (auto simp: list_all2_Cons1)
  let ?h = "hash_chunk X cs t (snd ch) (fst ch) h"
  note cut = area_cut [OF Cons.prems(2)]
  have inside: "lo + length (snd ch) + length (chunk_area chs) \<le> length data"
    using Cons.prems(3) by (simp add: chunk_area_def)
  have i: "hs_chunk_idx h < 2 ^ 63" using Cons.prems(5) by simp
  note one = hash_stored_chunk [OF states(2) cs i, of t]
  have left: "length chs * cs < hs_remaining h" using Cons.prems(4) by simp
  then have "length chs * cs < hs_remaining ?h + cs" unfolding one(2) by linarith
  moreover have "hs_chunk_idx ?h + length chs < 2 ^ 63" using Cons.prems(5) by (simp add: one(4))
  ultimately obtain h' stop where IH: "hash_chunks X cs t data (chunk_ranges (lo + length (snd ch)) chs) ?h = Ok (h', stop)"
      "hs_fed h' = hs_fed ?h @ fed_media cs (hs_remaining ?h) ss"
      "hs_issues h' = hs_issues ?h @ damage_from X (hs_chunk_idx ?h) ss"
    using Cons.IH [OF states(3) cut(2) inside, of ?h] by blast
  have raw: "index_range data lo (lo + length (snd ch)) = (Ok (snd ch) :: bytes run)"
    using cut(1) inside by (simp add: index_range_def get_range_def slice_def)
  have "hash_chunks X cs t data (chunk_ranges lo (ch # chs)) h = Ok (h', stop)"
    unfolding chunk_ranges.simps hash_chunks.simps raw and_then.simps using left IH(1) by simp
  then show ?case
    using IH(2,3) one by (simp add: states(1))
qed auto

section \<open>The analysis\<close>

lemma written_segment_analysed:
  assumes laws: "safe_read_laws X" and wr: "writable X a states" and conv: "conventional a"
  shows "\<exists>g n. analyse_segment_ewf1 X (Suc 0) (0, write_image X a) ewf1_init =
      Ok \<lparr>e1_geometry = Some g, e1_all_sections = [written_entries a], e1_total_entries = n, e1_issues = []\<rparr>
    \<and> geometry_matches a g"
proof -
  note sz = writable_sized [OF wr]
  note b = sized_bounds [OF sz]
  let ?img = "write_image X a"
  obtain g where g: "check_volume_v1 X ?img 13 1128 = Ok (Some g, [])" "geometry_matches a g"
    using written_volume_checked [OF laws wr conv] by blast
  have sat: "sat_add 1141 76 = 1217" "sat_add 1141 (76 + length (chunk_area (aq_chunks a))) = table_pos a"
    using b by (simp_all add: sat_add_def u64_max_def)
  have vol: "volume_check X 0 ?img (written_entries a) None = Ok (Some g, [])"
    using g(1) by (simp add: volume_check_def written_found)
  have count: "vg_chunk_count g = of_nat (length (aq_chunks a))" using g(2) by (simp add: geometry_matches_def)
  obtain n where tbl: "table_check X ?img (written_entries a) (Some (vg_chunk_count g)) 0 = Ok (n, [])"
    using written_table_checked [OF laws wr] by (auto simp: table_check_def written_found sat count Let_def)
  have front: "slice 0 8 ?img = EVF_SIGNATURE" "take 13 ?img = EVF_SIGNATURE @ [1, 1, 0, 0, 0]"
    using written_front [of a X] sz by (simp_all add: sized_def)
  have "slice 9 11 ?img = slice 9 11 (take 13 ?img)" by (simp add: slice_def take_drop)
  then have "slice 9 11 ?img = [1, 0]" unfolding front(2) by (simp add: slice_def EVF_SIGNATURE_def)
  then have num: "unat (le_u16 ?img 9) = 1"
    using b by (simp add: le_u16_def array_at_def get_range_def sat_add_def u64_max_def fill_buf_exact
        u16_from_le_def)
  have "signature_issues_v1 ?img = []" "segment_number_issues 1 1 = []"
    "table2_issues ?img (written_entries a) = []" "error2_issues ?img (written_entries a) = []"
    using front by (simp_all add: signature_issues_v1_def segment_number_issues_def table2_issues_def
        error2_issues_def written_found)
  then show ?thesis
    using b vol tbl g(2) walk_written [OF laws sz] num
    by (simp add: analyse_segment_ewf1_def ewf1_init_def Let_def written_found)
qed

lemma written_hash_checked:
  assumes laws: "safe_read_laws X" and wr: "writable X a states" and conv: "conventional a"
    and g: "geometry_matches a g" and s: "in_segments s = [write_image X a]"
    and fed: "fed = fed_media (aq_spc a * aq_bps a) (aq_sectors a * aq_bps a) states"
  shows "map_ok fst (check_hash_all_segments X s [written_entries a] g) =
    Ok (damage_from X 0 states @ mismatch HashMismatch (x_md5 X fed) (Some (aq_md5 a))
        @ external_issues s (hashes_of X fed))"
proof -
  note sz = writable_sized [OF wr] and num = writable_numbers [OF wr]
  note b = sized_bounds [OF sz]
  let ?img = "write_image X a" and ?cs = "aq_spc a * aq_bps a" and ?t = "aq_sectors a * aq_bps a"
  have geo: "geometry_chunk_size g = ?cs" "geometry_total_bytes g = ?t"
    using g num(5,10) by (simp_all add: geometry_chunk_size_def geometry_total_bytes_def geometry_matches_def
        sat_mul_def u64_max_def)
  let ?st = "\<lparr>hs_fed = [], hs_remaining = ?t, hs_chunk_idx = 0, hs_issues = [], hs_progress = []\<rparr>"
  have area: "take (length (chunk_area (aq_chunks a))) (drop 1217 ?img) = chunk_area (aq_chunks a)"
    "1217 + length (chunk_area (aq_chunks a)) \<le> length ?img"
    using written_bodies(2) [OF sz] b by (simp_all add: slice_def)
  have st: "list_all2 (stores X ?cs) (aq_chunks a) states" using wr by (simp add: writable_def)
  have "length (aq_chunks a) * aq_spc a < aq_sectors a + aq_spc a" using conv by (simp add: conventional_def)
  then have "length (aq_chunks a) * aq_spc a * aq_bps a < (aq_sectors a + aq_spc a) * aq_bps a"
    using num(4) by (intro mult_strict_right_mono) auto
  then have all: "length (aq_chunks a) * ?cs < hs_remaining ?st + ?cs" by (simp add: algebra_simps)
  obtain st' stop where run: "hash_chunks X ?cs ?t ?img (chunk_ranges 1217 (aq_chunks a)) ?st = Ok (st', stop)"
      "hs_fed st' = hs_fed ?st @ fed_media ?cs (hs_remaining ?st) states"
      "hs_issues st' = hs_issues ?st @ damage_from X (hs_chunk_idx ?st) states"
    using hash_written_chunks [OF num(4) _ st area all, of ?t] num(5) b(8) by auto
  then have fed': "hs_fed st' = fed" "hs_issues st' = damage_from X 0 states" by (simp_all add: fed)
  have hash: "hash_segments X ?cs ?t [(?img, written_entries a)] ?st = Ok st'"
    by (simp add: written_ranges [OF laws wr] run(1))
  have sat: "sat_add (hash_pos a) 76 = hash_pos a + 76" "sat_add (hash_pos a + 76) 16 = hash_pos a + 92"
    using b by (simp_all add: sat_add_def u64_max_def)
  have "stored_md5_issues ?img (written_entries a) m = mismatch HashMismatch m (Some (aq_md5 a))" for m
    using written_bodies(5) [OF sz] b by (simp add: stored_md5_issues_def written_found sat get_range_def)
  moreover have "stored_sha1_issues ?img (written_entries a) m = []" for m
    by (simp add: stored_sha1_issues_def written_found)
  moreover have "zip (in_segments s) [written_entries a] = [(?img, written_entries a)]" by (simp add: s)
  ultimately show ?thesis
    unfolding check_hash_all_segments_def geo Let_def by (simp only: hash and_then.simps) (simp add: fed' s hashes_of_def)
qed

lemma written_analysed:
  assumes laws: "safe_read_laws X" and wr: "writable X a states" and conv: "conventional a"
    and s: "in_segments s = [write_image X a]"
    and fed: "fed = fed_media (aq_spc a * aq_bps a) (aq_sectors a * aq_bps a) states"
  shows "analyse X s = Ok (damage_from X 0 states @ mismatch HashMismatch (x_md5 X fed) (Some (aq_md5 a))
      @ external_issues s (hashes_of X fed))"
proof -
  obtain g n where seg: "analyse_segment_ewf1 X (Suc 0) (0, write_image X a) ewf1_init =
      Ok \<lparr>e1_geometry = Some g, e1_all_sections = [written_entries a], e1_total_entries = n, e1_issues = []\<rparr>"
    "geometry_matches a g"
    using written_segment_analysed [OF laws wr conv] by blast
  have "take 8 (write_image X a) = EVF_SIGNATURE"
    using written_front [of a X] writable_sized [OF wr] by (simp add: sized_def)
  moreover have "EVF_SIGNATURE \<noteq> IN_EVF2_SIGNATURE" "EVF_SIGNATURE \<noteq> IN_LEF2_SIGNATURE" by code_simp+
  ultimately have v1: "\<not> is_ewf2 (in_segments s)" by (simp add: is_ewf2_def s)
  obtain iss evs where hash: "check_hash_all_segments X s [written_entries a] g = Ok (iss, evs)"
      "iss = damage_from X 0 states @ mismatch HashMismatch (x_md5 X fed) (Some (aq_md5 a))
        @ external_issues s (hashes_of X fed)"
    using written_hash_checked [OF laws wr conv seg(2) s fed]
    by (cases "check_hash_all_segments X s [written_entries a] g") auto
  show ?thesis
    using v1 seg hash by (simp add: analyse_def analyse_all_ewf1_def s Let_def chunk_total_issues_def)
qed


lemma two_chunks_conventional: "conventional (two_chunks crc)"
  unfolding conventional_def two_chunks_def acquisition.select_convs by code_simp


end
