(* ===== verification/Recover_Correct.thy ===== *)
theory Recover_Correct
  imports Recover Sample_Image
begin

text \<open>
  The account of a recovery: the output spans the image, the byte counts add up to it, the
  chunk counts are those of the chunks processed, the lists of lost and suspect chunks ascend,
  and the output is, chunk by chunk, what was decoded or zeros.
\<close>

lemma write_zeros_eq [simp]: "write_zeros n = replicate n 0"
proof (induction n rule: write_zeros.induct)
  case (1 left)
  show ?case
  proof (cases "left = 0")
    case False
    then have "write_zeros left = replicate (min left 8192) 0 @ replicate (left - min left 8192) 0"
      using 1 by (simp add: write_zeros.simps [of left])
    also have "\<dots> = replicate left 0" by (simp flip: replicate_add)
    finally show ?thesis .
  qed (simp add: write_zeros.simps [of 0])
qed

text \<open>\<open>idx\<close>-th piece of the output, \<open>n\<close> bytes long.\<close>

definition piece :: "(bytes \<times> bool \<times> bool) option \<Rightarrow> nat \<Rightarrow> bytes" where
  "piece d n = (case d of None \<Rightarrow> replicate n 0 | Some (bs, _, _) \<Rightarrow> fill_buf n bs)"

lemma length_piece [simp]: "length (piece d n) = n"
  by (simp add: piece_def split: option.split prod.split)

lemma fill_buf_cases:
  "(if n < length bs then take n bs
    else if length bs < n then bs @ replicate (n - length bs) 0 else bs) = fill_buf n bs"
  by (auto simp: fill_buf_def)

lemma recover_step_out:
  "rc_out (recover_step cs dec idx st) = rc_out st @ piece (dec idx) (min (rc_remaining st) cs)"
  by (auto simp: recover_step_def piece_def Let_def fill_buf_cases split: option.split prod.split)

lemma recover_step_remaining:
  "rc_remaining (recover_step cs dec idx st) = rc_remaining st - min (rc_remaining st) cs"
  by (auto simp: recover_step_def Let_def split: option.split prod.split)

section \<open>The account kept by the loop\<close>

text \<open>
  After the chunks below \<open>k\<close> of an image of \<open>size\<close> bytes, \<open>done\<close> bytes of it written.
\<close>

definition account ::
  "nat \<Rightarrow> (nat \<Rightarrow> (bytes \<times> bool \<times> bool) option) \<Rightarrow> nat \<Rightarrow> nat \<Rightarrow> recover_state \<Rightarrow> bool" where
  "account cs dec img k st \<longleftrightarrow>
    rc_remaining st = img - k * cs \<and>
    rc_bytes_recovered st + rc_bytes_zero_filled st + rc_remaining st = img \<and>
    rc_primary st = length (filter (\<lambda>i. \<exists>b c. dec i = Some (b, False, c)) [0..<k]) \<and>
    rc_table2 st = length (filter (\<lambda>i. \<exists>b c. dec i = Some (b, True, c)) [0..<k]) \<and>
    rc_lost st = filter (\<lambda>i. dec i = None) [0..<k] \<and>
    rc_zero_filled st = length (rc_lost st) \<and>
    rc_crc_list st = filter (\<lambda>i. \<exists>b t. dec i = Some (b, t, False)) [0..<k] \<and>
    rc_crc_flagged st = length (rc_crc_list st) \<and>
    rc_bytes_zero_filled st = sum_list (map (\<lambda>i. min (img - i * cs) cs) (rc_lost st)) \<and>
    rc_out st = concat (map (\<lambda>i. piece (dec i) (min (img - i * cs) cs)) [0..<k])"

lemma account_init: "account cs dec img 0 (recover_init img)"
  by (simp add: account_def recover_init_def)

lemma sat_add_small: "a \<le> b \<Longrightarrow> b < u64_max \<Longrightarrow> sat_add a 1 = Suc a"
  by (simp add: sat_add_def)

lemma account_step:
  assumes acc: "account cs dec img k st" and small: "k < u64_max" "img \<le> u64_max"
  shows "account cs dec img (Suc k) (recover_step cs dec k st)"
proof -
  define n where "n = min (rc_remaining st) cs"
  note a = acc [unfolded account_def]
  have cnt: "length (filter P [0..<k]) \<le> k" for P :: "nat \<Rightarrow> bool"
    using length_filter_le [of P "[0..<k]"] by simp
  have one: "sat_add (length (filter P [0..<k])) 1 = Suc (length (filter P [0..<k]))" for P :: "nat \<Rightarrow> bool"
    using cnt [of P] small(1) by (intro sat_add_small)
  have le: "n \<le> rc_remaining st" by (simp add: n_def)
  have bytes: "sat_add (rc_bytes_recovered st) n = rc_bytes_recovered st + n"
    "sat_add (rc_bytes_zero_filled st) n = rc_bytes_zero_filled st + n"
    using conjunct1 [OF conjunct2 [OF a]] le small(2) by (simp_all add: sat_add_def)
  have rem: "rc_remaining st - n = img - Suc k * cs" and n: "min (img - k * cs) cs = n"
    using a by (simp_all add: n_def)
  then have rem2: "img - (k * cs + n) = img - Suc k * cs" using a by simp
  have sums: "rc_bytes_recovered st + n + rc_bytes_zero_filled st + (img - Suc k * cs) = img"
    "rc_bytes_recovered st + (rc_bytes_zero_filled st + n) + (img - Suc k * cs) = img"
    using a le unfolding rem [symmetric] by linarith+
  note step = recover_step_def [of cs dec k st, folded n_def, unfolded Let_def]
  show ?thesis
  proof (cases "dec k")
    case None
    have "account cs dec img (Suc k) (st\<lparr>rc_out := rc_out st @ write_zeros n,
        rc_zero_filled := sat_add (rc_zero_filled st) 1,
        rc_bytes_zero_filled := sat_add (rc_bytes_zero_filled st) n,
        rc_lost := rc_lost st @ [k], rc_remaining := rc_remaining st - n\<rparr>)"
      using a one sums bytes unfolding account_def rem
      by (simp add: None piece_def n del: mult_Suc)
    then show ?thesis using None by (simp add: step)
  next
    case (Some d)
    obtain b t c where d: "d = (b, t, c)" by (cases d)
    show ?thesis
      using a one sums bytes unfolding account_def step Some d
      by (cases t; cases c; simp add: rem2 Some d piece_def n fill_buf_cases ex_bool_eq del: mult_Suc)
  qed
qed

lemma account_loop:
  assumes "account cs dec img k st" and "total_chunks \<le> u64_max" and "img \<le> u64_max" and "k \<le> total_chunks"
  shows "\<exists>m. k \<le> m \<and> m \<le> total_chunks \<and> (m < total_chunks \<longrightarrow> img \<le> m * cs)
    \<and> (\<forall>j. k \<le> j \<and> j < m \<longrightarrow> j * cs < img)
    \<and> account cs dec img m (recover_loop cs dec [k..<total_chunks] st)"
  using assms(1,4)
proof (induction "total_chunks - k" arbitrary: k st)
  case 0
  then show ?case by (intro exI [of _ k]) simp
next
  case (Suc d)
  then have k: "k < total_chunks" by simp
  then have upt: "[k..<total_chunks] = k # [Suc k..<total_chunks]" by (simp add: upt_conv_Cons)
  show ?case
  proof (cases "rc_remaining st = 0")
    case True
    then have "img \<le> k * cs" using Suc.prems by (simp add: account_def)
    then show ?thesis using True Suc.prems k upt by (intro exI [of _ k]) simp
  next
    case False
    then have here: "k * cs < img" using Suc.prems by (simp add: account_def)
    have "account cs dec img (Suc k) (recover_step cs dec k st)"
      using Suc.prems k assms by (intro account_step) auto
    then obtain m where m: "Suc k \<le> m" "m \<le> total_chunks" "m < total_chunks \<longrightarrow> img \<le> m * cs"
      "\<forall>j. Suc k \<le> j \<and> j < m \<longrightarrow> j * cs < img"
      "account cs dec img m (recover_loop cs dec [Suc k..<total_chunks] (recover_step cs dec k st))"
      using Suc.hyps(1) [of "Suc k" "recover_step cs dec k st"] Suc.hyps(2) k Suc_leI [OF k]
      by (metis Suc_diff_Suc diff_Suc_Suc nat.inject)
    then have "\<forall>j. k \<le> j \<and> j < m \<longrightarrow> j * cs < img" using here by (metis Suc_leI le_neq_implies_less)
    then show ?thesis using m False upt by (intro exI [of _ m]) simp
  qed
qed

section \<open>The tail\<close>

lemma recover_tail_eq:
  assumes "0 < cs" and "rc_bytes_zero_filled st + rc_remaining st \<le> u64_max"
  shows "recover_tail cs st = st\<lparr>rc_out := rc_out st @ replicate (rc_remaining st) 0,
    rc_bytes_zero_filled := rc_bytes_zero_filled st + rc_remaining st, rc_remaining := 0\<rparr>"
  using assms
proof (induction "rc_remaining st" arbitrary: st rule: less_induct)
  case less
  show ?case
  proof (cases "rc_remaining st = 0")
    case True
    then show ?thesis by (simp add: recover_tail.simps [of cs st])
  next
    case False
    define n where "n = min (rc_remaining st) cs"
    have n: "0 < n" "n \<le> rc_remaining st" using False assms(1) by (simp_all add: n_def)
    let ?st = "st\<lparr>rc_out := rc_out st @ write_zeros n,
        rc_bytes_zero_filled := sat_add (rc_bytes_zero_filled st) n, rc_remaining := rc_remaining st - n\<rparr>"
    have sat: "sat_add (rc_bytes_zero_filled st) n = rc_bytes_zero_filled st + n"
      using n less.prems by (simp add: sat_add_def)
    have "recover_tail cs st = recover_tail cs ?st"
      using False assms(1) by (simp add: recover_tail.simps [of cs st] n_def Let_def)
    also have "\<dots> = ?st\<lparr>rc_out := rc_out ?st @ replicate (rc_remaining ?st) 0,
        rc_bytes_zero_filled := rc_bytes_zero_filled ?st + rc_remaining ?st, rc_remaining := 0\<rparr>"
      using n less.prems sat False by (intro less.hyps) simp_all
    also have "\<dots> = st\<lparr>rc_out := rc_out st @ replicate (rc_remaining st) 0,
        rc_bytes_zero_filled := rc_bytes_zero_filled st + rc_remaining st, rc_remaining := 0\<rparr>"
      using n sat by (simp flip: replicate_add)
    finally show ?thesis .
  qed
qed

section \<open>A whole run\<close>

text \<open>The number of chunks a run processes: those declared, as far as they back image bytes.\<close>

definition chunks_processed :: "nat \<Rightarrow> nat \<Rightarrow> nat \<Rightarrow> nat" where
  "chunks_processed cs img n = min n ((img + cs - 1) div cs)"

lemma processed_unique:
  assumes "0 < cs" and "m \<le> n" and "m < n \<longrightarrow> img \<le> m * cs" and "\<forall>j. j < m \<longrightarrow> j * cs < img"
  shows "m = chunks_processed cs img n"
proof -
  let ?c = "(img + cs - 1) div cs"
  have up: "img \<le> j * cs \<longleftrightarrow> ?c \<le> j" for j
  proof
    assume "img \<le> j * cs"
    then have "img + cs - 1 < (j + 1) * cs" using assms(1) by simp
    then show "?c \<le> j" using assms(1) by (metis less_mult_imp_div_less add.commute less_Suc_eq_le plus_1_eq_Suc)
  next
    assume "?c \<le> j"
    then have "?c * cs \<le> j * cs" by (rule mult_le_mono1)
    moreover have "img \<le> ?c * cs"
      using assms(1) div_mult_mod_eq [of "img + cs - 1" cs] mod_less_divisor [OF assms(1), of "img + cs - 1"]
      by linarith
    ultimately show "img \<le> j * cs" by (meson order_trans)
  qed
  have "m \<le> ?c"
  proof (cases m)
    case (Suc j)
    then show ?thesis using assms(4) up [of j] by auto
  qed simp
  moreover have "m < n \<Longrightarrow> ?c \<le> m" using assms(3) up by blast
  ultimately show ?thesis
    using assms(2) unfolding chunks_processed_def by (cases "m < n") linarith+
qed

lemma recover_run:
  fixes dec :: "nat \<Rightarrow> (bytes \<times> bool \<times> bool) option"
  assumes "0 < cs" and "n \<le> u64_max" and "img \<le> u64_max"
  defines "st \<equiv> recover_tail cs (recover_loop cs dec [0..<n] (recover_init img))"
    and "m \<equiv> chunks_processed cs img n"
  shows "rc_out st = concat (map (\<lambda>i. piece (dec i) (min (img - i * cs) cs)) [0..<m])
      @ replicate (img - m * cs) 0"
    and "rc_bytes_recovered st + rc_bytes_zero_filled st = img"
    and "rc_primary st + rc_table2 st + rc_zero_filled st = m"
    and "rc_lost st = filter (\<lambda>i. dec i = None) [0..<m]" and "rc_zero_filled st = length (rc_lost st)"
    and "rc_crc_list st = filter (\<lambda>i. \<exists>b t. dec i = Some (b, t, False)) [0..<m]"
    and "rc_crc_flagged st = length (rc_crc_list st)"
    and "rc_bytes_zero_filled st = sum_list (map (\<lambda>i. min (img - i * cs) cs) (rc_lost st)) + (img - m * cs)"
    and "rc_table2 st = length (filter (\<lambda>i. \<exists>b c. dec i = Some (b, True, c)) [0..<m])"
proof -
  let ?mid = "recover_loop cs dec [0..<n] (recover_init img)"
  have "\<exists>k. 0 \<le> k \<and> k \<le> n \<and> (k < n \<longrightarrow> img \<le> k * cs) \<and> (\<forall>j. 0 \<le> j \<and> j < k \<longrightarrow> j * cs < img)
      \<and> account cs dec img k ?mid"
    using account_loop [OF account_init, of n img cs dec] assms(2,3) by simp
  then have acc: "account cs dec img m ?mid"
    using processed_unique [OF assms(1), of _ n img] unfolding m_def by auto
  note a = acc [unfolded account_def]
  have "rc_bytes_zero_filled ?mid + rc_remaining ?mid \<le> img" using a by linarith
  then have st: "st = ?mid\<lparr>rc_out := rc_out ?mid @ replicate (rc_remaining ?mid) 0,
      rc_bytes_zero_filled := rc_bytes_zero_filled ?mid + rc_remaining ?mid, rc_remaining := 0\<rparr>"
    using assms(3) unfolding st_def by (intro recover_tail_eq [OF assms(1)]) linarith
  have parts: "length (filter (\<lambda>i. \<exists>b c. dec i = Some (b, False, c)) xs)
      + length (filter (\<lambda>i. \<exists>b c. dec i = Some (b, True, c)) xs)
      + length (filter (\<lambda>i. dec i = None) xs) = length xs" for xs
  proof (induction xs)
    case (Cons i xs)
    show ?case
    proof (cases "dec i")
      case (Some d)
      obtain b t c where "d = (b, t, c)" by (cases d)
      then show ?thesis using Cons Some by (cases t) simp_all
    qed (use Cons in simp)
  qed simp
  show "rc_out st = concat (map (\<lambda>i. piece (dec i) (min (img - i * cs) cs)) [0..<m]) @ replicate (img - m * cs) 0"
    using a by (simp add: st)
  show "rc_bytes_recovered st + rc_bytes_zero_filled st = img"
    using conjunct1 [OF conjunct2 [OF a]] by (simp add: st)
  show "rc_primary st + rc_table2 st + rc_zero_filled st = m" using a parts [of "[0..<m]"] by (simp add: st)
  show "rc_lost st = filter (\<lambda>i. dec i = None) [0..<m]" "rc_zero_filled st = length (rc_lost st)"
    "rc_crc_list st = filter (\<lambda>i. \<exists>b t. dec i = Some (b, t, False)) [0..<m]"
    "rc_crc_flagged st = length (rc_crc_list st)"
    "rc_bytes_zero_filled st = sum_list (map (\<lambda>i. min (img - i * cs) cs) (rc_lost st)) + (img - m * cs)"
    "rc_table2 st = length (filter (\<lambda>i. \<exists>b c. dec i = Some (b, True, c)) [0..<m])"
    using a by (simp_all add: st)
qed

lemma length_pieces:
  assumes "0 < cs"
  shows "length (concat (map (\<lambda>i. piece (dec i) (min (img - i * cs) cs)) [0..<m])) = min img (m * cs)"
proof (induction m)
  case (Suc m)
  have "min img (m * cs) + min (img - m * cs) cs = min img (Suc m * cs)" by auto
  then show ?case using Suc by simp
qed simp

section \<open>Locating a chunk\<close>

lemma locate_from_iff:
  assumes "running + sum_list counts \<le> u64_max" and "running \<le> idx"
  shows "locate_from k running counts idx = Some (s, l) \<longleftrightarrow>
    k \<le> s \<and> s - k < length counts \<and> l < counts ! (s - k) \<and>
    idx = running + sum_list (take (s - k) counts) + l"
  using assms
proof (induction counts arbitrary: k running)
  case (Cons c counts)
  have sat: "sat_add running c = running + c" using Cons.prems by (simp add: sat_add_def)
  show ?case
  proof (cases "idx < running + c")
    case True
    have "sum_list (take (s - k) (c # counts)) \<ge> c" if "k < s"
      using that by (cases "s - k") auto
    then show ?thesis using True Cons.prems(2) sat by (cases "s = k") (auto simp: not_less)
  next
    case False
    have ih: "locate_from (k + 1) (running + c) counts idx = Some (s, l) \<longleftrightarrow>
        k + 1 \<le> s \<and> s - (k + 1) < length counts \<and> l < counts ! (s - (k + 1)) \<and>
        idx = running + c + sum_list (take (s - (k + 1)) counts) + l"
      using False Cons.prems by (intro Cons.IH) auto
    show ?thesis
    proof (cases "k < s")
      case True
      then have "s - k = Suc (s - (k + 1))" by simp
      then show ?thesis using False sat ih True by (simp add: add.assoc)
    next
      case not: False
      then show ?thesis using False sat ih by auto
    qed
  qed
qed simp

lemma locate_chunk_iff:
  "sum_list counts \<le> u64_max \<Longrightarrow> locate_chunk counts idx = Some (s, l) \<longleftrightarrow>
    s < length counts \<and> l < counts ! s \<and> idx = sum_list (take s counts) + l"
  using locate_from_iff [of 0 counts idx 0 s l] by (simp add: locate_chunk_def)

section \<open>A recovery and its report\<close>

text \<open>The decoder a recovery of \<open>segments\<close> uses, with its chunk size.\<close>

definition segment_decoder ::
  "externals \<Rightarrow> bytes list \<Rightarrow> nat \<Rightarrow> nat \<Rightarrow> (bytes \<times> bool \<times> bool) option" where
  "segment_decoder X segments cs =
    decode_best X cs (map (seg_tables_of X) (zip segments (map (fst \<circ> walk_sections X) segments)))"

lemma sat_mul_u64: "sat_mul a b \<le> u64_max"
  by (simp add: sat_mul_def)

lemma recover_segments_run:
  assumes "recover_segments X create device segments = Ok (rep, out)"
  defines "cs \<equiv> rr_chunk_size rep" and "img \<equiv> rr_image_size rep" and "n \<equiv> rr_chunks_total rep"
  defines "st \<equiv> recover_tail cs (recover_loop cs (segment_decoder X segments cs) [0..<n] (recover_init img))"
  shows "0 < cs" and "cs \<le> RECOVER_MAX_CHUNK_SIZE" and "n \<le> u64_max" and "img \<le> u64_max"
    and "out = rc_out st" and "rr_chunks_recovered_primary rep = rc_primary st"
    and "rr_chunks_recovered_table2 rep = rc_table2 st" and "rr_chunks_zero_filled rep = rc_zero_filled st"
    and "rr_chunks_crc_flagged rep = rc_crc_flagged st" and "rr_bytes_recovered rep = rc_bytes_recovered st"
    and "rr_bytes_zero_filled rep = rc_bytes_zero_filled st" and "rr_lost_chunks rep = rc_lost st"
    and "rr_crc_flagged_chunks rep = rc_crc_list st"
proof -
  have walks: "map fst (map (walk_sections X) segments) = map (fst \<circ> walk_sections X) segments" by simp
  have "unat w \<le> u64_max" for w :: u32 by (rule order_trans [OF less_imp_le [OF unat_u32_lt]]) (simp add: u64_max_def)
  then show "0 < cs" "cs \<le> RECOVER_MAX_CHUNK_SIZE" "n \<le> u64_max" "img \<le> u64_max" "out = rc_out st"
    "rr_chunks_recovered_primary rep = rc_primary st" "rr_chunks_recovered_table2 rep = rc_table2 st"
    "rr_chunks_zero_filled rep = rc_zero_filled st" "rr_chunks_crc_flagged rep = rc_crc_flagged st"
    "rr_bytes_recovered rep = rc_bytes_recovered st" "rr_bytes_zero_filled rep = rc_bytes_zero_filled st"
    "rr_lost_chunks rep = rc_lost st" "rr_crc_flagged_chunks rep = rc_crc_list st"
    using assms(1) unfolding recover_segments_def cs_def img_def n_def st_def segment_decoder_def walks Let_def
    by (auto simp: sat_mul_u64 split: if_splits option.splits)
qed

lemma sorted_filter_upt: "sorted_wrt (<) (filter P [0..<k])"
  by (intro sorted_wrt_filter) (simp add: sorted_wrt_upt)

section \<open>A damaged image\<close>

text \<open>
  The sample image with a table that has lost its second entry: the first chunk is decoded with
  the rest of the sectors in place of its checksum, the second one is not found.
\<close>

definition lossy_image :: bytes where
  "lossy_image = take 343 sample_image @ encode_table_header 1 0 0 @ encode_table_entry False 259"

definition lossy_sections :: "Section list" where
  "lossy_sections = [\<lparr>sec_type_name = lit ''volume'', sec_offset = 13, sec_size = 170\<rparr>,
     \<lparr>sec_type_name = lit ''sectors'', sec_offset = 183, sec_size = 84\<rparr>,
     \<lparr>sec_type_name = lit ''table'', sec_offset = 267, sec_size = 108\<rparr>]"

definition lossy_table :: TableRef where
  "lossy_table = \<lparr>tb_entry_count = 1, tb_base_offset = 0, tb_entries_file_offset = 367\<rparr>"

lemma lossy_walk: "walk_sections ref_externals lossy_image = (lossy_sections, None)"
  by code_simp

lemma lossy_geometry: "read_geometry ref_externals lossy_image lossy_sections =
    Some \<lparr>g_chunk_count = 2, g_sectors_per_chunk = 1, g_bytes_per_sector = 4, g_sector_count = 2\<rparr>"
  by code_simp

lemma lossy_length: "length lossy_image = 371"
  by (simp add: lossy_image_def length_sample encode_table_header_def)

lemma lossy_entry: "entry_at ref_externals lossy_image lossy_table 0 = Some (False, 259)"
proof -
  have "slice 367 371 lossy_image = encode_table_entry False 259"
    by (simp add: lossy_image_def slice_def length_sample encode_table_header_def)
  then show ?thesis
    using entry_fields [OF ref_safe_read_laws, of 259 False]
    by (simp add: entry_at_def lossy_table_def sat_add_def sat_mul_def u64_max_def get_range_def lossy_length unat_of_nat)
qed

lemma lossy_parts:
  "slice 343 367 lossy_image = encode_table_header 1 0 0" "take 8 lossy_image = EVF_SIGNATURE"
  "slice 259 267 lossy_image = [10, 11, 12, 13, 14, 15, 16, 17]"
  by (simp_all add: lossy_image_def length_sample slice_def encode_table_header_def)
    (simp_all add: sample_image_def EVF_SIGNATURE_def length_encode_descriptor sample_type_def lit_def)

lemma lossy_tables:
  "table_ref ref_externals lossy_image lossy_sections (lit ''table'') = Some lossy_table"
  "table_ref ref_externals lossy_image lossy_sections (lit ''table2'') = None"
  "sectors_data_end lossy_sections (length lossy_image) = Some 267"
  using header_fields [OF ref_safe_read_laws, of 1 0 0 "[]"]
  by (simp_all add: table_ref_def lossy_sections_def lit_def sat_add_def u64_max_def get_range_def lossy_length
      lossy_parts sectors_data_end_def lossy_table_def)

lemma lossy_chunk: "decode_chunk ref_externals [10, 11, 12, 13, 14, 15, 16, 17] False 4 = Some ([10, 11, 12, 13], False)"
  by code_simp

lemma lossy_decoder:
  "segment_decoder ref_externals [lossy_image] 4 0 = Some ([10, 11, 12, 13], False, False)"
  "segment_decoder ref_externals [lossy_image] 4 (Suc 0) = None"
  using lossy_tables lossy_chunk lossy_entry lossy_length lossy_parts
  by (simp_all add: segment_decoder_def decode_best_def lossy_walk seg_tables_of_def seg_entry_count_def
      locate_chunk_def sat_add_def u64_max_def lossy_table_def decode_from_def chunk_range_def unwrap_or_def)

definition lossy_report :: RecoveryReport where
  "lossy_report = \<lparr>rr_image_size = 8, rr_chunk_size = 4, rr_chunks_total = 2,
     rr_chunks_recovered_primary = 1, rr_chunks_recovered_table2 = 0, rr_chunks_zero_filled = 1,
     rr_chunks_crc_flagged = 1, rr_bytes_recovered = 4, rr_bytes_zero_filled = 4,
     rr_truncation_offset = None, rr_lost_chunks = [1], rr_crc_flagged_chunks = [0]\<rparr>"

lemma lossy_recovered:
  "recover_segments ref_externals (Ok ()) (\<lambda>_. Ok ()) [lossy_image] = Ok (lossy_report, [10, 11, 12, 13, 0, 0, 0, 0])"
  using lossy_decoder lossy_parts(2) lossy_length
  by (simp add: recover_segments_def lossy_walk lossy_geometry sat_mul_def u64_max_def RECOVER_MAX_CHUNK_SIZE_def
      segment_decoder_def upt_rec recover_init_def recover_step_def sat_add_def recover_tail.simps
      first_truncation_def lossy_report_def)
    (simp add: numeral_eq_Suc)





text \<open>A chunk number is found in the segment whose entries it falls into, at the entry that is left
  after the entries of the segments before; past the last entry it is not found.
\<close>

theorem locate_chunk_place:
  assumes "sum_list counts \<le> u64_max"
  shows "(locate_chunk counts idx = Some (s, l) \<longleftrightarrow>
      s < length counts \<and> l < counts ! s \<and> idx = sum_list (take s counts) + l)
    \<and> (locate_chunk counts idx = None \<longleftrightarrow> sum_list counts \<le> idx)"
proof -
  have "locate_chunk counts idx = None" if "sum_list counts \<le> idx"
  proof (rule ccontr)
    assume "locate_chunk counts idx \<noteq> None"
    then obtain s l where "locate_chunk counts idx = Some (s, l)" by auto
    then have sl: "s < length counts" "l < counts ! s" "idx = sum_list (take s counts) + l"
      using locate_chunk_iff [OF assms] by auto
    have "sum_list counts = sum_list (take s counts) + (counts ! s + sum_list (drop (Suc s) counts))"
      using sl(1) by (metis id_take_nth_drop sum_list.append sum_list.Cons)
    then show False using sl that by simp
  qed
  moreover have "locate_from k r counts idx \<noteq> None" if "r \<le> idx" "idx < r + sum_list counts"
      "r + sum_list counts \<le> u64_max" for k r
    using that by (induction counts arbitrary: k r) (auto simp: sat_add_def add.assoc)
  ultimately show ?thesis
    using locate_chunk_iff [OF assms] assms unfolding locate_chunk_def by (metis add_0 not_le zero_le)
qed

theorem locate_chunk_place_witness:
  "locate_chunk [3, 0, 2] 4 = Some (2, 1) \<and> locate_chunk [3, 0, 2] 5 = None"
  using locate_chunk_place [of "[3, 0, 2]" 4 2 1] locate_chunk_place [of "[3, 0, 2]" 5 0 0]
  by (simp add: u64_max_def)

section \<open>The segments of a recovery\<close>

definition sibling :: "path \<Rightarrow> bool \<Rightarrow> nat \<Rightarrow> path" where
  "sibling base upper n = with_extension base ((if upper then 69 else 101) # pad2 n)"

text \<open>The probing ends at the first number without a file, for every fuel that gets there.\<close>

lemma discover_from_run:
  fixes n m fuel :: nat
  assumes "n \<le> m" and "m < 2 ^ 32" and "m - n < fuel"
    and "\<And>k. n \<le> k \<Longrightarrow> k < m \<Longrightarrow> exists (sibling base upper k)" and "\<not> exists (sibling base upper m)"
  shows "discover_from fuel exists base upper n = Some (map (sibling base upper) [n..<m])"
  using assms
proof (induction fuel arbitrary: n)
  case (Suc fuel)
  show ?case
  proof (cases "n = m")
    case False
    then have n: "n < m" "n + 1 \<le> 2 ^ 32 - 1" using Suc.prems(1,2) by auto
    then have "discover_from fuel exists base upper (n + 1) = Some (map (sibling base upper) [n + 1..<m])"
      using Suc.prems by (intro Suc.IH) auto
    then show ?thesis
      using n Suc.prems(4) [of n] by (simp add: sibling_def min_absorb1 upt_conv_Cons)
  qed (use Suc.prems(5) in \<open>simp add: sibling_def\<close>)
qed simp

lemma recovery_discovers:
  fixes m fuel :: nat
  assumes "extension base = Some e" and "length e = 3" and "hd (map to_ascii_lowercase e) = 101"
    and "list_all is_ascii_digit (tl (map to_ascii_lowercase e))"
    and "2 \<le> m" and "m < 2 ^ 32" and "m - 2 < fuel"
    and "\<And>k. 2 \<le> k \<Longrightarrow> k < m \<Longrightarrow> exists (sibling base (is_ascii_uppercase (hd e)) k)"
    and "\<not> exists (sibling base (is_ascii_uppercase (hd e)) m)"
  shows "recover_from_path fuel exists base =
    Some \<lparr>er_segment_paths = base # map (sibling base (is_ascii_uppercase (hd e))) [2..<m]\<rparr>"
  using assms discover_from_run [of 2 m fuel "exists" base "is_ascii_uppercase (hd e)"]
  by (simp add: recover_from_path_def recover_discover_segments_def)

text \<open>
  Started at the second of three segments, the list holds the second one twice and the first one
  not at all. After the segment 99 a segment E100 is looked for, not EAA.
\<close>

definition disk_file :: "string \<Rightarrow> path" where
  "disk_file s = \<lparr>p_parent = Some (lit ''d''), p_file = Some (lit s)\<rparr>"

lemma recovery_from_second_segment:
  "recover_from_path 9 (\<lambda>p. p \<in> {disk_file ''i.E01'', disk_file ''i.E02'', disk_file ''i.E03''}) (disk_file ''i.E02'') =
    Some \<lparr>er_segment_paths = [disk_file ''i.E02'', disk_file ''i.E02'', disk_file ''i.E03'']\<rparr>"
  by code_simp

lemma recovery_after_99: "sibling (disk_file ''i.E01'') True 100 = disk_file ''i.E100''"
  by code_simp

end
