(* ===== verification/Written_Recovery.thy ===== *)
theory Written_Recovery
  imports Written_Image Recover_Correct
begin

text \<open>
  The recovery of a written image, \<open>forensic/src/recover.rs\<close> on the image of \<open>Written_Image\<close>: the
  tolerant walk finds the sections, every chunk that can be read decodes from the primary table, and the output is
  the media with zeros in the place of the others.
\<close>

definition recovered_sections :: "acquisition \<Rightarrow> Section list" where
  "recovered_sections a =
    [\<lparr>sec_type_name = lit ''volume'', sec_offset = 13, sec_size = 1128\<rparr>,
     \<lparr>sec_type_name = lit ''sectors'', sec_offset = 1141, sec_size = 76 + length (chunk_area (aq_chunks a))\<rparr>,
     \<lparr>sec_type_name = lit ''table'', sec_offset = table_pos a, sec_size = 100 + 4 * length (aq_chunks a)\<rparr>,
     \<lparr>sec_type_name = lit ''hash'', sec_offset = hash_pos a, sec_size = 92\<rparr>,
     \<lparr>sec_type_name = lit ''done'', sec_offset = hash_pos a + 92, sec_size = 76\<rparr>]"

lemma walk_recovered_step:
  assumes laws: "safe_read_laws X" and t: "t \<in> set written_names" and small: "length data < 2 ^ 33"
    and at: "slice off (off + 76) data = sealed_descriptor X t nxt sz" "off + 76 \<le> length data"
    and nums: "nxt < 2 ^ 34" "sz < 2 ^ 34"
  shows "walk_sections_from X data off ss =
    (let ss' = ss @ [\<lparr>sec_type_name = lit t, sec_offset = off, sec_size = sz\<rparr>]
     in if lit t = lit ''done'' \<or> lit t = lit ''next'' then (ss', None)
        else if nxt = 0 \<or> nxt \<le> off then (ss', None)
        else if length data < nxt then (ss', Some nxt)
        else walk_sections_from X data nxt ss')"
proof -
  have sat: "sat_add off 76 = off + 76" using small at(2) by (simp add: sat_add_def u64_max_def)
  have u: "unat (sd_next (written_descriptor X t nxt sz off)) = nxt"
    "unat (sd_size (written_descriptor X t nxt sz off)) = sz"
    using nums by simp_all
  have inside: "(length data < off + 76) = False" using at(2) by simp
  show ?thesis
    by (simp only: walk_sections_from.simps [of X data off] sat inside if_False at(1) result.case
        sealed_parse [OF laws t] Let_def written_descriptor_sel(1,2) u)
qed

lemma walk_recovered:
  assumes laws: "safe_read_laws X" and sz: "sized a"
  shows "walk_sections X (write_image X a) = (recovered_sections a, None)"
proof -
  note b = sized_bounds [OF sz]
  note d = written_descriptors [OF sz]
  let ?f = "walk_sections_from X (write_image X a)"
  note step = walk_recovered_step [OF laws _ b(2) [of X]]
  have nd: "lit t \<noteq> lit ''done''" "lit t \<noteq> lit ''next''"
    if "t \<in> {''volume'', ''sectors'', ''table'', ''hash''}" for t
    using that by (auto simp: lit_def)
  have names: "''volume'' \<in> set written_names" "''sectors'' \<in> set written_names" "''table'' \<in> set written_names"
    "''hash'' \<in> set written_names" "''done'' \<in> set written_names"
    by (simp_all add: written_names_def)
  have tp: "table_pos a + (100 + 4 * length (aq_chunks a)) = hash_pos a" by (simp add: hash_pos_def)
  have 1: "?f 13 ss = ?f 1141 (ss @ [recovered_sections a ! 0])" for ss
    using step [OF names(1), of 13 1141 1128] d(1) b nd [of "''volume''"]
    by (simp add: recovered_sections_def Let_def del: lit_Cons)
  have 2: "?f 1141 ss = ?f (table_pos a) (ss @ [recovered_sections a ! 1])" for ss
    using step [OF names(2), of 1141 "table_pos a" "76 + length (chunk_area (aq_chunks a))"] d(2) b
      nd [of "''sectors''"]
    by (simp add: recovered_sections_def Let_def del: lit_Cons)
  have 3: "?f (table_pos a) ss = ?f (hash_pos a) (ss @ [recovered_sections a ! 2])" for ss
    using step [OF names(3) d(3)] b tp nd [of "''table''"]
    by (simp add: recovered_sections_def Let_def del: lit_Cons)
  have 4: "?f (hash_pos a) ss = ?f (hash_pos a + 92) (ss @ [recovered_sections a ! 3])" for ss
    using step [OF names(4) d(4)] b nd [of "''hash''"]
    by (simp add: recovered_sections_def Let_def del: lit_Cons)
  have 5: "?f (hash_pos a + 92) ss = (ss @ [recovered_sections a ! 4], None)" for ss
    using step [OF names(5) d(5)] b
    by (simp add: recovered_sections_def Let_def del: lit_Cons)
  have "?f 13 [] = ([recovered_sections a ! 0, recovered_sections a ! 1, recovered_sections a ! 2,
      recovered_sections a ! 3, recovered_sections a ! 4], None)"
    unfolding 1 2 3 4 5 by simp
  then show ?thesis
    by (simp add: walk_sections_def recovered_sections_def)
qed

lemma recovered_found:
  "find (\<lambda>s. sec_type_name s = lit ''volume'' \<or> sec_type_name s = lit ''disk'') (recovered_sections a) =
    Some \<lparr>sec_type_name = lit ''volume'', sec_offset = 13, sec_size = 1128\<rparr>"
  "find (\<lambda>s. sec_type_name s = lit ''sectors'') (recovered_sections a) =
    Some \<lparr>sec_type_name = lit ''sectors'', sec_offset = 1141, sec_size = 76 + length (chunk_area (aq_chunks a))\<rparr>"
  "find (\<lambda>s. sec_type_name s = lit ''table'') (recovered_sections a) =
    Some \<lparr>sec_type_name = lit ''table'', sec_offset = table_pos a, sec_size = 100 + 4 * length (aq_chunks a)\<rparr>"
  "find (\<lambda>s. sec_type_name s = lit ''table2'') (recovered_sections a) = None"
  by (simp_all add: recovered_sections_def lit_def)

lemma recovered_geometry:
  assumes laws: "safe_read_laws X" and wr: "writable X a states"
  shows "\<exists>g. read_geometry X (write_image X a) (recovered_sections a) = Some g
    \<and> unat (g_chunk_count g) = length (aq_chunks a) \<and> unat (g_sectors_per_chunk g) = aq_spc a
    \<and> unat (g_bytes_per_sector g) = aq_bps a \<and> unat (g_sector_count g) = aq_sectors a"
proof -
  note sz = writable_sized [OF wr] and num = writable_numbers [OF wr]
  note b = sized_bounds [OF sz]
  obtain v where v: "volume_parse X (volume_body X a) = Ok v" "unat (vol_chunk_count v) = length (aq_chunks a)"
      "unat (vol_sectors_per_chunk v) = aq_spc a" "unat (vol_bytes_per_sector v) = aq_bps a"
      "unat (vol_sector_count v) = aq_sectors a"
    using volume_fields [OF laws b(8) num(1-3), where k = 1052 and buf = "volume_body X a"] by auto
  have "vol_sectors_per_chunk v \<noteq> 0" "vol_bytes_per_sector v \<noteq> 0"
    using v(3,4) num(4) by auto
  moreover have "sat_add 13 76 = 89" "sat_add 89 1052 = 1141" "min 1141 (length (write_image X a)) = 1141"
    using b by (simp_all add: sat_add_def u64_max_def)
  ultimately show ?thesis
    using v written_bodies(1) [OF sz] b(3,5,6) unfolding read_geometry_def recovered_found by (simp add: Let_def get_range_def)
qed

definition written_table_ref :: "acquisition \<Rightarrow> TableRef" where
  "written_table_ref a = \<lparr>tb_entry_count = length (aq_chunks a), tb_base_offset = 0,
     tb_entries_file_offset = table_pos a + 100\<rparr>"

lemma recovered_tables:
  assumes laws: "safe_read_laws X" and sz: "sized a"
  shows "seg_tables_of X (write_image X a, recovered_sections a) =
    \<lparr>st_data = write_image X a, st_primary = Some (written_table_ref a), st_fallback = None,
     st_sec_end = Some (table_pos a)\<rparr>"
proof -
  note b = sized_bounds [OF sz]
  let ?img = "write_image X a"
  obtain h where h: "table_header_parse X (table_head X a) = Ok h"
      "unat (th_entry_count h) = length (aq_chunks a)" "th_base_offset h = 0"
    using table_head_fields(1) [OF laws b(8), of "[]"] by auto
  have sat: "sat_add (table_pos a) 76 = table_pos a + 76" "sat_add (table_pos a + 76) 24 = table_pos a + 100"
    "sat_add 1141 (table_pos a - 1141) = table_pos a"
    using b by (simp_all add: sat_add_def u64_max_def)
  have "table_ref X ?img (recovered_sections a) (lit ''table'') = Some (written_table_ref a)"
    unfolding table_ref_def recovered_found using h written_bodies(3) [OF sz] b(3,6) by (simp add: sat Let_def written_table_ref_def get_range_def)
  moreover have "table_ref X ?img (recovered_sections a) (lit ''table2'') = None"
    unfolding table_ref_def recovered_found by simp
  moreover have "sectors_data_end (recovered_sections a) (length ?img) = Some (table_pos a)"
    unfolding sectors_data_end_def recovered_found using b by (simp add: sat min_def)
  ultimately show ?thesis by (simp add: seg_tables_of_def)
qed

section \<open>Chunks\<close>

lemma ranges_hold_chunks:
  assumes "take (length (chunk_area chs)) (drop lo data) = chunk_area chs"
  shows "list_all2 (\<lambda>(s, e, c) ch. slice s e data = snd ch \<and> c = fst ch) (chunk_ranges lo chs) chs"
  using assms
proof (induction chs arbitrary: lo)
  case (Cons ch chs)
  note cut = area_cut [OF Cons.prems]
  show ?case using Cons.IH [OF cut(2)] cut(1) by (simp add: slice_def)
qed simp

text \<open>What a chunk decodes to, and the entry of the primary table that the recovery keeps of it.\<close>

fun state_decoded :: "chunk_state \<Rightarrow> (bytes \<times> bool \<times> bool) option" where
  "state_decoded (Sound page) = Some (page, False, True)"
| "state_decoded (WrongSum page crc) = Some (page, False, False)"
| "state_decoded Garbled = None"

lemma state_decoded_iff:
  "(state_decoded s = None) = (s = Garbled)"
  "(\<exists>b t. state_decoded s = Some (b, t, False)) = (\<exists>page crc. s = WrongSum page crc)"
  "(\<exists>b c. state_decoded s = Some (b, True, c)) = False"
  by (cases s; auto)+

lemma decode_stored:
  assumes st: "stores X cs ch s" and cs: "0 < cs" "cs < 2 ^ 32"
  shows "decode_chunk X (snd ch) (fst ch) cs = map_option (\<lambda>(bs, t, ok). (bs, ok)) (state_decoded s)"
proof -
  have sat: "sat_add cs 4 = cs + 4" "sat_add cs (Suc 0) = Suc cs" using cs by (simp_all add: sat_add_def u64_max_def)
  have le: "from_le (to_le 4 (unat w)) = unat w" for w :: u32
    using unsigned_less [of w, where ?'a = nat] by (intro from_le_to_le) simp
  show ?thesis
  proof (cases s)
    case (Sound page)
    have len: "length page = cs" using length_state_page [OF st] Sound by simp
    show ?thesis
    proof (cases "fst ch")
      case True
      then have "x_zlib_read_to_end X (snd ch) (Some (Suc cs)) = Some (take (Suc cs) page)"
        using st Sound by (cases ch) (simp add: inflates_def)
      then show ?thesis using True Sound len cs by (auto simp: decode_chunk_def sat)
    next
      case False
      then have "snd ch = page @ to_le 4 (unat (adler32 X page))" using st Sound by (cases ch) simp
      then show ?thesis
        using False Sound len le by (simp add: decode_chunk_def sat slice_def u32_from_le_def)
    qed
  next
    case (WrongSum page crc)
    then have "length page = cs" "\<not> fst ch" "snd ch = page @ to_le 4 (unat crc)" "crc \<noteq> adler32 X page"
      using st by (cases ch; simp)+
    then show ?thesis
      using WrongSum le by (auto simp: decode_chunk_def sat slice_def u32_from_le_def)
  next
    case Garbled
    then show ?thesis using st by (cases ch) (simp add: decode_chunk_def)
  qed
qed

lemma recovered_chunk:
  assumes laws: "safe_read_laws X" and wr: "writable X a states" and i: "i < length (aq_chunks a)"
  shows "segment_decoder X [write_image X a] (aq_spc a * aq_bps a) i = state_decoded (states ! i)"
proof -
  note sz = writable_sized [OF wr] and num = writable_numbers [OF wr]
  note b = sized_bounds [OF sz]
  let ?img = "write_image X a" and ?chs = "aq_chunks a" and ?t = "written_table_ref a" and ?cs = "aq_spc a * aq_bps a"
  let ?ps = "places 1217 ?chs" and ?seg = "\<lparr>st_data = write_image X a, st_primary = Some (written_table_ref a),
    st_fallback = None, st_sec_end = Some (table_pos a)\<rparr>"
  have entry: "entry_at X ?img ?t j = Some (?ps ! j)" if j: "j < length ?chs" for j
  proof -
    have sat: "sat_mul j 4 = j * 4" "sat_add (table_pos a + 100) (j * 4) = table_pos a + 100 + j * 4"
      "sat_add (table_pos a + 100 + j * 4) 4 = table_pos a + 100 + j * 4 + 4" "sat_add 0 m = min m u64_max" for m
      using b j by (simp_all add: sat_add_def sat_mul_def u64_max_def)
    show ?thesis
      unfolding entry_at_def written_table_ref_def TableRef.select_convs sat Let_def written_entry(1) [OF laws wr j]
      using written_entry(2-4) [OF laws wr j] b
      by (cases "?ps ! j") (auto simp: u64_max_def)
  qed
  obtain s e c where r: "place_range 1217 ?chs i = (s, e, c)" by (cases "place_range 1217 ?chs i")
  have mem: "chunk_ranges 1217 ?chs ! i = (s, e, c)"
    using r i by (simp add: place_ranges [symmetric])
  have lr: "length (chunk_ranges 1217 ?chs) = length ?chs" by (simp add: place_ranges [symmetric])
  then have "(s, e, c) \<in> set (chunk_ranges 1217 ?chs)" using i mem by (metis nth_mem)
  then have se: "s < e" "e \<le> table_pos a"
    using chunk_ranges_ascend [OF written_chunks_nonempty [OF wr], of 1217]
    by (auto simp: list_all_iff table_pos_def)
  have tp: "1217 + length (chunk_area ?chs) = table_pos a" by (simp add: table_pos_def)
  have nxt: "sat_add i (Suc 0) = Suc i" using b i by (simp add: sat_add_def u64_max_def)
  have range: "chunk_range X ?img ?t i (Some (table_pos a)) = Some (s, e, c)"
  proof (cases "Suc i < length ?chs")
    case True
    then show ?thesis
      using r se b entry [OF i] entry [OF True]
      by (auto simp: chunk_range_def nxt place_range_def written_table_ref_def split: prod.split)
  next
    case False
    then show ?thesis
      using r se b tp entry [OF i]
      by (auto simp: chunk_range_def unwrap_or_def nxt place_range_def written_table_ref_def split: prod.split)
  qed
  have area: "take (length (chunk_area ?chs)) (drop 1217 ?img) = chunk_area ?chs"
    using written_bodies(2) [OF sz] b by (simp add: slice_def)
  have "slice s e ?img = snd (?chs ! i)" "c = fst (?chs ! i)"
    using list_all2_nthD2 [OF ranges_hold_chunks [OF area], of i] i mem by auto
  moreover have "stores X ?cs (?chs ! i) (states ! i)"
    using wr i by (simp add: writable_def list_all2_conv_all_nth)
  ultimately have "decode_from X ?cs ?seg (Some ?t) i = map_option (\<lambda>(bs, t, ok). (bs, ok)) (state_decoded (states ! i))"
    using range decode_stored [of X ?cs "?chs ! i" "states ! i"] num(4,5) by (simp add: decode_from_def)
  moreover have "locate_chunk [length ?chs] i = Some (0, i)"
    using i b by (subst locate_chunk_iff) (simp_all add: u64_max_def)
  moreover have "decode_from X ?cs ?seg None i = None" by (simp add: decode_from_def)
  ultimately show ?thesis
    by (cases "states ! i"; simp add: segment_decoder_def decode_best_def walk_recovered [OF laws sz]
        recovered_tables [OF laws sz] seg_entry_count_def; simp add: written_table_ref_def)
qed

section \<open>The output\<close>

lemma concat_cut_pages:
  assumes "\<And>p. p \<in> set pages \<Longrightarrow> length p = cs" and "k \<le> length pages"
  shows "concat (map (\<lambda>i. take (min (img - i * cs) cs) (pages ! i)) [0..<k]) = take img (concat (take k pages))"
  using assms(2)
proof (induction k)
  case (Suc k)
  then have k: "k < length pages" by simp
  have len: "length (concat (take k pages)) = k * cs"
    using concat_equal_length [of "take k pages" cs] assms(1) k by (metis in_set_takeD length_take min.absorb4)
  have "length (pages ! k) = cs" using assms(1) k by simp
  then have "take (img - k * cs) (pages ! k) = take (min (img - k * cs) cs) (pages ! k)" by (simp add: min_def)
  then show ?case
    using Suc k len by (simp add: take_Suc_conv_app_nth)
qed simp

lemma processed_covers:
  assumes "0 < cs" and "img \<le> n * cs"
  shows "img \<le> chunks_processed cs img n * cs" "chunks_processed cs img n \<le> n"
proof -
  have "(img + cs - 1) mod cs < cs" using assms(1) by simp
  moreover have "(img + cs - 1) div cs * cs + (img + cs - 1) mod cs = img + cs - 1" by simp
  ultimately have "img \<le> (img + cs - 1) div cs * cs" using assms(1) by linarith
  then show "img \<le> chunks_processed cs img n * cs"
    using assms(2) by (simp add: chunks_processed_def min_def)
  show "chunks_processed cs img n \<le> n" by (simp add: chunks_processed_def)
qed

text \<open>A run over chunks in the given states.\<close>

lemma states_run:
  assumes cs: "0 < cs" and n: "length states \<le> u64_max" and img: "img \<le> length states * cs" "img \<le> u64_max"
    and len: "\<And>s. s \<in> set states \<Longrightarrow> length (state_page cs s) = cs"
    and dec: "\<And>i. i < length states \<Longrightarrow> dec i = state_decoded (states ! i)"
    and m: "m = chunks_processed cs img (length states)"
  defines "st \<equiv> recover_tail cs (recover_loop cs dec [0..<length states] (recover_init img))"
  shows "rc_out st = take img (concat (map (state_page cs) states))"
    and "rc_lost st = filter (\<lambda>i. states ! i = Garbled) [0..<m]"
    and "rc_crc_list st = filter (\<lambda>i. \<exists>page crc. states ! i = WrongSum page crc) [0..<m]"
    and "rc_table2 st = 0"
    and "rc_bytes_zero_filled st = sum_list (map (\<lambda>i. min (img - i * cs) cs) (rc_lost st))"
proof -
  let ?pages = "map (state_page cs) states"
  note run = recover_run [OF cs n img(2), of dec, folded m st_def]
  note cover = processed_covers [OF cs img(1), folded m]
  have d: "dec i = state_decoded (states ! i)" if "i \<in> set [0..<m]" for i
    using that cover(2) dec by simp
  show "rc_lost st = filter (\<lambda>i. states ! i = Garbled) [0..<m]"
    unfolding run(4) by (rule filter_cong [OF refl]) (simp only: d state_decoded_iff)
  show "rc_crc_list st = filter (\<lambda>i. \<exists>page crc. states ! i = WrongSum page crc) [0..<m]"
    unfolding run(6) by (rule filter_cong [OF refl]) (simp only: d state_decoded_iff)
  have "filter (\<lambda>i. \<exists>b c. dec i = Some (b, True, c)) [0..<m] = filter (\<lambda>i. False) [0..<m]"
    by (rule filter_cong [OF refl]) (simp only: d state_decoded_iff)
  then show "rc_table2 st = 0" unfolding run(9) by simp
  show "rc_bytes_zero_filled st = sum_list (map (\<lambda>i. min (img - i * cs) cs) (rc_lost st))"
    unfolding run(8) using cover(1) by simp
  have eq: "map (\<lambda>i. piece (dec i) (min (img - i * cs) cs)) [0..<m] =
      map (\<lambda>i. take (min (img - i * cs) cs) (?pages ! i)) [0..<m]"
  proof (rule map_cong [OF refl])
    fix i assume i: "i \<in> set [0..<m]"
    then have lt: "i < length states" using cover(2) by simp
    then have "length (state_page cs (states ! i)) = cs" using len by simp
    then show "piece (dec i) (min (img - i * cs) cs) = take (min (img - i * cs) cs) (?pages ! i)"
      using d [OF i] lt by (cases "states ! i") (simp_all add: piece_def fill_buf_def)
  qed
  have lens: "length p = cs" if "p \<in> set ?pages" for p using that len by auto
  have "rc_out st = take img (concat (take m ?pages))"
    unfolding run(1) eq using concat_cut_pages [where pages = ?pages and k = m and img = img and cs = cs] lens cover by simp
  also have "\<dots> = take img (concat ?pages)"
  proof -
    have "length (concat (take m ?pages)) = m * cs"
      using concat_equal_length [of "take m ?pages" cs] lens cover(2)
      by (metis in_set_takeD length_map length_take min.absorb2)
    moreover have "concat ?pages = concat (take m ?pages) @ concat (drop m ?pages)"
      by (metis append_take_drop_id concat_append)
    ultimately show ?thesis using cover(1) by simp
  qed
  finally show "rc_out st = take img (concat ?pages)" .
qed

section \<open>The recovery\<close>



end
