(* ===== verification/Spec2Isabelle.thy ===== *)
theory Spec2Isabelle
  imports Open_V2 Cli_Replies Integrity_Header Written_Analysis Written_Recovery
begin

text \<open>
  \<^bold>\<open>The program.\<close> The repository reads, checks and repairs forensic disk images in the Expert
  Witness Format. The crate \<open>core\<close> (\<open>src/core/src\<close>) opens images of one or more segment files,
  EWF v1 (\<open>E01\<close>, \<open>L01\<close>) and EWF v2 (\<open>Ex01\<close>), and presents the acquired media as one
  seekable byte stream; it verifies the stored digests and reads the file tree of logical evidence.
  The crate \<open>forensic\<close> (\<open>src/forensic/src\<close>) analyses the structure of possibly damaged images
  without the reader, reports anomalies by severity, and recovers what can be read of a damaged one;
  its command is \<open>ewf-check\<close>. The crate \<open>cli\<close> (\<open>src/cli/src\<close>) offers the reader's operations
  as a command and as tools of an MCP server.

  \<^bold>\<open>Conventions.\<close> A Rust computation gives \<open>Ok\<close>, \<open>Err\<close> or \<open>Panic\<close> (\<open>EWF_Prelude\<close>). On-disk
  fields are words of their width. Positions, lengths and indices (\<open>u64\<close>, and \<open>usize\<close> on the 64-bit
  platforms) are naturals, and each operation states its rule at \<open>2\<^sup>6\<^sup>4\<close>: saturating, checked, or a
  panic for plain arithmetic as in the overflow-checked build. Slices out of range panic. Mutable
  objects are records that operations return updated; the reader's two caches, which change behind a
  shared reference, are part of its record. Files and memory maps are byte lists, and a file system
  is a function from paths to their content or an error. Code outside the repository is a parameter:
  \<open>Externals\<close> collects the integer readers of \<open>safe-read\<close>, the checksum of \<open>adler2\<close>, the
  inflater of \<open>flate2\<close>, the digests and the \<open>lru\<close> cache, each with the laws that clients rely on
  and a reference instance that satisfies them; the matches of \<open>glob\<close> and the answers of the
  operating system are arguments of the operations that use them. The messages of error values are
  constructors.

  \<^bold>\<open>Theories and the code they model.\<close>
  \<^item> \<open>EWF_Prelude\<close>, \<open>Rust_Text\<close>, \<open>Externals\<close>: outcomes, arithmetic, slices and byte runs;
    \<open>str\<close> and \<open>char\<close> of the standard library with UTF-8 and UTF-16; the parameters and the error
    type of \<open>core/error.rs\<close>. The cache contract is the locale \<open>lru_cache\<close>.
  \<^item> \<open>Sections\<close> (\<open>core/sections.rs\<close>), \<open>Header_Parse\<close> (\<open>core/parse.rs\<close>, \<open>types.rs\<close>),
    \<open>Ewf2_Format\<close> (\<open>core/ewf2.rs\<close> and the v2 parsers of \<open>reader.rs\<close>): on-disk structures.
    Round trips of descriptors, table headers, entries and the packed chunk record; the error2
    pairs; the backward walk over a v2 segment ends with a linked list.
  \<^item> \<open>Segment_Source\<close> (\<open>core/segment_source.rs\<close> and \<open>pread\<close>): the three backings of a segment
    and the cursor. Their contract is the locale \<open>positioned_source\<close>, interpreted for each backing;
    the \<open>pread\<close> loop ends on every operating system that answers as documented.
  \<^item> \<open>Chunk_Table\<close> (\<open>core/chunk_table.rs\<close>): the parser of a table section against a reference
    reading, and the lazy table as a refinement of the vector of all chunks.
  \<^item> \<open>Reader_Open\<close>, \<open>Open_Correct\<close>, \<open>Discover\<close> (constructors and \<open>discover_segments\<close> of
    \<open>core/reader.rs\<close>): segment order, descriptor chain, section handlers, and the agreement of the
    eager and the lazy open pass; the segments of an image are visited in number order.
  \<^item> \<open>Reader_Read\<close>, \<open>Read_Correct\<close>, \<open>Reader_Sessions\<close>, \<open>No_Panic\<close>, \<open>Open_V2\<close> (the rest of
    \<open>core/reader.rs\<close>, and \<open>vfs.rs\<close>): chunk decompression, the chunk cache, \<open>read_at\<close>,
    \<open>Read\<close>, \<open>Seek\<close> and \<open>verify\<close>. The locale \<open>reader_caches\<close> carries the invariant that
    the caches hold only what the uncached operations give; calls are steps of the relation
    \<open>reader_step\<close>, and rule induction gives the invariant of every reachable reader.
  \<^item> \<open>Logical_Tree\<close>, \<open>Logical_Correct\<close> (\<open>core/logical.rs\<close>): the entry tree, extents and entry data.
  \<^item> \<open>Integrity\<close>, \<open>Integrity_Correct\<close>, \<open>Integrity_Header\<close> (\<open>forensic/integrity.rs\<close>): all checks
    of v1 and v2 images, the computed hashes and progress events, the acquisition metadata. The
    analysis returns on every input, and its hash verdicts are exactly the differences of digests.
  \<^item> \<open>Integrity_Path\<close> (\<open>forensic/integrity_path.rs\<close>) and \<open>Ewf_Check\<close>
    (\<open>forensic/bin/ewf_check.rs\<close>, \<open>Display\<close> of the anomalies): the analyser over files and the
    command with its reports and exit codes.
  \<^item> \<open>Recover\<close>, \<open>Recover_Correct\<close> (\<open>forensic/recover.rs\<close>): recovery chunk by chunk from the
    better of two tables, the writes to an output device that may fail, and the account that
    the report gives of the output.
  \<^item> \<open>Cli_Handlers\<close>, \<open>Cli_Correct\<close> (\<open>cli/handlers.rs\<close>): the six tool handlers; reads, extractions
    and searches answer from the image.
  \<^item> \<open>Cli_Format\<close>, \<open>Cli_Main\<close> (\<open>cli/main.rs\<close>), \<open>Cli_Server\<close> (\<open>cli/mcp.rs\<close>), \<open>Cli_Program\<close>: the
    texts for people, the subcommands with their exit codes, the listing of logical evidence, and the
    MCP server. Every command returns; reading and verifying are correct down to what is printed and
    to the exit code; the server gives each request one answer, within the limits it declares.
    \<open>Cli_Replies\<close> is a type system for JSON values, in which every answer of the server has the type
    that the protocol gives it.
  \<^item> \<open>Written_Image\<close>, \<open>Written_Analysis\<close>, \<open>Written_Recovery\<close>: the specification of a writer of
    EWF v1 images, which may store damaged chunks, and the components composed on what it writes:
    opening, sessions and verification of the reader, the whole analysis, the whole recovery.
  \<^item> \<open>Sample_Image\<close>: a complete small image on which the properties of opening and reading are
    exercised.

  This theory holds the properties of an open image as a whole: sessions, verification, the two
  tables, robustness.

  \<^bold>\<open>What the main properties say.\<close> An image is \<open>intact\<close> when all its chunks decompress and cover
  the media size, and \<open>media_image\<close> is then the acquired media. A session of reads and seeks on an
  opened reader is a session on a cursor over one buffer with that content; verification returns the
  digests of it; the command's reads, extractions and searches answer from it. On damaged images
  outcomes still do not depend on the history of calls, nothing panics on the eager path of v1 images
  and only oversized geometry on v2 images, and the analyser and the recovery account for every chunk.
  On an image written for given chunks, in one segment of the documented layout with less than \<open>2\<^sup>3\<^sup>1\<close>
  bytes before its table, the reader presents exactly the acquired bytes, the analysis reports exactly
  the damaged chunks and differing digests, and the recovery restores every chunk that can be decoded
  and names exactly the others.

  \<^bold>\<open>Termination and fuel.\<close> Loops are total functions with a measure, except the probing of sibling
  files in \<open>Recover\<close>, bounded by fuel as the directory bounds the number of files, and the
  \<open>pread\<close> loop, which consumes the answers of the operating system. Sources are assumed shorter
  than \<open>2\<^sup>6\<^sup>3\<close> bytes where a seek casts a length to \<open>i64\<close>.

  The walk of \<open>ewf ls\<close> over the parents of an entry is a \<open>partial_function\<close>, with a proof that it
  ends on every parsed tree.

  \<^bold>\<open>Not modelled.\<close> Argument parsing by \<open>clap\<close>, JSON parsing and printing by \<open>serde_json\<close> (parameters);
  standard error, log lines and the texts of the reader's error values; the progress bar; an
  extraction whose output path is a segment of its own image; \<open>lib.rs\<close> files, which are re-exports and unit tests.
  The parallel batches of \<open>verify\<close> are evaluated in order: where several chunks of a batch fail the
  code may report any of their errors and the model reports the first.
\<close>

section \<open>Reading an open image\<close>

text \<open>C1: a session of reads and seeks on an opened image, after any earlier calls, returns exactly
  what the same session returns on a cursor over one buffer that holds the whole image.
\<close>

theorem session_refines_buffer:
  assumes "lru_laws LS viewS" and "lru_laws LP viewP"
    and "open_v1 LS LP X sources cache_size k = Ok r0" and "reader_reachable LS LP X r0 r"
    and "intact X r0 pages" and "list_all op_in_range ops"
  shows "run_reader LS LP X r ops =
    run_cursor \<lparr>cur_src = Mem (media_image r0 pages), cur_pos = rd_position r\<rparr> ops"
  using reader_caches.opened_cursor [OF reader_caches_laws [OF assms(1,2)]]
    reader_caches.opened_inv [OF reader_caches_laws [OF assms(1,2)]] assms(3-6) by blast

text \<open>The sample image opened with the lazy table, after a seek.\<close>

definition sample_lazy_reader :: "(Chunk list lru_list, bytes lru_list) EwfReader" where
  "sample_lazy_reader =
    sample_reader (Lazy (lazy_new lru_list_ops [sample_meta] 4 8)) (lru_new lru_list_ops 100)"

lemma sample_lazy_open:
  "open_v1 lru_list_ops lru_list_ops ref_externals [Mem sample_image] 100 (Some 8) = Ok sample_lazy_reader"
  using sample_open [of lru_list_ops 100 "Some 8"] by (simp add: sample_lazy_reader_def)

lemma sample_lazy_intact: "intact ref_externals sample_lazy_reader sample_pages"
  by (simp add: sample_lazy_reader_def sample_intact)

lemma sample_lazy_image: "media_image sample_lazy_reader sample_pages = [10, 11, 12, 13, 14, 15, 16, 17]"
  by (simp add: media_image_def sample_lazy_reader_def sample_reader_def)

lemma sample_sought:
  "reader_reachable lru_list_ops lru_list_ops ref_externals sample_lazy_reader
    (sample_lazy_reader\<lparr>rd_position := 2\<rparr>)"
proof (rule reach_step [OF reach_start], rule step_seek)
  show "reader_seek sample_lazy_reader (SeekStart 2) = Ok (2, sample_lazy_reader\<lparr>rd_position := 2\<rparr>)"
    by (simp add: reader_seek_def seek_target_def as_i64_def)
qed (simp add: u64_max_def)

theorem session_refines_buffer_witness:
  "run_reader lru_list_ops lru_list_ops ref_externals (sample_lazy_reader\<lparr>rd_position := 2\<rparr>)
      [OpRead 3, OpSeek (SeekEnd (- 2)), OpRead 9, OpSeek (SeekCurrent (- 20))] =
    [OutBytes (Ok [12, 13, 14]), OutPos (Ok 6), OutBytes (Ok [16, 17]), OutPos (Err (Io InvalidInput))]"
proof -
  let ?ops = "[OpRead 3, OpSeek (SeekEnd (- 2)), OpRead 9, OpSeek (SeekCurrent (- 20))]"
  have "run_reader lru_list_ops lru_list_ops ref_externals (sample_lazy_reader\<lparr>rd_position := 2\<rparr>) ?ops =
      run_cursor \<lparr>cur_src = Mem (media_image sample_lazy_reader sample_pages), cur_pos = 2\<rparr> ?ops"
    using session_refines_buffer [OF lru_list_laws lru_list_laws sample_lazy_open sample_sought
        sample_lazy_intact, of ?ops] by simp
  then show ?thesis
    by (simp add: sample_lazy_image cursor_read_def cursor_seek_def seek_target_def i64_add_def as_i64_def)
qed

text \<open>C10: on any opened image, damaged ones included, a positioned read after any earlier calls
  returns what a read without caches returns: the outcome, error or bytes, does not depend on
  what was read before.
\<close>

theorem read_at_history_independent:
  assumes "lru_laws LS viewS" and "lru_laws LP viewP"
    and "open_v1 LS LP X sources cache_size k = Ok r0" and "reader_reachable LS LP X r0 r"
    and "reader_read_at LS LP X r n off = (res, r')"
  shows "res = read_at_ref (page_at X r0) (rd_chunk_size r0) (rd_total_size r0) n off []"
  using reader_caches.opened_read_at [OF reader_caches_laws [OF assms(1,2)]]
    reader_caches.opened_inv [OF reader_caches_laws [OF assms(1,2)]] assms(3-5) by blast

theorem read_at_history_independent_witness:
  "fst (reader_read_at lru_list_ops lru_list_ops ref_externals (sample_lazy_reader\<lparr>rd_position := 2\<rparr>) 3 6) =
    read_at_ref (page_at ref_externals sample_lazy_reader) 4 8 3 6 []"
proof -
  obtain res r' where r: "reader_read_at lru_list_ops lru_list_ops ref_externals
      (sample_lazy_reader\<lparr>rd_position := 2\<rparr>) 3 6 = (res, r')" by fastforce
  have "rd_chunk_size sample_lazy_reader = 4" "rd_total_size sample_lazy_reader = 8"
    by (simp_all add: sample_lazy_reader_def sample_reader_def)
  then show ?thesis
    using read_at_history_independent [OF lru_list_laws lru_list_laws sample_lazy_open sample_sought r] r by simp
qed

text \<open>C5: verification of an intact image returns, for any number of worker threads and after any
  earlier calls, the digests of the image and whether they equal the stored ones.
\<close>

theorem verify_hashes_the_image:
  assumes "lru_laws LS viewS" and "lru_laws LP viewP"
    and "open_v1 LS LP X sources cache_size k = Ok r0" and "reader_reachable LS LP X r0 r"
    and "intact X r0 pages" and "length pages + batch_size threads \<le> u64_max"
    and "rd_chunk_size r0 * length pages \<le> u64_max"
  shows "\<exists>r'. verify LS X threads r =
    (Ok \<lparr>vr_computed_md5 = x_md5 X (media_image r0 pages),
         vr_computed_sha1 = map_option (\<lambda>_. x_sha1 X (media_image r0 pages)) (rd_stored_sha1 r0),
         vr_md5_match = map_option (\<lambda>s. s = x_md5 X (media_image r0 pages)) (rd_stored_md5 r0),
         vr_sha1_match = map_option (\<lambda>s. s = x_sha1 X (media_image r0 pages)) (rd_stored_sha1 r0),
         vr_addressable_bytes = rd_chunk_size r0 * length pages,
         vr_declared_bytes = rd_total_size r0\<rparr>, r')"
  using reader_caches.opened_verify [OF reader_caches_laws [OF assms(1,2)]]
    reader_caches.opened_inv [OF reader_caches_laws [OF assms(1,2)]] assms(3-7) by blast

theorem verify_hashes_the_image_witness:
  "\<exists>r'. verify lru_list_ops ref_externals 3 (sample_lazy_reader\<lparr>rd_position := 2\<rparr>) =
    (Ok \<lparr>vr_computed_md5 = [10, 11, 12, 13, 14, 15, 16, 17, 0, 0, 0, 0, 0, 0, 0, 0],
         vr_computed_sha1 = None, vr_md5_match = None, vr_sha1_match = None,
         vr_addressable_bytes = 8, vr_declared_bytes = 8\<rparr>, r')"
proof -
  have "x_md5 ref_externals (media_image sample_lazy_reader sample_pages) =
      [10, 11, 12, 13, 14, 15, 16, 17, 0, 0, 0, 0, 0, 0, 0, 0]"
    by (simp add: sample_lazy_image ref_externals_def fill_buf_def numeral_eq_Suc)
  then show ?thesis
    using verify_hashes_the_image [OF lru_list_laws lru_list_laws sample_lazy_open sample_sought
        sample_lazy_intact, of 3]
    by (simp add: batch_size_def sat_mul_def u64_max_def)
      (simp add: sample_lazy_reader_def sample_reader_def)
qed



section \<open>Robustness\<close>

text \<open>C7: opening segment sources with the eager table returns a reader or an error, never a panic,
  whatever bytes the sources hold.
\<close>

theorem open_never_panics:
  assumes "list_all small_source sources"
  shows "open_from_sources LS LP X sources \<noteq> Panic"
  using open_v1_safe [OF assms] by (simp add: open_from_sources_def)

theorem open_never_panics_witness:
  "open_from_sources lru_list_ops lru_list_ops ref_externals
      [Mem (replicate 40 0xff), File (replicate 8 1), Mem []] \<noteq> Panic"
  by (rule open_never_panics) (simp add: small_mem small_file)

text \<open>C8: a positioned read on a reader opened with the eager table returns bytes or an error, never
  a panic, after any earlier calls and for every buffer length and offset.
\<close>

theorem read_never_panics:
  assumes "lru_laws LS viewS" and "lru_laws LP viewP" and "zlib_read_laws X"
    and "list_all small_source sources"
    and "open_v1 LS LP X sources cache_size None = Ok r0" and "reader_reachable LS LP X r0 r"
    and "reader_read_at LS LP X r n off = (res, r')"
  shows "res \<noteq> Panic"
proof -
  have res: "res = read_at_ref (page_at X r0) (rd_chunk_size r0) (rd_total_size r0) n off []"
    using reader_caches.opened_read_at [OF reader_caches_laws [OF assms(1,2)]]
      reader_caches.opened_inv [OF reader_caches_laws [OF assms(1,2)]] assms(5-7) by blast
  obtain v where v: "rd_chunks r0 = Eager v" using open_v1_run [OF assms(5)] by auto
  have b: "0 < rd_chunk_size r0" "rd_total_size r0 \<le> u64_max" "set (rd_segments r0) \<subseteq> set sources"
    using open_v1_bounded [OF assms(5)] by auto
  have "list_all small_source (rd_segments r0)" using b(3) assms(4) by (auto simp: list_all_iff)
  moreover have "rd_chunk_size r0 \<le> ISIZE_MAX"
    using open_v1_bounded [OF assms(5)] by (simp add: MAX_CHUNK_SIZE_def ISIZE_MAX_def)
  ultimately have "page_at X r0 i \<noteq> Panic" for i using page_at_eager_no_panic [OF v _ assms(3)] by blast
  then show ?thesis unfolding res using b page_at_length by (intro read_at_ref_no_panic) auto
qed

theorem read_never_panics_witness:
  "fst (reader_read_at lru_list_ops lru_list_ops ref_externals
      (sample_reader (Eager sample_chunks) (lru_new lru_list_ops 100)) 20 3) \<noteq> Panic"
proof -
  let ?r = "sample_reader (Eager sample_chunks) (lru_new lru_list_ops 100)"
  have o: "open_v1 lru_list_ops lru_list_ops ref_externals [Mem sample_image] 100 None = Ok ?r"
    using sample_open [of lru_list_ops 100 None] by simp
  have s: "list_all small_source [Mem sample_image]" by (simp add: small_mem length_sample)
  obtain res r' where r: "reader_read_at lru_list_ops lru_list_ops ref_externals ?r 20 3 = (res, r')" by fastforce
  show ?thesis
    using read_never_panics [OF lru_list_laws lru_list_laws ref_zlib_read_laws s o reach_start r] r by simp
qed



end
